theory Spec2Isabelle
  imports Complex_Main
begin

section \<open>Python values used by the two generator scripts\<close>

text \<open>
  The scripts \<^verbatim>\<open>generate_icon.py\<close> and \<^verbatim>\<open>generate_favicon.py\<close> compute with
  Python's unbounded integers (\<^typ>\<open>int\<close>) and with floats, which are IEEE 754 binary64
  numbers. A finite binary64 number is a rational, so a float is modelled as a \<^typ>\<open>real\<close>
  that every operation rounds to the nearest representable value, ties to even
  (53 significant bits, least exponent \<open>-1022\<close>, subnormal spacing \<open>2 powi (-1074)\<close>).
  The sign of zero is not kept: nothing below observes it.
\<close>

datatype py_error = ZeroDivisionError | OverflowError | OSError

function bit_length :: "int \<Rightarrow> int" where
  "bit_length n = (if n \<le> 0 then 0 else 1 + bit_length (n div 2))"
  by pat_completeness auto
termination
  by (relation "measure nat") auto

declare bit_length.simps [simp del]

text \<open>The binary exponent of a positive rational: \<open>2 powi e \<le> x < 2 powi (e + 1)\<close>.\<close>

definition ilog2 :: "real \<Rightarrow> int" where
  "ilog2 x =
     (if 1 \<le> x then bit_length \<lfloor>x\<rfloor> - 1
      else let k = bit_length \<lfloor>1 / x\<rfloor> - 1
           in if x = 2 powi (- k) then - k else - k - 1)"

definition round_half_even :: "real \<Rightarrow> int" where
  "round_half_even m =
     (let f = \<lfloor>m\<rfloor>; d = m - of_int f
      in if d < 1 / 2 then f
         else if 1 / 2 < d then f + 1
         else if even f then f else f + 1)"

text \<open>The spacing of binary64 numbers around \<open>x\<close>.\<close>

definition quantum :: "real \<Rightarrow> real" where
  "quantum x = 2 powi (max (ilog2 \<bar>x\<bar>) (- 1022) - 52)"

definition rnd :: "real \<Rightarrow> real" where
  "rnd x = (if x = 0 then 0 else of_int (round_half_even (x / quantum x)) * quantum x)"

text \<open>
  A float is a finite number or not: an operation whose rounded result reaches
  \<open>2 ^ 1024\<close> gives an infinity, and \<open>+\<close>, \<open>-\<close> and \<open>*\<close> on an infinity or a NaN give
  an infinity or a NaN again, so the one value \<open>NonFinite\<close> stands for all of them.
\<close>

datatype double = Fin real | NonFinite

definition to_double :: "real \<Rightarrow> double" where
  "to_double x = (let r = rnd x in if \<bar>r\<bar> < 2 ^ 1024 then Fin r else NonFinite)"

text \<open>A float literal of the source, given by its decimal value.\<close>

definition lit :: "real \<Rightarrow> double" where
  "lit x = to_double x"

fun fadd :: "double \<Rightarrow> double \<Rightarrow> double" where
  "fadd (Fin a) (Fin b) = to_double (a + b)"
| "fadd _ _ = NonFinite"

fun fsub :: "double \<Rightarrow> double \<Rightarrow> double" where
  "fsub (Fin a) (Fin b) = to_double (a - b)"
| "fsub _ _ = NonFinite"

fun fmul :: "double \<Rightarrow> double \<Rightarrow> double" where
  "fmul (Fin a) (Fin b) = to_double (a * b)"
| "fmul _ _ = NonFinite"

text \<open>
  \<^verbatim>\<open>float(n)\<close>, which Python applies to the integer operand of a mixed operation such as
  \<^verbatim>\<open>s * 0.16\<close>: it raises OverflowError when the integer is too large for a float.
\<close>

definition float_of_int :: "int \<Rightarrow> py_error + double" where
  "float_of_int n =
     (case to_double (of_int n) of NonFinite \<Rightarrow> Inl OverflowError | Fin r \<Rightarrow> Inr (Fin r))"

text \<open>\<^verbatim>\<open>a / b\<close> on two integers: the correctly rounded quotient.\<close>

definition py_truediv :: "int \<Rightarrow> int \<Rightarrow> py_error + double" where
  "py_truediv a b =
     (if b = 0 then Inl ZeroDivisionError
      else case to_double (of_int a / of_int b) of
             NonFinite \<Rightarrow> Inl OverflowError
           | Fin r \<Rightarrow> Inr (Fin r))"

text \<open>\<^verbatim>\<open>int(x)\<close> on a float truncates towards zero and raises on an infinity.\<close>

definition py_int :: "double \<Rightarrow> py_error + int" where
  "py_int x =
     (case x of
        NonFinite \<Rightarrow> Inl OverflowError
      | Fin r \<Rightarrow> Inr (if 0 \<le> r then \<lfloor>r\<rfloor> else \<lceil>r\<rceil>))"

text \<open>\<^verbatim>\<open>str(n)\<close> on an integer, as the f-string of the output path needs it.\<close>

function str_nat :: "int \<Rightarrow> string" where
  "str_nat n =
     (if n < 10 then [''0123456789'' ! nat n]
      else str_nat (n div 10) @ [''0123456789'' ! nat (n mod 10)])"
  by pat_completeness auto
termination
  by (relation "measure nat") auto

declare str_nat.simps [simp del]

definition str_int :: "int \<Rightarrow> string" where
  "str_int n = (if n < 0 then ''-'' @ str_nat (- n) else str_nat n)"

section \<open>The imaging library, as the calls made on it\<close>

text \<open>
  Pillow is not part of the repository. A canvas is the tree of the library calls that
  built it, in the order the scripts make them; a drawing call that mutates an image in
  place returns the updated canvas. Only what the interface fixes is interpreted: the
  dimensions of a canvas and the pixels of an image that was filled by \<^verbatim>\<open>px[x, y] = c\<close>.
\<close>

datatype mode = L | RGB | RGBA

datatype colour = Grey int | Rgb int int int | Rgba int int int int

datatype resample = NEAREST | BILINEAR | BICUBIC | LANCZOS

type_synonym point = "double \<times> double"

datatype canvas =
    New mode int int colour
  | PutPixel canvas int int colour
  | RoundedRectangle canvas "int \<times> int \<times> int \<times> int" int "colour option" "colour option" int
  | Polygon canvas "point list" colour
  | Paste canvas canvas canvas
  | AlphaComposite canvas canvas
  | Resize canvas int int resample

text \<open>
  \<open>New m w h c\<close> is \<^verbatim>\<open>Image.new(m, (w, h), c)\<close>; \<open>PutPixel im x y c\<close> is
  \<^verbatim>\<open>px[x, y] = c\<close> on \<open>im\<close>; \<open>RoundedRectangle im box radius fill outline width\<close> and
  \<open>Polygon im points fill\<close> are the \<^verbatim>\<open>ImageDraw\<close> calls on \<open>im\<close>;
  \<open>Paste base im mask\<close> is \<^verbatim>\<open>base.paste(im, mask=mask)\<close>;
  \<open>AlphaComposite a b\<close> is \<^verbatim>\<open>Image.alpha_composite(a, b)\<close>;
  \<open>Resize im w h f\<close> is \<^verbatim>\<open>im.resize((w, h), f)\<close>.
\<close>

fun canvas_size :: "canvas \<Rightarrow> int \<times> int" where
  "canvas_size (New m w h c) = (w, h)"
| "canvas_size (PutPixel im x y c) = canvas_size im"
| "canvas_size (RoundedRectangle im box r fill outline width) = canvas_size im"
| "canvas_size (Polygon im pts c) = canvas_size im"
| "canvas_size (Paste base im msk) = canvas_size base"
| "canvas_size (AlphaComposite a b) = canvas_size a"
| "canvas_size (Resize im w h f) = (w, h)"

text \<open>The pixel at \<open>(x, y)\<close> of an image built by \<open>New\<close> and \<open>PutPixel\<close> only.\<close>

fun get_pixel :: "canvas \<Rightarrow> int \<Rightarrow> int \<Rightarrow> colour option" where
  "get_pixel (New m w h c) x y = (if 0 \<le> x \<and> x < w \<and> 0 \<le> y \<and> y < h then Some c else None)"
| "get_pixel (PutPixel im x' y' c) x y = (if x = x' \<and> y = y' then Some c else get_pixel im x y)"
| "get_pixel _ x y = None"

text \<open>How many resampling steps a canvas went through.\<close>

fun resizes :: "canvas \<Rightarrow> nat" where
  "resizes (New m w h c) = 0"
| "resizes (PutPixel im x y c) = resizes im"
| "resizes (RoundedRectangle im box r fill outline width) = resizes im"
| "resizes (Polygon im pts c) = resizes im"
| "resizes (Paste base im msk) = resizes base + resizes im + resizes msk"
| "resizes (AlphaComposite a b) = resizes a + resizes b"
| "resizes (Resize im w h f) = Suc (resizes im)"

text \<open>The dimensions of every image allocated on the way to a canvas.\<close>

fun allocated :: "canvas \<Rightarrow> (int \<times> int) set" where
  "allocated (New m w h c) = {(w, h)}"
| "allocated (PutPixel im x y c) = allocated im"
| "allocated (RoundedRectangle im box r fill outline width) = allocated im"
| "allocated (Polygon im pts c) = allocated im"
| "allocated (Paste base im msk) = allocated base \<union> allocated im \<union> allocated msk"
| "allocated (AlphaComposite a b) = allocated a \<union> allocated b"
| "allocated (Resize im w h f) = allocated im"

section \<open>generate\_icon.py\<close>

text \<open>
  The functions keep the names of the source. Its parameter \<^verbatim>\<open>size\<close> is written \<open>sz\<close>
  and its local \<^verbatim>\<open>mask\<close> is written \<open>msk\<close>, since \<open>size\<close> and \<open>mask\<close> are constants of
  HOL.
\<close>

definition INDIGO_TOP :: "int \<times> int \<times> int" where
  "INDIGO_TOP = (99, 102, 241)"

definition INDIGO_BOTTOM :: "int \<times> int \<times> int" where
  "INDIGO_BOTTOM = (67, 56, 202)"

definition WHITE :: colour where
  "WHITE = Rgb 255 255 255"

definition SIZES :: "int list" where
  "SIZES = [16, 32, 48, 128]"

definition OUT_DIR :: string where
  "OUT_DIR = ''extension/icons''"

text \<open>\<^verbatim>\<open>range(n)\<close>\<close>

definition range :: "int \<Rightarrow> int list" where
  "range n = [0..n - 1]"

text \<open>
  \<^verbatim>\<open>rounded_rect_mask(size, radius_frac)\<close>: the radius is
  \<^verbatim>\<open>max(1, int(size * radius_frac))\<close>.
\<close>

definition rounded_rect_mask :: "int \<Rightarrow> double \<Rightarrow> py_error + canvas" where
  "rounded_rect_mask sz radius_frac =
     (let msk = New L sz sz (Grey 0)
      in case float_of_int sz of
           Inl e \<Rightarrow> Inl e
         | Inr s \<Rightarrow>
             (case py_int (fmul s radius_frac) of
                Inl e \<Rightarrow> Inl e
              | Inr k \<Rightarrow>
                  let r = max 1 k
                  in Inr (RoundedRectangle msk (0, 0, sz - 1, sz - 1) r
                            (Some (Grey 255)) None 1)))"

text \<open>
  One channel \<open>c\<close> of a gradient row,
  \<^verbatim>\<open>int(top_rgb[c] + (bot_rgb[c] - top_rgb[c]) * t)\<close>: the integer difference is
  converted to a float for the product and \<^verbatim>\<open>top_rgb[c]\<close> for the sum.
\<close>

definition channel :: "int \<Rightarrow> int \<Rightarrow> double \<Rightarrow> py_error + int" where
  "channel top_c bot_c t =
     (case float_of_int (bot_c - top_c) of
        Inl e \<Rightarrow> Inl e
      | Inr d \<Rightarrow>
          (case float_of_int top_c of
             Inl e \<Rightarrow> Inl e
           | Inr a \<Rightarrow> py_int (fadd a (fmul d t))))"

text \<open>The inner loop \<^verbatim>\<open>for x in range(size): px[x, y] = (r, g, b)\<close>.\<close>

fun fill_row :: "canvas \<Rightarrow> int \<Rightarrow> colour \<Rightarrow> int list \<Rightarrow> canvas" where
  "fill_row img y c [] = img"
| "fill_row img y c (x # xs) = fill_row (PutPixel img x y c) y c xs"

text \<open>The outer loop \<^verbatim>\<open>for y in range(size)\<close>, over the rows still to do.\<close>

fun gradient_rows ::
  "int \<Rightarrow> int \<times> int \<times> int \<Rightarrow> int \<times> int \<times> int \<Rightarrow> canvas \<Rightarrow> int list \<Rightarrow> py_error + canvas"
where
  "gradient_rows sz top_rgb bot_rgb img [] = Inr img"
| "gradient_rows sz top_rgb bot_rgb img (y # ys) =
     (case py_truediv y (sz - 1) of
        Inl e \<Rightarrow> Inl e
      | Inr t \<Rightarrow>
          (case channel (fst top_rgb) (fst bot_rgb) t of
             Inl e \<Rightarrow> Inl e
           | Inr r \<Rightarrow>
               (case channel (fst (snd top_rgb)) (fst (snd bot_rgb)) t of
                  Inl e \<Rightarrow> Inl e
                | Inr g \<Rightarrow>
                    (case channel (snd (snd top_rgb)) (snd (snd bot_rgb)) t of
                       Inl e \<Rightarrow> Inl e
                     | Inr b \<Rightarrow>
                         gradient_rows sz top_rgb bot_rgb
                           (fill_row img y (Rgb r g b) (range sz)) ys))))"

definition vertical_gradient ::
  "int \<Rightarrow> int \<times> int \<times> int \<Rightarrow> int \<times> int \<times> int \<Rightarrow> py_error + canvas"
where
  "vertical_gradient sz top_rgb bot_rgb =
     gradient_rows sz top_rgb bot_rgb (New RGB sz sz (Rgb 0 0 0)) (range sz)"

text \<open>
  The two polygons that \<^verbatim>\<open>draw_v\<close> passes to \<^verbatim>\<open>draw.polygon\<close>. The first
  \<^verbatim>\<open>right_arm\<close> of the source is overwritten before it is used and its float
  operations cannot raise, so only the second one appears.
\<close>

definition v_arms :: "int \<Rightarrow> py_error + (point list \<times> point list)" where
  "v_arms sz =
     (case float_of_int sz of
        Inl e \<Rightarrow> Inl e
      | Inr s \<Rightarrow>
          let pad = fmul s (lit (16 / 100));
              tip_x = fmul s (lit (50 / 100));
              tip_y = fmul s (lit (74 / 100));
              thick = fmul s (lit (175 / 1000));
              lx0 = pad; ly0 = pad;
              lx1 = fadd pad thick; ly1 = pad;
              apex_out = (fsub tip_x (fmul thick (lit (38 / 100))), tip_y);
              apex_in = (tip_x, fsub tip_y (fmul thick (lit (55 / 100))));
              left_arm = [(lx0, ly0), (lx1, ly1), apex_in, apex_out];
              right_arm = map (\<lambda>(x, y). (fsub (fmul (Fin 2) tip_x) x, y)) left_arm
          in Inr (left_arm, right_arm))"

definition draw_v :: "canvas \<Rightarrow> int \<Rightarrow> colour \<Rightarrow> py_error + canvas" where
  "draw_v draw sz color =
     (case v_arms sz of
        Inl e \<Rightarrow> Inl e
      | Inr (left_arm, right_arm) \<Rightarrow> Inr (Polygon (Polygon draw left_arm color) right_arm color))"

definition make_icon :: "int \<Rightarrow> py_error + canvas" where
  "make_icon sz =
     (let SCALE = 4; S = sz * SCALE
      in case vertical_gradient S INDIGO_TOP INDIGO_BOTTOM of
           Inl e \<Rightarrow> Inl e
         | Inr bg \<Rightarrow>
             let base = New RGBA S S (Rgba 0 0 0 0)
             in (case rounded_rect_mask S (lit (22 / 100)) of
                   Inl e \<Rightarrow> Inl e
                 | Inr msk \<Rightarrow>
                     let base = Paste base bg msk;
                         layer = New RGBA S S (Rgba 0 0 0 0)
                     in (case draw_v layer S WHITE of
                           Inl e \<Rightarrow> Inl e
                         | Inr layer \<Rightarrow>
                             let base = AlphaComposite base layer;
                                 icon = Resize base sz sz LANCZOS
                             in Inr icon)))"

section \<open>generate\_favicon.py\<close>

text \<open>
  The highlight ring, \<^verbatim>\<open>for i in range(4)\<close>: each pass draws one outline on a new
  transparent overlay and composites it onto the image so far.
\<close>

fun highlight_ring :: "int \<Rightarrow> int \<Rightarrow> canvas \<Rightarrow> int list \<Rightarrow> canvas" where
  "highlight_ring sz radius img [] = img"
| "highlight_ring sz radius img (i # rest) =
     (let alpha = max 0 (60 - i * 15);
          overlay = New RGBA sz sz (Rgba 0 0 0 0);
          overlay = RoundedRectangle overlay (i, i, sz - 1 - i, sz - 1 - i) radius
                      None (Some (Rgba 139 92 246 alpha)) 1
      in highlight_ring sz radius (AlphaComposite img overlay) rest)"

text \<open>The polygons \<^verbatim>\<open>v_poly\<close> and \<^verbatim>\<open>right_half\<close> of \<^verbatim>\<open>make_vaulty_favicon\<close>.\<close>

definition favicon_polys :: "int \<Rightarrow> py_error + (point list \<times> point list)" where
  "favicon_polys sz =
     (case float_of_int sz of
        Inl e \<Rightarrow> Inl e
      | Inr s \<Rightarrow>
          (case py_truediv sz 2 of
             Inl e \<Rightarrow> Inl e
           | Inr mid_x \<Rightarrow>
               let margin = fmul s (lit (18 / 100));
                   top_y = fmul s (lit (22 / 100));
                   bot_y = fmul s (lit (78 / 100));
                   thick = fmul s (lit (13 / 100));
                   left_outer_x = margin;
                   left_inner_x = fadd margin (fmul thick (lit (16 / 10)));
                   right_outer_x = fsub s margin;
                   right_inner_x = fsub (fsub s margin) (fmul thick (lit (16 / 10)));
                   v_poly = [(left_outer_x, top_y),
                             (left_inner_x, top_y),
                             (mid_x, fsub bot_y (fmul thick (lit (9 / 10)))),
                             (right_inner_x, top_y),
                             (right_outer_x, top_y),
                             (mid_x, bot_y)];
                   right_half = [(mid_x, top_y),
                                 (right_inner_x, top_y),
                                 (right_outer_x, top_y),
                                 (mid_x, bot_y)]
               in Inr (v_poly, right_half)))"

definition make_vaulty_favicon :: "int \<Rightarrow> py_error + canvas" where
  "make_vaulty_favicon sz =
     (let img = New RGBA sz sz (Rgba 0 0 0 0);
          bg_color = Rgb 15 23 42;
          accent = Rgb 99 102 241;
          radius = sz div 5;
          img = RoundedRectangle img (0, 0, sz - 1, sz - 1) radius (Some bg_color) None 1;
          img = highlight_ring sz radius img (range 4)
      in case favicon_polys sz of
           Inl e \<Rightarrow> Inl e
         | Inr (v_poly, right_half) \<Rightarrow>
             let img = Polygon img v_poly accent;
                 overlay2 = New RGBA sz sz (Rgba 0 0 0 0);
                 overlay2 = Polygon overlay2 right_half (Rgba 139 92 246 200);
                 img = AlphaComposite img overlay2
             in Inr img)"

section \<open>The output stage\<close>

text \<open>
  What a run leaves behind: the image files written, the directories made and the lines
  printed. A printed line is kept as the values put into it, not as text. Whether the
  operating system lets a directory be made or a file be written is not decided by the
  scripts: it is a parameter of a run. A call that is refused raises OSError and leaves
  the world as it was; the exception is not caught anywhere, so it ends the run.
\<close>

datatype format = PNG | ICO

record image_file =
  file_format :: format
  file_image :: canvas
  file_sizes :: "(int \<times> int) list option"

datatype message =
    Wrote string int
  | Done string
  | FaviconSaved string
  | SizesEmbedded "int list"

record world =
  files :: "string \<rightharpoonup> image_file"
  dirs :: "string set"
  stdout :: "message list"

record os_env =
  can_mkdir :: "string \<Rightarrow> bool"
  can_write :: "string \<Rightarrow> bool"

text \<open>\<^verbatim>\<open>os.makedirs(d, exist_ok=True)\<close>\<close>

definition makedirs :: "os_env \<Rightarrow> world \<Rightarrow> string \<Rightarrow> py_error option \<times> world" where
  "makedirs env w d =
     (if can_mkdir env d then (None, w\<lparr>dirs := insert d (dirs w)\<rparr>) else (Some OSError, w))"

text \<open>\<^verbatim>\<open>img.save(path, format, sizes=...)\<close>\<close>

definition save ::
  "os_env \<Rightarrow> world \<Rightarrow> canvas \<Rightarrow> string \<Rightarrow> format \<Rightarrow> (int \<times> int) list option
     \<Rightarrow> py_error option \<times> world"
where
  "save env w img path fmt szs =
     (if can_write env path
      then (None, w\<lparr>files := (files w)(path \<mapsto>
                    \<lparr>file_format = fmt, file_image = img, file_sizes = szs\<rparr>)\<rparr>)
      else (Some OSError, w))"

definition print :: "world \<Rightarrow> message \<Rightarrow> world" where
  "print w m = w\<lparr>stdout := stdout w @ [m]\<rparr>"

text \<open>\<^verbatim>\<open>os.path.dirname(p)\<close> on a POSIX path.\<close>

definition dirname :: "string \<Rightarrow> string" where
  "dirname p =
     (let head = rev (dropWhile (\<lambda>c. c \<noteq> CHR ''/'') (rev p))
      in if head \<noteq> [] \<and> \<not> list_all (\<lambda>c. c = CHR ''/'') head
         then rev (dropWhile (\<lambda>c. c = CHR ''/'') (rev head))
         else head)"

text \<open>The path \<^verbatim>\<open>f"{OUT_DIR}/icon-{sz}.png"\<close>.\<close>

definition icon_path :: "int \<Rightarrow> string" where
  "icon_path sz = OUT_DIR @ ''/icon-'' @ str_int sz @ ''.png''"

text \<open>The loop \<^verbatim>\<open>for sz in SIZES\<close> at the end of \<^verbatim>\<open>generate_icon.py\<close>.\<close>

fun icon_loop :: "os_env \<Rightarrow> world \<Rightarrow> int list \<Rightarrow> py_error option \<times> world" where
  "icon_loop env w [] = (None, w)"
| "icon_loop env w (sz # rest) =
     (case make_icon sz of
        Inl e \<Rightarrow> (Some e, w)
      | Inr icon \<Rightarrow>
          let path = icon_path sz
          in (case save env w icon path PNG None of
                (Some e, w') \<Rightarrow> (Some e, w')
              | (None, w') \<Rightarrow> icon_loop env (print w' (Wrote path sz)) rest))"

text \<open>The top level of \<^verbatim>\<open>generate_icon.py\<close>.\<close>

definition generate_icon :: "os_env \<Rightarrow> world \<Rightarrow> py_error option \<times> world" where
  "generate_icon env w =
     (case makedirs env w OUT_DIR of
        (Some e, w') \<Rightarrow> (Some e, w')
      | (None, w') \<Rightarrow>
          (case icon_loop env w' SIZES of
             (Some e, w'') \<Rightarrow> (Some e, w'')
           | (None, w'') \<Rightarrow> (None, print w'' (Done OUT_DIR))))"

definition save_favicon :: "os_env \<Rightarrow> world \<Rightarrow> string \<Rightarrow> py_error option \<times> world" where
  "save_favicon env w path =
     (let sizes = [16, 32, 48, 64]
      in case makedirs env w (dirname path) of
           (Some e, w') \<Rightarrow> (Some e, w')
         | (None, w') \<Rightarrow>
             (case make_vaulty_favicon (last sizes) of
                Inl e \<Rightarrow> (Some e, w')
              | Inr largest \<Rightarrow>
                  (case save env w' largest path ICO (Some (map (\<lambda>s. (s, s)) sizes)) of
                     (Some e, w'') \<Rightarrow> (Some e, w'')
                   | (None, w'') \<Rightarrow>
                       (None, print (print w'' (FaviconSaved path)) (SizesEmbedded sizes)))))"

section \<open>Notions used in the statements\<close>

text \<open>
  The overlay of pass \<open>i\<close> of the highlight ring: a width-1 outline, inset by \<open>i\<close>
  pixels on each side, with alpha \<open>max 0 (60 - 15 * i)\<close>, on a new transparent image.
\<close>


definition ring_overlay :: "int \<Rightarrow> int \<Rightarrow> int \<Rightarrow> canvas" where
  "ring_overlay sz radius i =
     RoundedRectangle (New RGBA sz sz (Rgba 0 0 0 0)) (i, i, sz - 1 - i, sz - 1 - i) radius
       None (Some (Rgba 139 92 246 (max 0 (60 - 15 * i)))) 1"


text \<open>
  The mirror image of a point across the vertical line \<open>x = centerX\<close>, computed as the
  source does: \<open>x' = 2 * centerX - x\<close> in float arithmetic.
\<close>

definition reflect :: "double \<Rightarrow> point \<Rightarrow> point" where
  "reflect centerX p = (fsub (fmul (Fin 2) centerX) (fst p), snd p)"


text \<open>
  A float coordinate \<open>d\<close> is near \<open>K * S\<close> when it is finite and differs from \<open>K * S\<close> by
  at most \<open>S / 10 ^ 15\<close>. The lists below give, for every vertex of the glyph polygons,
  the constants \<open>K\<close> that the proportion constants of the source determine: for the icon
  \<open>0.16 + 0.175 = 0.335\<close>, \<open>0.74 - 0.175 * 0.55 = 0.64375\<close>,
  \<open>0.5 - 0.175 * 0.38 = 0.4335\<close> and their mirror images \<open>1 - K\<close>; for the favicon
  \<open>0.18 + 0.13 * 1.6 = 0.388\<close>, \<open>0.78 - 0.13 * 0.9 = 0.663\<close>, \<open>1 - 0.18 = 0.82\<close> and
  \<open>0.82 - 0.208 = 0.612\<close>.
\<close>

definition near :: "real \<Rightarrow> real \<Rightarrow> double \<Rightarrow> bool" where
  "near S K d =
     (case d of
        Fin v \<Rightarrow> K * S - S / 10 ^ 15 \<le> v \<and> v \<le> K * S + S / 10 ^ 15
      | NonFinite \<Rightarrow> False)"

definition points_near :: "int \<Rightarrow> (real \<times> real) list \<Rightarrow> point list \<Rightarrow> bool" where
  "points_near sz ks ps =
     list_all2 (\<lambda>k p. near (of_int sz) (fst k) (fst p) \<and> near (of_int sz) (snd k) (snd p)) ks ps"

definition icon_left_consts :: "(real \<times> real) list" where
  "icon_left_consts =
     [(16 / 100, 16 / 100), (335 / 1000, 16 / 100), (1 / 2, 64375 / 100000),
      (4335 / 10000, 74 / 100)]"

definition icon_right_consts :: "(real \<times> real) list" where
  "icon_right_consts =
     [(84 / 100, 16 / 100), (665 / 1000, 16 / 100), (1 / 2, 64375 / 100000),
      (5665 / 10000, 74 / 100)]"

definition favicon_consts :: "(real \<times> real) list" where
  "favicon_consts =
     [(18 / 100, 22 / 100), (388 / 1000, 22 / 100), (1 / 2, 663 / 1000),
      (612 / 1000, 22 / 100), (82 / 100, 22 / 100), (1 / 2, 78 / 100)]"

definition right_half_consts :: "(real \<times> real) list" where
  "right_half_consts =
     [(1 / 2, 22 / 100), (612 / 1000, 22 / 100), (82 / 100, 22 / 100), (1 / 2, 78 / 100)]"

text \<open>A vertex lies within the canvas of side \<open>sz\<close>: both coordinates are in \<open>[0, sz]\<close>.\<close>

definition in_canvas :: "int \<Rightarrow> point \<Rightarrow> bool" where
  "in_canvas sz p =
     (case p of
        (Fin x, Fin y) \<Rightarrow> 0 \<le> x \<and> x \<le> of_int sz \<and> 0 \<le> y \<and> y \<le> of_int sz
      | _ \<Rightarrow> False)"

text \<open>
  Scaling from size \<open>S1\<close> to size \<open>S2\<close>, up to rounding: the coordinate \<open>b\<close> differs from
  \<open>a * (S2 / S1)\<close> by at most \<open>2 * S2 / 10 ^ 15\<close>.
\<close>

definition close_scaled :: "int \<Rightarrow> int \<Rightarrow> double \<Rightarrow> double \<Rightarrow> bool" where
  "close_scaled S1 S2 a b =
     (case (a, b) of
        (Fin u, Fin v) \<Rightarrow> \<bar>v - u * (of_int S2 / of_int S1)\<bar> \<le> 2 * of_int S2 / 10 ^ 15
      | _ \<Rightarrow> False)"

definition scaled_approx :: "int \<Rightarrow> int \<Rightarrow> point list \<Rightarrow> point list \<Rightarrow> bool" where
  "scaled_approx S1 S2 ps qs =
     list_all2 (\<lambda>p q. close_scaled S1 S2 (fst p) (fst q) \<and> close_scaled S1 S2 (snd p) (snd q))
       ps qs"

text \<open>
  Scaling as the proportionality property states it, with every coordinate multiplied by
  the factor: \<open>scale_exact\<close> multiplies in the reals, \<open>scale_float\<close> multiplies floats.
\<close>

definition scale_exact :: "real \<Rightarrow> point \<Rightarrow> point" where
  "scale_exact c p =
     (case p of
        (Fin x, Fin y) \<Rightarrow> (Fin (x * c), Fin (y * c))
      | _ \<Rightarrow> (NonFinite, NonFinite))"

definition scale_float :: "double \<Rightarrow> point \<Rightarrow> point" where
  "scale_float c p = (fmul (fst p) c, fmul (snd p) c)"


text \<open>
  The value of one channel in row \<open>y\<close> of the gradient, as the interpolation formula
  \<^verbatim>\<open>int(top_c + (bot_c - top_c) * t)\<close> with \<^verbatim>\<open>t = y / (S - 1)\<close> gives it in float
  arithmetic: the quotient, the product and the sum are each rounded, and \<^verbatim>\<open>int\<close>
  truncates towards zero.
\<close>

definition truncate :: "real \<Rightarrow> int" where
  "truncate r = (if 0 \<le> r then \<lfloor>r\<rfloor> else \<lceil>r\<rceil>)"

definition gradient_value :: "int \<Rightarrow> int \<Rightarrow> int \<Rightarrow> int \<Rightarrow> int" where
  "gradient_value S top_c bot_c y =
     truncate (rnd (of_int top_c + rnd (of_int (bot_c - top_c) * rnd (of_int y / of_int (S - 1)))))"

definition row_colour :: "int \<Rightarrow> int \<times> int \<times> int \<Rightarrow> int \<times> int \<times> int \<Rightarrow> int \<Rightarrow> colour" where
  "row_colour S top_rgb bot_rgb y =
     Rgb (gradient_value S (fst top_rgb) (fst bot_rgb) y)
         (gradient_value S (fst (snd top_rgb)) (fst (snd bot_rgb)) y)
         (gradient_value S (snd (snd top_rgb)) (snd (snd bot_rgb)) y)"

text \<open>A colour whose three channels are 8-bit values, and the pixel it denotes.\<close>

definition rgb8 :: "int \<times> int \<times> int \<Rightarrow> bool" where
  "rgb8 c = (case c of (r, g, b) \<Rightarrow>
      0 \<le> r \<and> r \<le> 255 \<and> 0 \<le> g \<and> g \<le> 255 \<and> 0 \<le> b \<and> b \<le> 255)"

definition rgb :: "int \<times> int \<times> int \<Rightarrow> colour" where
  "rgb c = (case c of (r, g, b) \<Rightarrow> Rgb r g b)"


text \<open>
  The file that the icon loop writes for a canvas, and the files a run of the loop has
  written once it has got through the sizes \<open>szs\<close>, on top of the files \<open>m\<close> that were
  there before. A size is writable when the operating system accepts its output path.
\<close>

definition png :: "canvas \<Rightarrow> image_file" where
  "png icon = \<lparr>file_format = PNG, file_image = icon, file_sizes = None\<rparr>"

fun written :: "int list \<Rightarrow> (string \<rightharpoonup> image_file) \<Rightarrow> (string \<rightharpoonup> image_file)" where
  "written [] m = m"
| "written (sz # rest) m = written rest (m(icon_path sz \<mapsto> png (projr (make_icon sz))))"

definition writable :: "os_env \<Rightarrow> int \<Rightarrow> bool" where
  "writable env sz = can_write env (icon_path sz)"

text \<open>The file that \<^verbatim>\<open>save_favicon\<close> writes for a canvas.\<close>

definition ico :: "canvas \<Rightarrow> image_file" where
  "ico img = \<lparr>file_format = ICO, file_image = img,
              file_sizes = Some [(16, 16), (32, 32), (48, 48), (64, 64)]\<rparr>"

text \<open>
  Two runs to look at: from a world with no files, on a system that accepts every
  call, and on one that refuses to write \<^verbatim>\<open>extension/icons/icon-48.png\<close> (a file
  of that name that is read-only, say) and accepts everything else.
\<close>

definition empty_world :: world where
  "empty_world = \<lparr>files = Map.empty, dirs = {}, stdout = []\<rparr>"

definition anything :: "string \<Rightarrow> bool" where
  "anything p = True"

definition all_but_icon_48 :: "string \<Rightarrow> bool" where
  "all_but_icon_48 p = (p \<noteq> ''extension/icons/icon-48.png'')"

definition permissive :: os_env where
  "permissive = \<lparr>can_mkdir = anything, can_write = anything\<rparr>"

definition refusing_icon_48 :: os_env where
  "refusing_icon_48 = \<lparr>can_mkdir = anything, can_write = all_but_icon_48\<rparr>"



section \<open>Properties of the rounding\<close>


lemma bit_length_pos: "0 < n \<Longrightarrow> 1 \<le> bit_length n"
proof (induction n rule: bit_length.induct)
  case (1 n)
  have "0 \<le> bit_length (n div 2)"
  proof (cases "0 < n div 2")
    case True
    with 1 show ?thesis by simp
  next
    case False
    then show ?thesis by (simp add: bit_length.simps [of "n div 2"])
  qed
  with 1 show ?case by (simp add: bit_length.simps [of n])
qed

lemma bit_length_bounds:
  "0 < n \<Longrightarrow> 2 ^ nat (bit_length n - 1) \<le> n \<and> n < 2 ^ nat (bit_length n)"
proof (induction n rule: bit_length.induct)
  case (1 n)
  show ?case
  proof (cases "n = 1")
    case True
    then show ?thesis by (simp add: bit_length.simps [of 1] bit_length.simps [of 0])
  next
    case False
    with 1 have pos: "0 < n div 2" by simp
    define b where "b = bit_length (n div 2)"
    from pos have b1: "1 \<le> b" unfolding b_def by (rule bit_length_pos)
    from 1 pos have ih: "2 ^ nat (b - 1) \<le> n div 2" "n div 2 < 2 ^ nat b"
      unfolding b_def by simp_all
    have bl: "bit_length n = 1 + b"
      using 1 unfolding b_def by (simp add: bit_length.simps [of n])
    have p: "(2::int) ^ nat b = 2 * 2 ^ nat (b - 1)"
      using b1 by (metis Suc_nat_eq_nat_zadd1 add.commute diff_add_cancel diff_ge_0_iff_ge power_Suc)
    have "2 ^ nat b \<le> n" using ih(1) p by linarith
    moreover have "n < 2 * 2 ^ nat b" using ih(2) by linarith
    moreover have "nat (1 + b) = Suc (nat b)" using b1 by linarith
    ultimately show ?thesis using bl by simp
  qed
qed

lemma bit_length_powi:
  assumes "0 < n"
  shows "2 powi (bit_length n - 1) \<le> (of_int n :: real)"
    and "(of_int n :: real) < 2 powi (bit_length n)"
proof -
  from assms have b1: "1 \<le> bit_length n" by (rule bit_length_pos)
  from bit_length_bounds [OF assms]
  have lo: "2 ^ nat (bit_length n - 1) \<le> n" and hi: "n < 2 ^ nat (bit_length n)" by simp_all
  have "(2::real) powi (bit_length n - 1) = 2 ^ nat (bit_length n - 1)"
    using b1 by (simp add: power_int_def)
  also have "\<dots> = of_int (2 ^ nat (bit_length n - 1))" by simp
  also have "\<dots> \<le> of_int n" using lo by (simp only: of_int_le_iff)
  finally show "2 powi (bit_length n - 1) \<le> (of_int n :: real)" .
  have "(of_int n :: real) < of_int (2 ^ nat (bit_length n))"
    using hi by (simp only: of_int_less_iff)
  also have "\<dots> = 2 powi (bit_length n)" using b1 by (simp add: power_int_def)
  finally show "(of_int n :: real) < 2 powi (bit_length n)" .
qed


lemma floor_int_bounds:
  fixes y :: real
  assumes "1 \<le> y"
  shows "2 powi (bit_length \<lfloor>y\<rfloor> - 1) \<le> y" and "y < 2 powi (bit_length \<lfloor>y\<rfloor>)"
proof -
  from assms have pos: "0 < \<lfloor>y\<rfloor>" by simp
  have "2 powi (bit_length \<lfloor>y\<rfloor> - 1) \<le> (of_int \<lfloor>y\<rfloor> :: real)"
    using pos by (rule bit_length_powi(1))
  also have "\<dots> \<le> y" by simp
  finally show "2 powi (bit_length \<lfloor>y\<rfloor> - 1) \<le> y" .
  from bit_length_bounds [OF pos] have "\<lfloor>y\<rfloor> + 1 \<le> 2 ^ nat (bit_length \<lfloor>y\<rfloor>)" by simp
  then have "(of_int (\<lfloor>y\<rfloor> + 1) :: real) \<le> of_int (2 ^ nat (bit_length \<lfloor>y\<rfloor>))"
    by (simp only: of_int_le_iff)
  moreover have "y < of_int (\<lfloor>y\<rfloor> + 1)" by linarith
  moreover have "(of_int (2 ^ nat (bit_length \<lfloor>y\<rfloor>)) :: real) = 2 powi (bit_length \<lfloor>y\<rfloor>)"
    using bit_length_pos [OF pos] by (simp add: power_int_def)
  ultimately show "y < 2 powi (bit_length \<lfloor>y\<rfloor>)" by linarith
qed

lemma ilog2_bounds:
  assumes "0 < x"
  shows "2 powi (ilog2 x) \<le> x" and "x < 2 powi (ilog2 x + 1)"
proof -
  have "2 powi (ilog2 x) \<le> x \<and> x < 2 powi (ilog2 x + 1)"
  proof (cases "1 \<le> x")
    case True
    then have "ilog2 x = bit_length \<lfloor>x\<rfloor> - 1" by (simp add: ilog2_def)
    with floor_int_bounds [OF True] show ?thesis by simp
  next
    case False
    define y where "y = 1 / x"
    define k where "k = bit_length \<lfloor>y\<rfloor> - 1"
    from False assms have y1: "1 \<le> y" unfolding y_def by simp
    have ypos: "0 < y" using y1 by linarith
    have xy: "x = 1 / y" unfolding y_def by simp
    from floor_int_bounds [OF y1] have lo: "2 powi k \<le> y" and hi: "y < 2 powi (k + 1)"
      unfolding k_def by simp_all
    have p0: "(0::real) < 2 powi k" by simp
    have up: "x \<le> 2 powi (- k)"
    proof -
      have "1 / y \<le> 1 / 2 powi k" using lo p0 by (simp add: frac_le)
      then show ?thesis unfolding xy by (simp add: power_int_minus_divide)
    qed
    have dn: "2 powi (- k - 1) < x"
    proof -
      have "1 / 2 powi (k + 1) < 1 / y" using hi ypos by (simp add: frac_less2)
      moreover have "(2::real) powi (- k - 1) = 1 / 2 powi (k + 1)"
      proof -
        have "- k - 1 = - (k + 1)" by simp
        then show ?thesis by (simp only: power_int_minus_divide)
      qed
      ultimately show ?thesis unfolding xy by simp
    qed
    show ?thesis
    proof (cases "x = 2 powi (- k)")
      case True
      then have e: "ilog2 x = - k" using False unfolding ilog2_def k_def y_def by (simp add: Let_def)
      have "(2::real) powi (- k) < 2 powi (- k + 1)" by (rule power_int_strict_increasing) simp_all
      with True e show ?thesis by simp
    next
      case ne: False
      then have e: "ilog2 x = - k - 1" using False unfolding ilog2_def k_def y_def by (simp add: Let_def)
      from up ne have "x < 2 powi (- k)" by simp
      with dn e show ?thesis by simp
    qed
  qed
  then show "2 powi (ilog2 x) \<le> x" and "x < 2 powi (ilog2 x + 1)" by simp_all
qed

lemma ilog2_unique:
  assumes "2 powi e \<le> x" and "x < 2 powi (e + 1)"
  shows "ilog2 x = e"
proof -
  have pos: "0 < x" using assms(1) zero_less_power_int [of "2::real" e] by linarith
  note b = ilog2_bounds [OF pos]
  have "\<not> ilog2 x < e"
  proof
    assume "ilog2 x < e"
    then have "ilog2 x + 1 \<le> e" by simp
    then have "(2::real) powi (ilog2 x + 1) \<le> 2 powi e" by (rule power_int_increasing) simp
    with b(2) assms(1) show False by linarith
  qed
  moreover have "\<not> e < ilog2 x"
  proof
    assume "e < ilog2 x"
    then have "e + 1 \<le> ilog2 x" by simp
    then have "(2::real) powi (e + 1) \<le> 2 powi (ilog2 x)" by (rule power_int_increasing) simp
    with b(1) assms(2) show False by linarith
  qed
  ultimately show ?thesis by linarith
qed

lemma ilog2_double:
  assumes "0 < x"
  shows "ilog2 (2 * x) = ilog2 x + 1"
proof (rule ilog2_unique)
  note b = ilog2_bounds [OF assms]
  have p: "(2::real) powi (ilog2 x + 1) = 2 * 2 powi (ilog2 x)"
    by (simp add: power_int_add)
  have q: "(2::real) powi (ilog2 x + 1 + 1) = 2 * 2 powi (ilog2 x + 1)"
    by (simp add: power_int_add)
  show "2 powi (ilog2 x + 1) \<le> 2 * x" using b(1) p by linarith
  show "2 * x < 2 powi (ilog2 x + 1 + 1)" using b(2) q by linarith
qed


lemma round_half_even_error: "\<bar>of_int (round_half_even m) - m\<bar> \<le> 1 / 2"
proof -
  have "of_int \<lfloor>m\<rfloor> \<le> m" "m < of_int \<lfloor>m\<rfloor> + 1" by linarith+
  then show ?thesis unfolding round_half_even_def Let_def by auto
qed

lemma round_half_even_of_int [simp]: "round_half_even (of_int k) = k"
  by (simp add: round_half_even_def)

lemma round_half_even_nonneg: "0 \<le> m \<Longrightarrow> 0 \<le> round_half_even m"
  unfolding round_half_even_def Let_def by auto

lemma quantum_pos [simp]: "0 < quantum x"
  by (simp add: quantum_def)

lemma rnd_0 [simp]: "rnd 0 = 0"
  by (simp add: rnd_def)

lemma rnd_error: "\<bar>rnd x - x\<bar> \<le> quantum x / 2"
proof (cases "x = 0")
  case True
  then show ?thesis using quantum_pos [of 0] by (simp add: less_imp_le)
next
  case False
  define q where "q = quantum x"
  have q: "0 < q" unfolding q_def by simp
  have "\<bar>of_int (round_half_even (x / q)) - x / q\<bar> \<le> 1 / 2"
    by (rule round_half_even_error)
  then have "\<bar>of_int (round_half_even (x / q)) - x / q\<bar> * q \<le> 1 / 2 * q"
    using q by (simp only: mult_le_cancel_right_pos)
  moreover have "\<bar>of_int (round_half_even (x / q)) - x / q\<bar> * q
                  = \<bar>of_int (round_half_even (x / q)) * q - x\<bar>"
  proof -
    have "\<bar>of_int (round_half_even (x / q)) - x / q\<bar> * q
            = \<bar>(of_int (round_half_even (x / q)) - x / q) * q\<bar>"
      using q by (simp add: abs_mult)
    also have "(of_int (round_half_even (x / q)) - x / q) * q
                 = of_int (round_half_even (x / q)) * q - x"
      using q by (simp add: left_diff_distrib)
    finally show ?thesis .
  qed
  ultimately show ?thesis using False unfolding rnd_def q_def by simp
qed

lemma quantum_normal:
  assumes "2 powi (- 1022) \<le> \<bar>x\<bar>"
  shows "quantum x \<le> \<bar>x\<bar> / 2 ^ 52"
proof -
  have pos: "0 < \<bar>x\<bar>" using assms zero_less_power_int [of "2::real" "- 1022"] by linarith
  have "- 1022 \<le> ilog2 \<bar>x\<bar>"
  proof (rule ccontr)
    assume "\<not> - 1022 \<le> ilog2 \<bar>x\<bar>"
    then have "ilog2 \<bar>x\<bar> + 1 \<le> - 1022" by simp
    then have "(2::real) powi (ilog2 \<bar>x\<bar> + 1) \<le> 2 powi (- 1022)"
      by (rule power_int_increasing) simp
    with ilog2_bounds(2) [OF pos] assms show False by linarith
  qed
  then have "quantum x = 2 powi (ilog2 \<bar>x\<bar> - 52)" by (simp add: quantum_def max_def)
  also have "\<dots> = 2 powi (ilog2 \<bar>x\<bar>) / 2 ^ 52" by (simp add: power_int_diff)
  also have "\<dots> \<le> \<bar>x\<bar> / 2 ^ 52" using ilog2_bounds(1) [OF pos] by (simp add: divide_right_mono)
  finally show ?thesis .
qed

lemma rnd_relative:
  assumes "2 powi (- 1022) \<le> \<bar>x\<bar>"
  shows "\<bar>rnd x - x\<bar> \<le> \<bar>x\<bar> / 2 ^ 53"
proof -
  have "\<bar>rnd x - x\<bar> \<le> quantum x / 2" by (rule rnd_error)
  also have "\<dots> \<le> (\<bar>x\<bar> / 2 ^ 52) / 2" using quantum_normal [OF assms] by simp
  also have "\<dots> = \<bar>x\<bar> / 2 ^ 53" by simp
  finally show ?thesis .
qed

lemma rnd_nonneg: "0 \<le> x \<Longrightarrow> 0 \<le> rnd x"
  unfolding rnd_def using round_half_even_nonneg [of "x / quantum x"] quantum_pos [of x]
  by (simp add: less_imp_le)


lemma powi_Suc: "(2::real) powi (i + 1) = 2 powi i * 2"
  by (simp add: power_int_add)

lemma rnd_exact:
  assumes k: "\<bar>k\<bar> < 2 ^ 53" and j: "- 1074 \<le> j"
  shows "rnd (of_int k * 2 powi j) = of_int k * 2 powi j"
proof (cases "k = 0")
  case True
  then show ?thesis by simp
next
  case False
  define x :: real where "x = of_int k * 2 powi j"
  have x0: "x \<noteq> 0" using False unfolding x_def by simp
  then have pos: "0 < \<bar>x\<bar>" by simp
  have ax: "\<bar>x\<bar> = of_int \<bar>k\<bar> * 2 powi j" unfolding x_def by (simp add: abs_mult)
  have "(of_int \<bar>k\<bar> :: real) < of_int (2 ^ 53)" using k by (simp only: of_int_less_iff)
  then have "\<bar>x\<bar> < 2 ^ 53 * 2 powi j" unfolding ax by simp
  also have "\<dots> = 2 powi (53 + j)" by (simp add: power_int_add)
  finally have lt: "\<bar>x\<bar> < 2 powi (53 + j)" .
  have e: "ilog2 \<bar>x\<bar> < 53 + j"
  proof (rule ccontr)
    assume "\<not> ilog2 \<bar>x\<bar> < 53 + j"
    then have "53 + j \<le> ilog2 \<bar>x\<bar>" by simp
    then have "(2::real) powi (53 + j) \<le> 2 powi (ilog2 \<bar>x\<bar>)"
      by (rule power_int_increasing) simp
    with ilog2_bounds(1) [OF pos] lt show False by linarith
  qed
  define d where "d = max (ilog2 \<bar>x\<bar>) (- 1022) - 52"
  have dj: "d \<le> j" using e j unfolding d_def by simp
  have q: "quantum x = 2 powi d" unfolding quantum_def d_def ..
  have "x / 2 powi d = of_int k * (2 powi j / 2 powi d)" unfolding x_def by simp
  also have "2 powi j / 2 powi d = (2::real) powi (j - d)" by (simp add: power_int_diff)
  also have "\<dots> = 2 ^ nat (j - d)" using dj by (simp add: power_int_def)
  finally have m: "x / 2 powi d = of_int (k * 2 ^ nat (j - d))" by simp
  have "rnd x = of_int (k * 2 ^ nat (j - d)) * 2 powi d"
    using x0 unfolding rnd_def q m by (simp only: round_half_even_of_int if_False)
  also have "\<dots> = x / 2 powi d * 2 powi d" by (simp only: m)
  also have "\<dots> = x" by simp
  finally show ?thesis unfolding x_def .
qed

lemma rnd_of_int: "\<bar>n\<bar> < 2 ^ 53 \<Longrightarrow> rnd (of_int n) = of_int n"
  using rnd_exact [of n 0] by simp

lemma rnd_half: "rnd (1 / 2) = 1 / 2"
  using rnd_exact [of 1 "- 1"] by simp

lemma quantum_double:
  assumes "2 powi (- 1022) \<le> \<bar>x\<bar>"
  shows "quantum (2 * x) = 2 * quantum x"
proof -
  have pos: "0 < \<bar>x\<bar>" using assms zero_less_power_int [of "2::real" "- 1022"] by linarith
  have lo: "- 1022 \<le> ilog2 \<bar>x\<bar>"
  proof (rule ccontr)
    assume "\<not> - 1022 \<le> ilog2 \<bar>x\<bar>"
    then have "ilog2 \<bar>x\<bar> + 1 \<le> - 1022" by simp
    then have "(2::real) powi (ilog2 \<bar>x\<bar> + 1) \<le> 2 powi (- 1022)"
      by (rule power_int_increasing) simp
    with ilog2_bounds(2) [OF pos] assms show False by linarith
  qed
  have "ilog2 \<bar>2 * x\<bar> = ilog2 \<bar>x\<bar> + 1"
    using ilog2_double [OF pos] by (simp add: abs_mult)
  then have "quantum (2 * x) = 2 powi (ilog2 \<bar>x\<bar> - 52 + 1)"
    using lo unfolding quantum_def by (simp add: max_def)
  also have "\<dots> = 2 powi (ilog2 \<bar>x\<bar> - 52) * 2" by (rule powi_Suc)
  also have "2 powi (ilog2 \<bar>x\<bar> - 52) = quantum x"
    using lo unfolding quantum_def by (simp add: max_def)
  finally show ?thesis by simp
qed

lemma rnd_double:
  assumes "2 powi (- 1022) \<le> \<bar>x\<bar>"
  shows "rnd (2 * x) = 2 * rnd x"
proof -
  have x0: "x \<noteq> 0" using assms zero_less_power_int [of "2::real" "- 1022"] by auto
  have "2 * x / quantum (2 * x) = x / quantum x"
    unfolding quantum_double [OF assms] by simp
  then show ?thesis
    using x0 unfolding rnd_def [of "2 * x"] rnd_def [of x] quantum_double [OF assms] by simp
qed

lemma rnd_halve:
  assumes "2 powi (- 1021) \<le> \<bar>x\<bar>"
  shows "rnd (x / 2) = rnd x / 2"
proof -
  have "(2::real) powi (- 1022 + 1) = 2 powi (- 1022) * 2" by (rule powi_Suc)
  then have "(2::real) powi (- 1021) = 2 * 2 powi (- 1022)" by simp
  with assms have "2 powi (- 1022) \<le> \<bar>x / 2\<bar>" by simp
  from rnd_double [OF this] show ?thesis by simp
qed

lemma rnd_representable:
  "\<exists>k j. rnd x = of_int k * 2 powi j \<and> \<bar>k\<bar> < 2 ^ 53 \<and> - 1074 \<le> j"
proof (cases "x = 0")
  case True
  have "rnd x = of_int 0 * 2 powi 0 \<and> \<bar>0::int\<bar> < 2 ^ 53 \<and> - 1074 \<le> (0::int)"
    using True by simp
  then show ?thesis by blast
next
  case False
  then have pos: "0 < \<bar>x\<bar>" by simp
  define d where "d = max (ilog2 \<bar>x\<bar>) (- 1022) - 52"
  define r where "r = round_half_even (x / 2 powi d)"
  have q: "quantum x = 2 powi d" unfolding quantum_def d_def ..
  have rx: "rnd x = of_int r * 2 powi d" using False unfolding rnd_def q r_def by simp
  have d1: "- 1074 \<le> d" unfolding d_def by simp
  have "ilog2 \<bar>x\<bar> + 1 \<le> d + 53" unfolding d_def by simp
  then have "(2::real) powi (ilog2 \<bar>x\<bar> + 1) \<le> 2 powi (d + 53)"
    by (rule power_int_increasing) simp
  with ilog2_bounds(2) [OF pos] have "\<bar>x\<bar> < 2 powi (d + 53)" by linarith
  also have "\<dots> = 2 powi d * 2 ^ 53" by (simp add: power_int_add)
  finally have "\<bar>x\<bar> / 2 powi d < 2 ^ 53" by (simp add: pos_divide_less_eq mult.commute)
  then have m: "\<bar>x / 2 powi d\<bar> < 2 ^ 53" by simp
  have "\<bar>of_int r - x / 2 powi d\<bar> \<le> 1 / 2" unfolding r_def by (rule round_half_even_error)
  with m have "\<bar>(of_int r :: real)\<bar> < 2 ^ 53 + 1" by linarith
  then have "(of_int \<bar>r\<bar> :: real) < of_int (2 ^ 53 + 1)" by simp
  then have "\<bar>r\<bar> < 2 ^ 53 + 1" by (simp only: of_int_less_iff)
  then have r53: "\<bar>r\<bar> \<le> 2 ^ 53" by simp
  show ?thesis
  proof (cases "\<bar>r\<bar> < 2 ^ 53")
    case True
    with rx d1 show ?thesis by blast
  next
    case False
    with r53 have "\<bar>r\<bar> = 2 ^ 53" by simp
    then have "r = 2 ^ 53 \<or> r = - (2 ^ 53)" by linarith
    then have r2: "r = 2 * (r div 2)" and small: "\<bar>r div 2\<bar> < 2 ^ 53" by auto
    have "rnd x = of_int (2 * (r div 2)) * 2 powi d" using rx r2 by simp
    also have "\<dots> = of_int (r div 2) * (2 powi d * 2)" by simp
    also have "2 powi d * 2 = (2::real) powi (d + 1)" by (simp add: power_int_add)
    finally have "rnd x = of_int (r div 2) * 2 powi (d + 1)" .
    moreover have "- 1074 \<le> d + 1" using d1 by simp
    ultimately show ?thesis using small by blast
  qed
qed

lemma rnd_idem [simp]: "rnd (rnd x) = rnd x"
proof -
  from rnd_representable [of x] obtain k j
    where "rnd x = of_int k * 2 powi j" "\<bar>k\<bar> < 2 ^ 53" "- 1074 \<le> j" by blast
  then show ?thesis using rnd_exact [of k j] by simp
qed

section \<open>Float operations of the scripts\<close>

lemmas float_eval = rnd_def quantum_def ilog2_def round_half_even_def bit_length.simps
  Let_def to_double_def lit_def float_of_int_def py_truediv_def

lemma powi_le_1: "i \<le> 0 \<Longrightarrow> (2::real) powi i \<le> 1"
  using power_int_increasing [of i 0 "2::real"] by simp

lemma rnd_of_int_ge_half:
  assumes "n \<noteq> 0"
  shows "1 / 2 \<le> \<bar>rnd (of_int n)\<bar>"
proof -
  have one: "1 \<le> \<bar>of_int n :: real\<bar>"
    using assms by (metis abs_ge_zero of_int_abs of_int_1 of_int_le_iff zero_less_abs_iff
        int_one_le_iff_zero_less)
  have "(2::real) powi (- 1022) \<le> 1" by (rule powi_le_1) simp
  with one have "2 powi (- 1022) \<le> \<bar>of_int n :: real\<bar>" by linarith
  from rnd_relative [OF this]
  have "\<bar>rnd (of_int n) - of_int n\<bar> \<le> \<bar>of_int n :: real\<bar> / 2 ^ 53" .
  moreover have "\<bar>of_int n :: real\<bar> / 2 ^ 53 \<le> \<bar>of_int n :: real\<bar> / 2" by simp
  ultimately show ?thesis using one by linarith
qed

lemma float_of_int_Inr:
  assumes "float_of_int n = Inr s"
  shows "s = Fin (rnd (of_int n))" and "\<bar>rnd (of_int n)\<bar> < 2 ^ 1024"
  using assms unfolding float_of_int_def to_double_def Let_def
  by (auto split: if_splits)

lemma lit_half: "lit (50 / 100) = Fin (1 / 2)"
  using rnd_half by (simp add: lit_def to_double_def)

lemma rnd_halve_int: "rnd (of_int n / 2) = rnd (of_int n) / 2"
proof (cases "n = 0")
  case True
  then show ?thesis by simp
next
  case False
  then have "1 \<le> \<bar>of_int n :: real\<bar>"
    by (metis abs_ge_zero of_int_abs of_int_1 of_int_le_iff zero_less_abs_iff
        int_one_le_iff_zero_less)
  moreover have "(2::real) powi (- 1021) \<le> 1" by (rule powi_le_1) simp
  ultimately have "2 powi (- 1021) \<le> \<bar>of_int n :: real\<bar>" by linarith
  then show ?thesis by (rule rnd_halve)
qed

lemma rnd_halve_float: "rnd (rnd (of_int n) / 2) = rnd (of_int n) / 2"
proof (cases "n = 0")
  case True
  then show ?thesis by simp
next
  case False
  have "(2::real) powi (- 1021) \<le> 1 / 2"
  proof -
    have "(2::real) powi (- 1021) \<le> 2 powi (- 1)" by (rule power_int_increasing) simp_all
    then show ?thesis by simp
  qed
  with rnd_of_int_ge_half [OF False]
  have "2 powi (- 1021) \<le> \<bar>rnd (of_int n)\<bar>" by linarith
  from rnd_halve [OF this] show ?thesis by simp
qed


text \<open>The centre line of the icon glyph: \<^verbatim>\<open>s * 0.50\<close> is \<^verbatim>\<open>size / 2\<close>.\<close>

lemma tip_x_is_half:
  assumes "float_of_int sz = Inr s"
  shows "py_truediv sz 2 = Inr (fmul s (lit (50 / 100)))"
proof -
  define r where "r = rnd (of_int sz)"
  from float_of_int_Inr [OF assms] have s: "s = Fin r" and fin: "\<bar>r\<bar> < 2 ^ 1024"
    unfolding r_def by simp_all
  have fin2: "\<bar>r / 2\<bar> < 2 ^ 1024" using fin by simp
  have "fmul s (lit (50 / 100)) = to_double (r / 2)" unfolding s lit_half by simp
  also have "\<dots> = Fin (r / 2)"
    using rnd_halve_float [of sz] fin2 unfolding r_def to_double_def by (simp add: Let_def)
  finally have a: "fmul s (lit (50 / 100)) = Fin (r / 2)" .
  have "to_double (of_int sz / of_int 2) = Fin (r / 2)"
    using rnd_halve_int [of sz] fin2 unfolding r_def to_double_def by (simp add: Let_def)
  then have "py_truediv sz 2 = Inr (Fin (r / 2))" unfolding py_truediv_def by simp
  with a show ?thesis by simp
qed


lemma to_double_Fin: "\<bar>rnd a\<bar> < 2 ^ 1024 \<Longrightarrow> to_double a = Fin (rnd a)"
  by (simp add: to_double_def)

lemma rnd_pos_error:
  assumes "1 / 256 \<le> a"
  shows "\<bar>rnd a - a\<bar> \<le> a / 9007199254740992"
proof -
  have "(2::real) powi (- 1022) \<le> 2 powi (- 8)" by (rule power_int_increasing) simp_all
  then have "2 powi (- 1022) \<le> \<bar>a\<bar>" using assms by simp
  from rnd_relative [OF this] show ?thesis using assms by simp
qed

lemma rnd_pos_lower:
  "1 / 256 \<le> a \<Longrightarrow> l \<le> a \<Longrightarrow> l - l / 9007199254740992 \<le> rnd a"
  using rnd_pos_error [of a] by linarith

lemma rnd_pos_upper:
  "1 / 256 \<le> a \<Longrightarrow> a \<le> h \<Longrightarrow> rnd a \<le> h + h / 9007199254740992"
  using rnd_pos_error [of a] by linarith

lemma float_of_int_total:
  assumes "\<bar>n\<bar> \<le> 2 ^ 1023"
  shows "\<exists>s. float_of_int n = Inr (Fin s)"
proof -
  have "\<bar>rnd (of_int n)\<bar> < 2 ^ 1024"
  proof (cases "n = 0")
    case True
    then show ?thesis by simp
  next
    case False
    then have one: "1 \<le> \<bar>of_int n :: real\<bar>"
      by (metis abs_ge_zero of_int_abs of_int_1 of_int_le_iff zero_less_abs_iff
          int_one_le_iff_zero_less)
    have "(2::real) powi (- 1022) \<le> 1" by (rule powi_le_1) simp
    with one have "2 powi (- 1022) \<le> \<bar>of_int n :: real\<bar>" by linarith
    from rnd_relative [OF this]
    have "\<bar>rnd (of_int n) - of_int n\<bar> \<le> \<bar>of_int n :: real\<bar> / 2 ^ 53" .
    moreover have "\<bar>of_int n :: real\<bar> / 2 ^ 53 \<le> \<bar>of_int n :: real\<bar> / 2" by simp
    ultimately have a: "\<bar>rnd (of_int n)\<bar> \<le> \<bar>of_int n :: real\<bar> + \<bar>of_int n :: real\<bar> / 2"
      by linarith
    have "(of_int \<bar>n\<bar> :: real) \<le> of_int (2 ^ 1023)"
      using assms by (simp only: of_int_le_iff)
    then have b: "\<bar>of_int n :: real\<bar> \<le> 2 ^ 1023" by simp
    have c: "(2::real) ^ 1024 = 2 * 2 ^ 1023" by simp
    have "(0::real) < 2 ^ 1023" by simp
    with a b show ?thesis unfolding c by linarith
  qed
  then show ?thesis by (simp add: float_of_int_def to_double_def)
qed


lemma float_of_int_cases:
  "float_of_int n = Inl OverflowError \<or> (\<exists>s. float_of_int n = Inr (Fin s))"
  unfolding float_of_int_def by (cases "to_double (of_int n)") auto

lemma v_arms_float:
  assumes "v_arms sz = Inr p"
  shows "\<exists>s. float_of_int sz = Inr (Fin s)"
  using assms float_of_int_cases [of sz] unfolding v_arms_def by auto

lemma favicon_polys_float:
  assumes "favicon_polys sz = Inr p"
  shows "\<exists>s. float_of_int sz = Inr (Fin s)"
  using assms float_of_int_cases [of sz] unfolding favicon_polys_def by auto

lemma v_arms_total:
  assumes "float_of_int sz = Inr s"
  shows "\<exists>l r. v_arms sz = Inr (l, r)"
  using assms unfolding v_arms_def by (simp add: Let_def)

lemma favicon_polys_total:
  assumes "float_of_int sz = Inr s"
  shows "\<exists>p h. favicon_polys sz = Inr (p, h)"
  using assms tip_x_is_half [OF assms] unfolding favicon_polys_def by (simp add: Let_def)


lemma quantum_le: "quantum x \<le> \<bar>x\<bar> + 1"
proof (cases "2 powi (- 1022) \<le> \<bar>x\<bar>")
  case True
  from quantum_normal [OF this] have "quantum x \<le> \<bar>x\<bar> / 2 ^ 52" .
  moreover have "\<bar>x\<bar> / 2 ^ 52 \<le> \<bar>x\<bar>" by (simp add: divide_le_eq)
  ultimately show ?thesis by linarith
next
  case False
  have "ilog2 \<bar>x\<bar> \<le> 0"
  proof (cases "x = 0")
    case True
    then show ?thesis by (simp add: ilog2_def bit_length.simps)
  next
    case nz: False
    then have pos: "0 < \<bar>x\<bar>" by simp
    show ?thesis
    proof (rule ccontr)
      assume "\<not> ilog2 \<bar>x\<bar> \<le> 0"
      then have "- 1022 \<le> ilog2 \<bar>x\<bar>" by simp
      then have "(2::real) powi (- 1022) \<le> 2 powi (ilog2 \<bar>x\<bar>)"
        by (rule power_int_increasing) simp
      with ilog2_bounds(1) [OF pos] False show False by linarith
    qed
  qed
  then have "max (ilog2 \<bar>x\<bar>) (- 1022) - 52 \<le> 0" by simp
  then have "quantum x \<le> 1" unfolding quantum_def by (rule powi_le_1)
  then show ?thesis by linarith
qed

lemma rnd_abs_le: "\<bar>rnd x\<bar> \<le> 2 * \<bar>x\<bar> + 1"
  using rnd_error [of x] quantum_le [of x] by linarith

lemma to_double_small: "\<bar>x\<bar> \<le> 2 ^ 16 \<Longrightarrow> to_double x = Fin (rnd x)"
proof (rule to_double_Fin)
  assume "\<bar>x\<bar> \<le> 2 ^ 16"
  with rnd_abs_le [of x] have "\<bar>rnd x\<bar> \<le> 2 * 2 ^ 16 + 1" by linarith
  also have "\<dots> < (2::real) ^ 1024" by simp
  finally show "\<bar>rnd x\<bar> < 2 ^ 1024" .
qed

lemma rnd_small: "\<bar>x\<bar> \<le> B \<Longrightarrow> \<bar>rnd x\<bar> \<le> 2 * B + 1"
  using rnd_abs_le [of x] by linarith

lemma float_of_int_8bit:
  assumes "\<bar>n\<bar> \<le> 255"
  shows "float_of_int n = Inr (Fin (of_int n))"
proof -
  have "\<bar>n\<bar> < 2 ^ 53" using assms by simp
  then have r: "rnd (of_int n) = of_int n" by (rule rnd_of_int)
  have "\<bar>of_int n :: real\<bar> \<le> 255" using assms by (metis of_int_abs of_int_le_iff of_int_numeral)
  then have "\<bar>of_int n :: real\<bar> \<le> 2 ^ 16" by simp
  from to_double_small [OF this] show ?thesis unfolding float_of_int_def r by simp
qed

lemma rnd_1 [simp]: "rnd 1 = 1"
  using rnd_of_int [of 1] by simp

text \<open>A product of a float \<open>s \<ge> 0\<close> with a constant of at most one half stays finite.\<close>

lemma to_double_scaled:
  assumes s: "0 \<le> s" "s < 2 ^ 1024" and c: "0 \<le> c" "c \<le> 1 / 2"
  shows "to_double (s * c) = Fin (rnd (s * c))" and "0 \<le> rnd (s * c)"
proof -
  have nn: "0 \<le> s * c" using s(1) c(1) by simp
  then show r0: "0 \<le> rnd (s * c)" by (rule rnd_nonneg)
  have le: "s * c \<le> s / 2" using mult_left_mono [OF c(2) s(1)] by simp
  have "rnd (s * c) < 2 ^ 1024"
  proof (cases "1 / 256 \<le> s * c")
    case True
    from rnd_pos_upper [OF True le] have "rnd (s * c) \<le> s / 2 + s / 2 / 9007199254740992" .
    with s show ?thesis by linarith
  next
    case False
    with nn have "\<bar>s * c\<bar> \<le> 1" by linarith
    from rnd_small [OF this] have "\<bar>rnd (s * c)\<bar> \<le> 3" by simp
    moreover have "(3::real) < 2 ^ 1024" by simp
    ultimately show ?thesis by linarith
  qed
  with r0 have "\<bar>rnd (s * c)\<bar> < 2 ^ 1024" by simp
  then show "to_double (s * c) = Fin (rnd (s * c))" by (rule to_double_Fin)
qed


section \<open>The glyph geometry\<close>

text \<open>
  The polygons at the canvas sizes the scripts use: 64 and 192 are the supersampled
  canvases of the 16- and 48-pixel icons; 16, 48 and 64 are favicon resolutions.
\<close>

lemma v_arms_64:
  "v_arms 64 = Inr
     ([(Fin (5764607523034235 / 562949953421312), Fin (5764607523034235 / 562949953421312)),
       (Fin (377176468792279 / 17592186044416), Fin (5764607523034235 / 562949953421312)),
       (Fin 32, Fin (2899192260119757 / 70368744177664)),
       (Fin (976155219232555 / 35184372088832), Fin (3332663724254167 / 70368744177664))],
      [(Fin (7566047373982433 / 140737488355328), Fin (5764607523034235 / 562949953421312)),
       (Fin (748723438050345 / 17592186044416), Fin (5764607523034235 / 562949953421312)),
       (Fin 32, Fin (2899192260119757 / 70368744177664)),
       (Fin (1275644594452693 / 35184372088832), Fin (3332663724254167 / 70368744177664))])"
  by (simp add: v_arms_def float_eval)

lemma v_arms_192:
  "v_arms 192 = Inr
     ([(Fin (1080863910568919 / 35184372088832), Fin (1080863910568919 / 35184372088832)),
       (Fin (1131529406376837 / 17592186044416), Fin (1080863910568919 / 35184372088832)),
       (Fin 96, Fin (4348788390179635 / 35184372088832)),
       (Fin (2928465657697665 / 35184372088832), Fin (2499497793190625 / 17592186044416))],
      [(Fin (5674535530486825 / 35184372088832), Fin (1080863910568919 / 35184372088832)),
       (Fin (2246170314151035 / 17592186044416), Fin (1080863910568919 / 35184372088832)),
       (Fin 96, Fin (4348788390179635 / 35184372088832)),
       (Fin (3826933783358079 / 35184372088832), Fin (2499497793190625 / 17592186044416))])"
  by (simp add: v_arms_def float_eval)

lemma favicon_polys_16:
  "favicon_polys 16 = Inr
     ([(Fin (3242591731706757 / 1125899906842624), Fin (7926335344172073 / 2251799813685248)),
       (Fin (3494793310839505 / 562949953421312), Fin (7926335344172073 / 2251799813685248)),
       (Fin 8, Fin (2985886552946639 / 281474976710656)),
       (Fin (344525371493843 / 35184372088832), Fin (7926335344172073 / 2251799813685248)),
       (Fin (3692951694443807 / 281474976710656), Fin (7926335344172073 / 2251799813685248)),
       (Fin 8, Fin (3512807709348987 / 281474976710656))],
      [(Fin 8, Fin (7926335344172073 / 2251799813685248)),
       (Fin (344525371493843 / 35184372088832), Fin (7926335344172073 / 2251799813685248)),
       (Fin (3692951694443807 / 281474976710656), Fin (7926335344172073 / 2251799813685248)),
       (Fin 8, Fin (3512807709348987 / 281474976710656))])"
  by (simp add: favicon_polys_def float_eval)

lemma favicon_polys_48:
  "favicon_polys 48 = Inr
     ([(Fin (607985949695017 / 70368744177664), Fin (5944751508129055 / 562949953421312)),
       (Fin (2621094983129629 / 140737488355328), Fin (5944751508129055 / 562949953421312)),
       (Fin 24, Fin (2239414914709979 / 70368744177664)),
       (Fin (4134304457926115 / 140737488355328), Fin (5944751508129055 / 562949953421312)),
       (Fin (2769713770832855 / 70368744177664), Fin (5944751508129055 / 562949953421312)),
       (Fin 24, Fin (658651445502935 / 17592186044416))],
      [(Fin 24, Fin (5944751508129055 / 562949953421312)),
       (Fin (4134304457926115 / 140737488355328), Fin (5944751508129055 / 562949953421312)),
       (Fin (2769713770832855 / 70368744177664), Fin (5944751508129055 / 562949953421312)),
       (Fin 24, Fin (658651445502935 / 17592186044416))])"
  by (simp add: favicon_polys_def float_eval)

lemma favicon_polys_64:
  "favicon_polys 64 = Inr
     ([(Fin (3242591731706757 / 281474976710656), Fin (7926335344172073 / 562949953421312)),
       (Fin (3494793310839505 / 140737488355328), Fin (7926335344172073 / 562949953421312)),
       (Fin 32, Fin (2985886552946639 / 70368744177664)),
       (Fin (344525371493843 / 8796093022208), Fin (7926335344172073 / 562949953421312)),
       (Fin (3692951694443807 / 70368744177664), Fin (7926335344172073 / 562949953421312)),
       (Fin 32, Fin (3512807709348987 / 70368744177664))],
      [(Fin 32, Fin (7926335344172073 / 562949953421312)),
       (Fin (344525371493843 / 8796093022208), Fin (7926335344172073 / 562949953421312)),
       (Fin (3692951694443807 / 70368744177664), Fin (7926335344172073 / 562949953421312)),
       (Fin 32, Fin (3512807709348987 / 70368744177664))])"
  by (simp add: favicon_polys_def float_eval)

text \<open>
  Every coordinate is the float of the size times a constant, up to rounding. Each float
  operation of \<^verbatim>\<open>draw_v\<close> is followed in turn: its exact result lies between two
  multiples of \<open>s\<close>, the float of the size, and rounding moves it by at most one part in
  \<open>2 ^ 53\<close>. No operation overflows, since every result stays below \<open>s\<close>.
\<close>

lemma v_arms_near:
  assumes sz: "1 \<le> sz" and fl: "float_of_int sz = Inr (Fin s)"
    and arms: "v_arms sz = Inr (left_arm, right_arm)"
  shows "points_near sz icon_left_consts left_arm \<and> points_near sz icon_right_consts right_arm"
proof -
  define x :: real where "x = of_int sz"
  have x1: "1 \<le> x" using sz unfolding x_def by simp
  from float_of_int_Inr [OF fl] have s: "s = rnd x" and fin: "\<bar>rnd x\<bar> < 2 ^ 1024"
    unfolding x_def by simp_all
  have "1 / 256 \<le> x" using x1 by simp
  then have s_lo: "x - x / 9007199254740992 \<le> s" and s_hi: "s \<le> x + x / 9007199254740992"
    unfolding s by (rule rnd_pos_lower, simp, rule rnd_pos_upper, simp)
  have s_half: "1 / 2 \<le> s" using s_lo x1 by linarith
  have s_fin: "s < 2 ^ 1024" using fin unfolding s by linarith
  have rs: "rnd s = s" unfolding s by simp
  have rh: "rnd (s / 2) = s / 2" unfolding s x_def by (rule rnd_halve_float)
  have h_fin: "to_double (s / 2) = Fin (s / 2)"
    using s_half s_fin rh by (simp add: to_double_def)
  define c16 :: real where "c16 = 5764607523034235 / 36028797018963968"
  have lit_c16: "lit (16 / 100) = Fin c16"
    unfolding c16_def by (simp add: float_eval)
  define c74 :: real where "c74 = 3332663724254167 / 4503599627370496"
  have lit_c74: "lit (74 / 100) = Fin c74"
    unfolding c74_def by (simp add: float_eval)
  define c175 :: real where "c175 = 3152519739159347 / 18014398509481984"
  have lit_c175: "lit (175 / 1000) = Fin c175"
    unfolding c175_def by (simp add: float_eval)
  define c38 :: real where "c38 = 3422735716801577 / 9007199254740992"
  have lit_c38: "lit (38 / 100) = Fin c38"
    unfolding c38_def by (simp add: float_eval)
  define c55 :: real where "c55 = 2476979795053773 / 4503599627370496"
  have lit_c55: "lit (55 / 100) = Fin c55"
    unfolding c55_def by (simp add: float_eval)
  define pad where "pad = rnd (s * c16)"
  have pad_in_lo: "(16000000000000000333 / 100000000000000000000) * s \<le> s * c16"
    using  s_half unfolding c16_def by linarith
  have pad_in_hi: "s * c16 \<le> (8000000000000000167 / 50000000000000000000) * s"
    using  s_half unfolding c16_def by linarith
  have pad_ge: "1 / 256 \<le> s * c16" using pad_in_lo s_half by linarith
  have pad_lo: "(3999999999999999639 / 25000000000000000000) * s \<le> pad"
    using rnd_pos_lower [OF pad_ge pad_in_lo] s_half unfolding pad_def by linarith
  have pad_hi: "pad \<le> (16000000000000002111 / 100000000000000000000) * s"
    using rnd_pos_upper [OF pad_ge pad_in_hi] s_half unfolding pad_def by linarith
  have pad_f: "fmul (Fin s) (Fin c16) = Fin pad"
    unfolding pad_def fmul.simps
    by (rule to_double_Fin) (use pad_lo pad_hi s_half s_fin in \<open>unfold pad_def, linarith\<close>)
  define tip_y where "tip_y = rnd (s * c74)"
  have tip_y_in_lo: "(73999999999999999111 / 100000000000000000000) * s \<le> s * c74"
    using  s_half unfolding c74_def by linarith
  have tip_y_in_hi: "s * c74 \<le> (9249999999999999889 / 12500000000000000000) * s"
    using  s_half unfolding c74_def by linarith
  have tip_y_ge: "1 / 256 \<le> s * c74" using tip_y_in_lo s_half by linarith
  have tip_y_lo: "(14799999999999998179 / 20000000000000000000) * s \<le> tip_y"
    using rnd_pos_lower [OF tip_y_ge tip_y_in_lo] s_half unfolding tip_y_def by linarith
  have tip_y_hi: "tip_y \<le> (2312500000000000229 / 3125000000000000000) * s"
    using rnd_pos_upper [OF tip_y_ge tip_y_in_hi] s_half unfolding tip_y_def by linarith
  have tip_y_f: "fmul (Fin s) (Fin c74) = Fin tip_y"
    unfolding tip_y_def fmul.simps
    by (rule to_double_Fin) (use tip_y_lo tip_y_hi s_half s_fin in \<open>unfold tip_y_def, linarith\<close>)
  define thick where "thick = rnd (s * c175)"
  have thick_in_lo: "(17499999999999998889 / 100000000000000000000) * s \<le> s * c175"
    using  s_half unfolding c175_def by linarith
  have thick_in_hi: "s * c175 \<le> (1749999999999999889 / 10000000000000000000) * s"
    using  s_half unfolding c175_def by linarith
  have thick_ge: "1 / 256 \<le> s * c175" using thick_in_lo s_half by linarith
  have thick_lo: "(8749999999999998473 / 50000000000000000000) * s \<le> thick"
    using rnd_pos_lower [OF thick_ge thick_in_lo] s_half unfolding thick_def by linarith
  have thick_hi: "thick \<le> (17500000000000000833 / 100000000000000000000) * s"
    using rnd_pos_upper [OF thick_ge thick_in_hi] s_half unfolding thick_def by linarith
  have thick_f: "fmul (Fin s) (Fin c175) = Fin thick"
    unfolding thick_def fmul.simps
    by (rule to_double_Fin) (use thick_lo thick_hi s_half s_fin in \<open>unfold thick_def, linarith\<close>)
  define lx1 where "lx1 = rnd (pad + thick)"
  have lx1_in_lo: "(16749999999999997751 / 50000000000000000000) * s \<le> pad + thick"
    using pad_lo pad_hi thick_lo thick_hi s_half by linarith
  have lx1_in_hi: "pad + thick \<le> (261718750000000023 / 781250000000000000) * s"
    using pad_lo pad_hi thick_lo thick_hi s_half by linarith
  have lx1_ge: "1 / 256 \<le> pad + thick" using lx1_in_lo s_half by linarith
  have lx1_lo: "(16749999999999995891 / 50000000000000000000) * s \<le> lx1"
    using rnd_pos_lower [OF lx1_ge lx1_in_lo] s_half unfolding lx1_def by linarith
  have lx1_hi: "lx1 \<le> (4187500000000000833 / 12500000000000000000) * s"
    using rnd_pos_upper [OF lx1_ge lx1_in_hi] s_half unfolding lx1_def by linarith
  have lx1_f: "fadd (Fin pad) (Fin thick) = Fin lx1"
    unfolding lx1_def fadd.simps
    by (rule to_double_Fin) (use lx1_lo lx1_hi s_half s_fin in \<open>unfold lx1_def, linarith\<close>)
  define t38 where "t38 = rnd (thick * c38)"
  have t38_in_lo: "(6649999999999998917 / 100000000000000000000) * s \<le> thick * c38"
    using thick_lo thick_hi s_half unfolding c38_def by linarith
  have t38_in_hi: "thick * c38 \<le> (1330000000000000079 / 20000000000000000000) * s"
    using thick_lo thick_hi s_half unfolding c38_def by linarith
  have t38_ge: "1 / 256 \<le> thick * c38" using t38_in_lo s_half by linarith
  have t38_lo: "(3324999999999999089 / 50000000000000000000) * s \<le> t38"
    using rnd_pos_lower [OF t38_ge t38_in_lo] s_half unfolding t38_def by linarith
  have t38_hi: "t38 \<le> (3325000000000000567 / 50000000000000000000) * s"
    using rnd_pos_upper [OF t38_ge t38_in_hi] s_half unfolding t38_def by linarith
  have t38_f: "fmul (Fin thick) (Fin c38) = Fin t38"
    unfolding t38_def fmul.simps
    by (rule to_double_Fin) (use t38_lo t38_hi s_half s_fin in \<open>unfold t38_def, linarith\<close>)
  define aox where "aox = rnd (s / 2 - t38)"
  have aox_in_lo: "(21674999999999999433 / 50000000000000000000) * s \<le> s / 2 - t38"
    using t38_lo t38_hi s_half by linarith
  have aox_in_hi: "s / 2 - t38 \<le> (21675000000000000911 / 50000000000000000000) * s"
    using t38_lo t38_hi s_half by linarith
  have aox_ge: "1 / 256 \<le> s / 2 - t38" using aox_in_lo s_half by linarith
  have aox_lo: "(43349999999999994053 / 100000000000000000000) * s \<le> aox"
    using rnd_pos_lower [OF aox_ge aox_in_lo] s_half unfolding aox_def by linarith
  have aox_hi: "aox \<le> (8670000000000001327 / 20000000000000000000) * s"
    using rnd_pos_upper [OF aox_ge aox_in_hi] s_half unfolding aox_def by linarith
  have aox_f: "fsub (Fin (s / 2)) (Fin t38) = Fin aox"
    unfolding aox_def fsub.simps
    by (rule to_double_Fin) (use aox_lo aox_hi s_half s_fin in \<open>unfold aox_def, linarith\<close>)
  define t55 where "t55 = rnd (thick * c55)"
  have t55_in_lo: "(9624999999999999097 / 100000000000000000000) * s \<le> thick * c55"
    using thick_lo thick_hi s_half unfolding c55_def by linarith
  have t55_in_hi: "thick * c55 \<le> (2406250000000000309 / 25000000000000000000) * s"
    using thick_lo thick_hi s_half unfolding c55_def by linarith
  have t55_ge: "1 / 256 \<le> thick * c55" using t55_in_lo s_half by linarith
  have t55_lo: "(2406249999999999507 / 25000000000000000000) * s \<le> t55"
    using rnd_pos_lower [OF t55_ge t55_in_lo] s_half unfolding t55_def by linarith
  have t55_hi: "t55 \<le> (1925000000000000461 / 20000000000000000000) * s"
    using rnd_pos_upper [OF t55_ge t55_in_hi] s_half unfolding t55_def by linarith
  have t55_f: "fmul (Fin thick) (Fin c55) = Fin t55"
    unfolding t55_def fmul.simps
    by (rule to_double_Fin) (use t55_lo t55_hi s_half s_fin in \<open>unfold t55_def, linarith\<close>)
  define aiy where "aiy = rnd (tip_y - t55)"
  have aiy_in_lo: "(6437499999999998859 / 10000000000000000000) * s \<le> tip_y - t55"
    using tip_y_lo tip_y_hi t55_lo t55_hi s_half by linarith
  have aiy_in_hi: "tip_y - t55 \<le> (643750000000000093 / 1000000000000000000) * s"
    using tip_y_lo tip_y_hi t55_lo t55_hi s_half by linarith
  have aiy_ge: "1 / 256 \<le> tip_y - t55" using aiy_in_lo s_half by linarith
  have aiy_lo: "(32187499999999990721 / 50000000000000000000) * s \<le> aiy"
    using rnd_pos_lower [OF aiy_ge aiy_in_lo] s_half unfolding aiy_def by linarith
  have aiy_hi: "aiy \<le> (1005859375000000257 / 1562500000000000000) * s"
    using rnd_pos_upper [OF aiy_ge aiy_in_hi] s_half unfolding aiy_def by linarith
  have aiy_f: "fsub (Fin tip_y) (Fin t55) = Fin aiy"
    unfolding aiy_def fsub.simps
    by (rule to_double_Fin) (use aiy_lo aiy_hi s_half s_fin in \<open>unfold aiy_def, linarith\<close>)
  define rx0 where "rx0 = rnd (s - pad)"
  have rx0_in_lo: "(83999999999999997889 / 100000000000000000000) * s \<le> s - pad"
    using pad_lo pad_hi s_half by linarith
  have rx0_in_hi: "s - pad \<le> (21000000000000000361 / 25000000000000000000) * s"
    using pad_lo pad_hi s_half by linarith
  have rx0_ge: "1 / 256 \<le> s - pad" using rx0_in_lo s_half by linarith
  have rx0_lo: "(83999999999999988563 / 100000000000000000000) * s \<le> rx0"
    using rnd_pos_lower [OF rx0_ge rx0_in_lo] s_half unfolding rx0_def by linarith
  have rx0_hi: "rx0 \<le> (8400000000000001077 / 10000000000000000000) * s"
    using rnd_pos_upper [OF rx0_ge rx0_in_hi] s_half unfolding rx0_def by linarith
  have rx0_f: "fsub (Fin s) (Fin pad) = Fin rx0"
    unfolding rx0_def fsub.simps
    by (rule to_double_Fin) (use rx0_lo rx0_hi s_half s_fin in \<open>unfold rx0_def, linarith\<close>)
  define rx1 where "rx1 = rnd (s - lx1)"
  have rx1_in_lo: "(8312499999999999167 / 12500000000000000000) * s \<le> s - lx1"
    using lx1_lo lx1_hi s_half by linarith
  have rx1_in_hi: "s - lx1 \<le> (33250000000000004109 / 50000000000000000000) * s"
    using lx1_lo lx1_hi s_half by linarith
  have rx1_ge: "1 / 256 \<le> s - lx1" using rx1_in_lo s_half by linarith
  have rx1_lo: "(66499999999999985953 / 100000000000000000000) * s \<le> rx1"
    using rnd_pos_lower [OF rx1_ge rx1_in_lo] s_half unfolding rx1_def by linarith
  have rx1_hi: "rx1 \<le> (66500000000000015601 / 100000000000000000000) * s"
    using rnd_pos_upper [OF rx1_ge rx1_in_hi] s_half unfolding rx1_def by linarith
  have rx1_f: "fsub (Fin s) (Fin lx1) = Fin rx1"
    unfolding rx1_def fsub.simps
    by (rule to_double_Fin) (use rx1_lo rx1_hi s_half s_fin in \<open>unfold rx1_def, linarith\<close>)
  define rox where "rox = rnd (s - aox)"
  have rox_in_lo: "(11329999999999998673 / 20000000000000000000) * s \<le> s - aox"
    using aox_lo aox_hi s_half by linarith
  have rox_in_hi: "s - aox \<le> (56650000000000005947 / 100000000000000000000) * s"
    using aox_lo aox_hi s_half by linarith
  have rox_ge: "1 / 256 \<le> s - aox" using rox_in_lo s_half by linarith
  have rox_lo: "(2265999999999999483 / 4000000000000000000) * s \<le> rox"
    using rnd_pos_lower [OF rox_ge rox_in_lo] s_half unfolding rox_def by linarith
  have rox_hi: "rox \<le> (56650000000000012237 / 100000000000000000000) * s"
    using rnd_pos_upper [OF rox_ge rox_in_hi] s_half unfolding rox_def by linarith
  have rox_f: "fsub (Fin s) (Fin aox) = Fin rox"
    unfolding rox_def fsub.simps
    by (rule to_double_Fin) (use rox_lo rox_hi s_half s_fin in \<open>unfold rox_def, linarith\<close>)
  have half_f: "fmul (Fin s) (Fin (1 / 2)) = Fin (s / 2)"
    using h_fin by simp
  have two_f: "fmul (Fin 2) (Fin (s / 2)) = Fin s"
    using s_half s_fin rs by (simp add: to_double_def)
  have mid_f: "fsub (Fin s) (Fin (s / 2)) = Fin (s / 2)"
    using h_fin by simp
  have pad_nlo: "(4 / 25) * x - x / 1000000000000000 \<le> pad"
    using pad_lo pad_hi s_lo s_hi x1 by linarith
  have pad_nhi: "pad \<le> (4 / 25) * x + x / 1000000000000000"
    using pad_lo pad_hi s_lo s_hi x1 by linarith
  have pad_n: "near x (4 / 25) (Fin pad)"
    using pad_nlo pad_nhi unfolding near_def by simp
  have lx1_nlo: "(67 / 200) * x - x / 1000000000000000 \<le> lx1"
    using lx1_lo lx1_hi s_lo s_hi x1 by linarith
  have lx1_nhi: "lx1 \<le> (67 / 200) * x + x / 1000000000000000"
    using lx1_lo lx1_hi s_lo s_hi x1 by linarith
  have lx1_n: "near x (67 / 200) (Fin lx1)"
    using lx1_nlo lx1_nhi unfolding near_def by simp
  have h_nlo: "(1 / 2) * x - x / 1000000000000000 \<le> s / 2"
    using  s_lo s_hi x1 by linarith
  have h_nhi: "s / 2 \<le> (1 / 2) * x + x / 1000000000000000"
    using  s_lo s_hi x1 by linarith
  have h_n: "near x (1 / 2) (Fin (s / 2))"
    using h_nlo h_nhi unfolding near_def by simp
  have aiy_nlo: "(103 / 160) * x - x / 1000000000000000 \<le> aiy"
    using aiy_lo aiy_hi s_lo s_hi x1 by linarith
  have aiy_nhi: "aiy \<le> (103 / 160) * x + x / 1000000000000000"
    using aiy_lo aiy_hi s_lo s_hi x1 by linarith
  have aiy_n: "near x (103 / 160) (Fin aiy)"
    using aiy_nlo aiy_nhi unfolding near_def by simp
  have aox_nlo: "(867 / 2000) * x - x / 1000000000000000 \<le> aox"
    using aox_lo aox_hi s_lo s_hi x1 by linarith
  have aox_nhi: "aox \<le> (867 / 2000) * x + x / 1000000000000000"
    using aox_lo aox_hi s_lo s_hi x1 by linarith
  have aox_n: "near x (867 / 2000) (Fin aox)"
    using aox_nlo aox_nhi unfolding near_def by simp
  have tip_y_nlo: "(37 / 50) * x - x / 1000000000000000 \<le> tip_y"
    using tip_y_lo tip_y_hi s_lo s_hi x1 by linarith
  have tip_y_nhi: "tip_y \<le> (37 / 50) * x + x / 1000000000000000"
    using tip_y_lo tip_y_hi s_lo s_hi x1 by linarith
  have tip_y_n: "near x (37 / 50) (Fin tip_y)"
    using tip_y_nlo tip_y_nhi unfolding near_def by simp
  have rx0_nlo: "(21 / 25) * x - x / 1000000000000000 \<le> rx0"
    using rx0_lo rx0_hi s_lo s_hi x1 by linarith
  have rx0_nhi: "rx0 \<le> (21 / 25) * x + x / 1000000000000000"
    using rx0_lo rx0_hi s_lo s_hi x1 by linarith
  have rx0_n: "near x (21 / 25) (Fin rx0)"
    using rx0_nlo rx0_nhi unfolding near_def by simp
  have rx1_nlo: "(133 / 200) * x - x / 1000000000000000 \<le> rx1"
    using rx1_lo rx1_hi s_lo s_hi x1 by linarith
  have rx1_nhi: "rx1 \<le> (133 / 200) * x + x / 1000000000000000"
    using rx1_lo rx1_hi s_lo s_hi x1 by linarith
  have rx1_n: "near x (133 / 200) (Fin rx1)"
    using rx1_nlo rx1_nhi unfolding near_def by simp
  have rox_nlo: "(1133 / 2000) * x - x / 1000000000000000 \<le> rox"
    using rox_lo rox_hi s_lo s_hi x1 by linarith
  have rox_nhi: "rox \<le> (1133 / 2000) * x + x / 1000000000000000"
    using rox_lo rox_hi s_lo s_hi x1 by linarith
  have rox_n: "near x (1133 / 2000) (Fin rox)"
    using rox_nlo rox_nhi unfolding near_def by simp
  have "v_arms sz = Inr ([(Fin pad, Fin pad), (Fin lx1, Fin pad), (Fin (s / 2), Fin aiy),
                         (Fin aox, Fin tip_y)],
                        [(Fin rx0, Fin pad), (Fin rx1, Fin pad), (Fin (s / 2), Fin aiy),
                         (Fin rox, Fin tip_y)])"
    unfolding v_arms_def fl lit_c16 lit_c74 lit_c175 lit_c38 lit_c55 lit_half
    by (simp del: fadd.simps fsub.simps fmul.simps
             add: Let_def half_f two_f mid_f pad_f tip_y_f thick_f lx1_f t38_f aox_f t55_f aiy_f rx0_f rx1_f rox_f)
  with arms have "left_arm = [(Fin pad, Fin pad), (Fin lx1, Fin pad), (Fin (s / 2), Fin aiy),
                              (Fin aox, Fin tip_y)]"
    and "right_arm = [(Fin rx0, Fin pad), (Fin rx1, Fin pad), (Fin (s / 2), Fin aiy),
                      (Fin rox, Fin tip_y)]"
    by simp_all
  then show ?thesis
    unfolding points_near_def icon_left_consts_def icon_right_consts_def x_def [symmetric]
    using pad_n lx1_n h_n aiy_n aox_n tip_y_n rx0_n rx1_n rox_n by simp
qed

text \<open>The same for the polygons of \<^verbatim>\<open>make_vaulty_favicon\<close>.\<close>

lemma favicon_polys_near:
  assumes sz: "1 \<le> sz" and fl: "float_of_int sz = Inr (Fin s)"
    and polys: "favicon_polys sz = Inr (v_poly, right_half)"
  shows "points_near sz favicon_consts v_poly \<and> points_near sz right_half_consts right_half"
proof -
  define x :: real where "x = of_int sz"
  have x1: "1 \<le> x" using sz unfolding x_def by simp
  from float_of_int_Inr [OF fl] have s: "s = rnd x" and fin: "\<bar>rnd x\<bar> < 2 ^ 1024"
    unfolding x_def by simp_all
  have "1 / 256 \<le> x" using x1 by simp
  then have s_lo: "x - x / 9007199254740992 \<le> s" and s_hi: "s \<le> x + x / 9007199254740992"
    unfolding s by (rule rnd_pos_lower, simp, rule rnd_pos_upper, simp)
  have s_half: "1 / 2 \<le> s" using s_lo x1 by linarith
  have s_fin: "s < 2 ^ 1024" using fin unfolding s by linarith
  have rs: "rnd s = s" unfolding s by simp
  have rh: "rnd (s / 2) = s / 2" unfolding s x_def by (rule rnd_halve_float)
  have h_fin: "to_double (s / 2) = Fin (s / 2)"
    using s_half s_fin rh by (simp add: to_double_def)
  define c18 :: real where "c18 = 3242591731706757 / 18014398509481984"
  have lit_c18: "lit (18 / 100) = Fin c18"
    unfolding c18_def by (simp add: float_eval)
  define c22 :: real where "c22 = 7926335344172073 / 36028797018963968"
  have lit_c22: "lit (22 / 100) = Fin c22"
    unfolding c22_def by (simp add: float_eval)
  define c78 :: real where "c78 = 3512807709348987 / 4503599627370496"
  have lit_c78: "lit (78 / 100) = Fin c78"
    unfolding c78_def by (simp add: float_eval)
  define c13 :: real where "c13 = 1170935903116329 / 9007199254740992"
  have lit_c13: "lit (13 / 100) = Fin c13"
    unfolding c13_def by (simp add: float_eval)
  define c1_6 :: real where "c1_6 = 3602879701896397 / 2251799813685248"
  have lit_c1_6: "lit (16 / 10) = Fin c1_6"
    unfolding c1_6_def by (simp add: float_eval)
  define c9 :: real where "c9 = 8106479329266893 / 9007199254740992"
  have lit_c9: "lit (9 / 10) = Fin c9"
    unfolding c9_def by (simp add: float_eval)
  define margin where "margin = rnd (s * c18)"
  have margin_in_lo: "(17999999999999999333 / 100000000000000000000) * s \<le> s * c18"
    using  s_half unfolding c18_def by linarith
  have margin_in_hi: "s * c18 \<le> (8999999999999999667 / 50000000000000000000) * s"
    using  s_half unfolding c18_def by linarith
  have margin_ge: "1 / 256 \<le> s * c18" using margin_in_lo s_half by linarith
  have margin_lo: "(8999999999999998667 / 50000000000000000000) * s \<le> margin"
    using rnd_pos_lower [OF margin_ge margin_in_lo] s_half unfolding margin_def by linarith
  have margin_hi: "margin \<le> (18000000000000001333 / 100000000000000000000) * s"
    using rnd_pos_upper [OF margin_ge margin_in_hi] s_half unfolding margin_def by linarith
  have margin_f: "fmul (Fin s) (Fin c18) = Fin margin"
    unfolding margin_def fmul.simps
    by (rule to_double_Fin) (use margin_lo margin_hi s_half s_fin in \<open>unfold margin_def, linarith\<close>)
  define top_y where "top_y = rnd (s * c22)"
  have top_y_in_lo: "(22000000000000000111 / 100000000000000000000) * s \<le> s * c22"
    using  s_half unfolding c22_def by linarith
  have top_y_in_hi: "s * c22 \<le> (1375000000000000007 / 6250000000000000000) * s"
    using  s_half unfolding c22_def by linarith
  have top_y_ge: "1 / 256 \<le> s * c22" using top_y_in_lo s_half by linarith
  have top_y_lo: "(5499999999999999417 / 25000000000000000000) * s \<le> top_y"
    using rnd_pos_lower [OF top_y_ge top_y_in_lo] s_half unfolding top_y_def by linarith
  have top_y_hi: "top_y \<le> (4400000000000000511 / 20000000000000000000) * s"
    using rnd_pos_upper [OF top_y_ge top_y_in_hi] s_half unfolding top_y_def by linarith
  have top_y_f: "fmul (Fin s) (Fin c22) = Fin top_y"
    unfolding top_y_def fmul.simps
    by (rule to_double_Fin) (use top_y_lo top_y_hi s_half s_fin in \<open>unfold top_y_def, linarith\<close>)
  define bot_y where "bot_y = rnd (s * c78)"
  have bot_y_in_lo: "(9750000000000000333 / 12500000000000000000) * s \<le> s * c78"
    using  s_half unfolding c78_def by linarith
  have bot_y_in_hi: "s * c78 \<le> (15600000000000000533 / 20000000000000000000) * s"
    using  s_half unfolding c78_def by linarith
  have bot_y_ge: "1 / 256 \<le> s * c78" using bot_y_in_lo s_half by linarith
  have bot_y_lo: "(19499999999999998501 / 25000000000000000000) * s \<le> bot_y"
    using rnd_pos_lower [OF bot_y_ge bot_y_in_lo] s_half unfolding bot_y_def by linarith
  have bot_y_hi: "bot_y \<le> (3120000000000000453 / 4000000000000000000) * s"
    using rnd_pos_upper [OF bot_y_ge bot_y_in_hi] s_half unfolding bot_y_def by linarith
  have bot_y_f: "fmul (Fin s) (Fin c78) = Fin bot_y"
    unfolding bot_y_def fmul.simps
    by (rule to_double_Fin) (use bot_y_lo bot_y_hi s_half s_fin in \<open>unfold bot_y_def, linarith\<close>)
  define thick where "thick = rnd (s * c13)"
  have thick_in_lo: "(3250000000000000111 / 25000000000000000000) * s \<le> s * c13"
    using  s_half unfolding c13_def by linarith
  have thick_in_hi: "s * c13 \<le> (2600000000000000089 / 20000000000000000000) * s"
    using  s_half unfolding c13_def by linarith
  have thick_ge: "1 / 256 \<le> s * c13" using thick_in_lo s_half by linarith
  have thick_lo: "(12999999999999999 / 100000000000000000) * s \<le> thick"
    using rnd_pos_lower [OF thick_ge thick_in_lo] s_half unfolding thick_def by linarith
  have thick_hi: "thick \<le> (13000000000000001889 / 100000000000000000000) * s"
    using rnd_pos_upper [OF thick_ge thick_in_hi] s_half unfolding thick_def by linarith
  have thick_f: "fmul (Fin s) (Fin c13) = Fin thick"
    unfolding thick_def fmul.simps
    by (rule to_double_Fin) (use thick_lo thick_hi s_half s_fin in \<open>unfold thick_def, linarith\<close>)
  define t16 where "t16 = rnd (thick * c1_6)"
  have t16_in_lo: "(10399999999999999777 / 50000000000000000000) * s \<le> thick * c1_6"
    using thick_lo thick_hi s_half unfolding c1_6_def by linarith
  have t16_in_hi: "thick * c1_6 \<le> (10400000000000002089 / 50000000000000000000) * s"
    using thick_lo thick_hi s_half unfolding c1_6_def by linarith
  have t16_ge: "1 / 256 \<le> thick * c1_6" using t16_in_lo s_half by linarith
  have t16_lo: "(5199999999999999311 / 25000000000000000000) * s \<le> t16"
    using rnd_pos_lower [OF t16_ge t16_in_lo] s_half unfolding t16_def by linarith
  have t16_hi: "t16 \<le> (2600000000000000811 / 12500000000000000000) * s"
    using rnd_pos_upper [OF t16_ge t16_in_hi] s_half unfolding t16_def by linarith
  have t16_f: "fmul (Fin thick) (Fin c1_6) = Fin t16"
    unfolding t16_def fmul.simps
    by (rule to_double_Fin) (use t16_lo t16_hi s_half s_fin in \<open>unfold t16_def, linarith\<close>)
  define lix where "lix = rnd (margin + t16)"
  have lix_in_lo: "(19399999999999997289 / 50000000000000000000) * s \<le> margin + t16"
    using margin_lo margin_hi t16_lo t16_hi s_half by linarith
  have lix_in_hi: "margin + t16 \<le> (38800000000000007821 / 100000000000000000000) * s"
    using margin_lo margin_hi t16_lo t16_hi s_half by linarith
  have lix_ge: "1 / 256 \<le> margin + t16" using lix_in_lo s_half by linarith
  have lix_lo: "(3879999999999999027 / 10000000000000000000) * s \<le> lix"
    using rnd_pos_lower [OF lix_ge lix_in_lo] s_half unfolding lix_def by linarith
  have lix_hi: "lix \<le> (38800000000000012129 / 100000000000000000000) * s"
    using rnd_pos_upper [OF lix_ge lix_in_hi] s_half unfolding lix_def by linarith
  have lix_f: "fadd (Fin margin) (Fin t16) = Fin lix"
    unfolding lix_def fadd.simps
    by (rule to_double_Fin) (use lix_lo lix_hi s_half s_fin in \<open>unfold lix_def, linarith\<close>)
  define rox where "rox = rnd (s - margin)"
  have rox_in_lo: "(81999999999999998667 / 100000000000000000000) * s \<le> s - margin"
    using margin_lo margin_hi s_half by linarith
  have rox_in_hi: "s - margin \<le> (41000000000000001333 / 50000000000000000000) * s"
    using margin_lo margin_hi s_half by linarith
  have rox_ge: "1 / 256 \<le> s - margin" using rox_in_lo s_half by linarith
  have rox_lo: "(81999999999999989563 / 100000000000000000000) * s \<le> rox"
    using rnd_pos_lower [OF rox_ge rox_in_lo] s_half unfolding rox_def by linarith
  have rox_hi: "rox \<le> (8200000000000001177 / 10000000000000000000) * s"
    using rnd_pos_upper [OF rox_ge rox_in_hi] s_half unfolding rox_def by linarith
  have rox_f: "fsub (Fin s) (Fin margin) = Fin rox"
    unfolding rox_def fsub.simps
    by (rule to_double_Fin) (use rox_lo rox_hi s_half s_fin in \<open>unfold rox_def, linarith\<close>)
  define rix where "rix = rnd (rox - t16)"
  have rix_in_lo: "(2447999999999999323 / 4000000000000000000) * s \<le> rox - t16"
    using rox_lo rox_hi t16_lo t16_hi s_half by linarith
  have rix_in_hi: "rox - t16 \<le> (30600000000000007263 / 50000000000000000000) * s"
    using rox_lo rox_hi t16_lo t16_hi s_half by linarith
  have rix_ge: "1 / 256 \<le> rox - t16" using rix_in_lo s_half by linarith
  have rix_lo: "(1529999999999999407 / 2500000000000000000) * s \<le> rix"
    using rnd_pos_lower [OF rix_ge rix_in_lo] s_half unfolding rix_def by linarith
  have rix_hi: "rix \<le> (61200000000000021321 / 100000000000000000000) * s"
    using rnd_pos_upper [OF rix_ge rix_in_hi] s_half unfolding rix_def by linarith
  have rix_f: "fsub (Fin rox) (Fin t16) = Fin rix"
    unfolding rix_def fsub.simps
    by (rule to_double_Fin) (use rix_lo rix_hi s_half s_fin in \<open>unfold rix_def, linarith\<close>)
  define t9 where "t9 = rnd (thick * c9)"
  have t9_in_lo: "(2924999999999999847 / 25000000000000000000) * s \<le> thick * c9"
    using thick_lo thick_hi s_half unfolding c9_def by linarith
  have t9_in_hi: "thick * c9 \<le> (11700000000000001989 / 100000000000000000000) * s"
    using thick_lo thick_hi s_half unfolding c9_def by linarith
  have t9_ge: "1 / 256 \<le> thick * c9" using t9_in_lo s_half by linarith
  have t9_lo: "(11699999999999998089 / 100000000000000000000) * s \<le> t9"
    using rnd_pos_lower [OF t9_ge t9_in_lo] s_half unfolding t9_def by linarith
  have t9_hi: "t9 \<le> (1462500000000000411 / 12500000000000000000) * s"
    using rnd_pos_upper [OF t9_ge t9_in_hi] s_half unfolding t9_def by linarith
  have t9_f: "fmul (Fin thick) (Fin c9) = Fin t9"
    unfolding t9_def fmul.simps
    by (rule to_double_Fin) (use t9_lo t9_hi s_half s_fin in \<open>unfold t9_def, linarith\<close>)
  define biy where "biy = rnd (bot_y - t9)"
  have biy_in_lo: "(16574999999999997679 / 25000000000000000000) * s \<le> bot_y - t9"
    using bot_y_lo bot_y_hi t9_lo t9_hi s_half by linarith
  have biy_in_hi: "bot_y - t9 \<le> (16575000000000003309 / 25000000000000000000) * s"
    using bot_y_lo bot_y_hi t9_lo t9_hi s_half by linarith
  have biy_ge: "1 / 256 \<le> bot_y - t9" using biy_in_lo s_half by linarith
  have biy_lo: "(13259999999999996671 / 20000000000000000000) * s \<le> biy"
    using rnd_pos_lower [OF biy_ge biy_in_lo] s_half unfolding biy_def by linarith
  have biy_hi: "biy \<le> (66300000000000020597 / 100000000000000000000) * s"
    using rnd_pos_upper [OF biy_ge biy_in_hi] s_half unfolding biy_def by linarith
  have biy_f: "fsub (Fin bot_y) (Fin t9) = Fin biy"
    unfolding biy_def fsub.simps
    by (rule to_double_Fin) (use biy_lo biy_hi s_half s_fin in \<open>unfold biy_def, linarith\<close>)
  have mid_f: "py_truediv sz 2 = Inr (Fin (s / 2))"
    using tip_x_is_half [OF fl] unfolding lit_half using h_fin by simp
  have margin_nlo: "(9 / 50) * x - x / 1000000000000000 \<le> margin"
    using margin_lo margin_hi s_lo s_hi x1 by linarith
  have margin_nhi: "margin \<le> (9 / 50) * x + x / 1000000000000000"
    using margin_lo margin_hi s_lo s_hi x1 by linarith
  have margin_n: "near x (9 / 50) (Fin margin)"
    using margin_nlo margin_nhi unfolding near_def by simp
  have top_y_nlo: "(11 / 50) * x - x / 1000000000000000 \<le> top_y"
    using top_y_lo top_y_hi s_lo s_hi x1 by linarith
  have top_y_nhi: "top_y \<le> (11 / 50) * x + x / 1000000000000000"
    using top_y_lo top_y_hi s_lo s_hi x1 by linarith
  have top_y_n: "near x (11 / 50) (Fin top_y)"
    using top_y_nlo top_y_nhi unfolding near_def by simp
  have lix_nlo: "(97 / 250) * x - x / 1000000000000000 \<le> lix"
    using lix_lo lix_hi s_lo s_hi x1 by linarith
  have lix_nhi: "lix \<le> (97 / 250) * x + x / 1000000000000000"
    using lix_lo lix_hi s_lo s_hi x1 by linarith
  have lix_n: "near x (97 / 250) (Fin lix)"
    using lix_nlo lix_nhi unfolding near_def by simp
  have h_nlo: "(1 / 2) * x - x / 1000000000000000 \<le> s / 2"
    using  s_lo s_hi x1 by linarith
  have h_nhi: "s / 2 \<le> (1 / 2) * x + x / 1000000000000000"
    using  s_lo s_hi x1 by linarith
  have h_n: "near x (1 / 2) (Fin (s / 2))"
    using h_nlo h_nhi unfolding near_def by simp
  have biy_nlo: "(663 / 1000) * x - x / 1000000000000000 \<le> biy"
    using biy_lo biy_hi s_lo s_hi x1 by linarith
  have biy_nhi: "biy \<le> (663 / 1000) * x + x / 1000000000000000"
    using biy_lo biy_hi s_lo s_hi x1 by linarith
  have biy_n: "near x (663 / 1000) (Fin biy)"
    using biy_nlo biy_nhi unfolding near_def by simp
  have rix_nlo: "(153 / 250) * x - x / 1000000000000000 \<le> rix"
    using rix_lo rix_hi s_lo s_hi x1 by linarith
  have rix_nhi: "rix \<le> (153 / 250) * x + x / 1000000000000000"
    using rix_lo rix_hi s_lo s_hi x1 by linarith
  have rix_n: "near x (153 / 250) (Fin rix)"
    using rix_nlo rix_nhi unfolding near_def by simp
  have rox_nlo: "(41 / 50) * x - x / 1000000000000000 \<le> rox"
    using rox_lo rox_hi s_lo s_hi x1 by linarith
  have rox_nhi: "rox \<le> (41 / 50) * x + x / 1000000000000000"
    using rox_lo rox_hi s_lo s_hi x1 by linarith
  have rox_n: "near x (41 / 50) (Fin rox)"
    using rox_nlo rox_nhi unfolding near_def by simp
  have bot_y_nlo: "(39 / 50) * x - x / 1000000000000000 \<le> bot_y"
    using bot_y_lo bot_y_hi s_lo s_hi x1 by linarith
  have bot_y_nhi: "bot_y \<le> (39 / 50) * x + x / 1000000000000000"
    using bot_y_lo bot_y_hi s_lo s_hi x1 by linarith
  have bot_y_n: "near x (39 / 50) (Fin bot_y)"
    using bot_y_nlo bot_y_nhi unfolding near_def by simp
  have "favicon_polys sz =
          Inr ([(Fin margin, Fin top_y), (Fin lix, Fin top_y), (Fin (s / 2), Fin biy),
                (Fin rix, Fin top_y), (Fin rox, Fin top_y), (Fin (s / 2), Fin bot_y)],
               [(Fin (s / 2), Fin top_y), (Fin rix, Fin top_y), (Fin rox, Fin top_y),
                (Fin (s / 2), Fin bot_y)])"
    unfolding favicon_polys_def fl mid_f lit_c18 lit_c22 lit_c78 lit_c13 lit_c1_6 lit_c9
    by (simp del: fadd.simps fsub.simps fmul.simps
             add: Let_def margin_f top_y_f bot_y_f thick_f t16_f lix_f rox_f rix_f t9_f biy_f)
  with polys have "v_poly = [(Fin margin, Fin top_y), (Fin lix, Fin top_y), (Fin (s / 2), Fin biy),
                (Fin rix, Fin top_y), (Fin rox, Fin top_y), (Fin (s / 2), Fin bot_y)]"
    and "right_half = [(Fin (s / 2), Fin top_y), (Fin rix, Fin top_y), (Fin rox, Fin top_y),
                (Fin (s / 2), Fin bot_y)]"
    by simp_all
  then show ?thesis
    unfolding points_near_def favicon_consts_def right_half_consts_def x_def [symmetric]
    using margin_n top_y_n lix_n h_n biy_n rix_n rox_n bot_y_n by simp
qed

lemma list_all2_setD:
  assumes "list_all2 P ks ps" and "\<And>k p. k \<in> set ks \<Longrightarrow> P k p \<Longrightarrow> Q p"
  shows "\<forall>p \<in> set ps. Q p"
  using assms by (induction rule: list_all2_induct) auto

lemma list_all2_join:
  "list_all2 P ks ps \<Longrightarrow> list_all2 P' ks qs
     \<Longrightarrow> (\<forall>k \<in> set ks. \<forall>p q. P k p \<longrightarrow> P' k q \<longrightarrow> R p q)
     \<Longrightarrow> list_all2 R ps qs"
  by (induction ks arbitrary: ps qs) (auto simp: list_all2_Cons1)

lemma near_bounds:
  assumes x: "1 \<le> x" and n: "near x K d" and k: "1 / 10 ^ 15 \<le> K" "K \<le> 1 - 1 / 10 ^ 15"
  shows "\<exists>v. d = Fin v \<and> 0 \<le> v \<and> v \<le> x"
proof -
  from n obtain v where d: "d = Fin v"
    and lo: "K * x - x / 10 ^ 15 \<le> v" and hi: "v \<le> K * x + x / 10 ^ 15"
    unfolding near_def by (auto split: double.splits)
  have "0 \<le> (K - 1 / 10 ^ 15) * x" using k(1) x by simp
  then have "0 \<le> K * x - x / 10 ^ 15" by (simp add: algebra_simps)
  moreover have "0 \<le> (1 - 1 / 10 ^ 15 - K) * x" using k(2) x by simp
  then have "K * x + x / 10 ^ 15 \<le> x" by (simp add: algebra_simps)
  ultimately show ?thesis using d lo hi by auto
qed

lemma points_near_in_canvas:
  assumes sz: "1 \<le> sz" and pn: "points_near sz ks ps"
    and ks: "\<forall>k \<in> set ks. 1 / 10 ^ 15 \<le> fst k \<and> fst k \<le> 1 - 1 / 10 ^ 15
                          \<and> 1 / 10 ^ 15 \<le> snd k \<and> snd k \<le> 1 - 1 / 10 ^ 15"
  shows "\<forall>p \<in> set ps. in_canvas sz p"
proof (rule list_all2_setD [OF pn [unfolded points_near_def]])
  fix k p
  assume k: "k \<in> set ks"
    and n: "near (of_int sz) (fst k) (fst p) \<and> near (of_int sz) (snd k) (snd p)"
  have x: "1 \<le> (of_int sz :: real)" using sz by simp
  from ks k have b: "1 / 10 ^ 15 \<le> fst k" "fst k \<le> 1 - 1 / 10 ^ 15"
    "1 / 10 ^ 15 \<le> snd k" "snd k \<le> 1 - 1 / 10 ^ 15" by auto
  from near_bounds [OF x _ b(1,2)] n obtain vx
    where vx: "fst p = Fin vx" "0 \<le> vx" "vx \<le> of_int sz" by blast
  from near_bounds [OF x _ b(3,4)] n obtain vy
    where vy: "snd p = Fin vy" "0 \<le> vy" "vy \<le> of_int sz" by blast
  show "in_canvas sz p" using vx vy unfolding in_canvas_def by (cases p) simp
qed

lemma near_close_scaled:
  assumes x1: "1 \<le> S1" and x2: "1 \<le> S2"
    and a: "near (of_int S1) K a" and b: "near (of_int S2) K b"
  shows "close_scaled S1 S2 a b"
proof -
  define y1 :: real where "y1 = of_int S1"
  define y2 :: real where "y2 = of_int S2"
  have y1: "0 < y1" and y2: "0 < y2" using x1 x2 unfolding y1_def y2_def by simp_all
  from a obtain u where ua: "a = Fin u"
    and ulo: "K * y1 - y1 / 10 ^ 15 \<le> u" and uhi: "u \<le> K * y1 + y1 / 10 ^ 15"
    unfolding near_def y1_def by (auto split: double.splits)
  from b obtain v where vb: "b = Fin v"
    and vlo: "K * y2 - y2 / 10 ^ 15 \<le> v" and vhi: "v \<le> K * y2 + y2 / 10 ^ 15"
    unfolding near_def y2_def by (auto split: double.splits)
  have u: "\<bar>u - K * y1\<bar> \<le> y1 / 10 ^ 15" using ulo uhi by linarith
  have v: "\<bar>v - K * y2\<bar> \<le> y2 / 10 ^ 15" using vlo vhi by linarith
  define r where "r = y2 / y1"
  have r: "0 < r" and ry: "y1 * r = y2" using y1 y2 unfolding r_def by simp_all
  have "\<bar>u - K * y1\<bar> * r \<le> y1 / 10 ^ 15 * r"
    using u r by (simp only: mult_le_cancel_right_pos)
  also have "y1 / 10 ^ 15 * r = y2 / 10 ^ 15" using ry by simp
  also have "\<bar>u - K * y1\<bar> * r = \<bar>u * r - K * y2\<bar>"
  proof -
    have "\<bar>u - K * y1\<bar> * r = \<bar>(u - K * y1) * r\<bar>" using r by (simp add: abs_mult)
    also have "(u - K * y1) * r = u * r - K * (y1 * r)" by (simp add: algebra_simps)
    finally show ?thesis unfolding ry .
  qed
  finally have "\<bar>u * r - K * y2\<bar> \<le> y2 / 10 ^ 15" .
  with v have "\<bar>v - u * r\<bar> \<le> 2 * y2 / 10 ^ 15" by linarith
  then show ?thesis unfolding close_scaled_def ua vb r_def y1_def y2_def by simp
qed

lemma points_near_scaled:
  assumes "1 \<le> S1" and "1 \<le> S2"
    and "points_near S1 ks ps" and "points_near S2 ks qs"
  shows "scaled_approx S1 S2 ps qs"
  unfolding scaled_approx_def
  by (rule list_all2_join [OF assms(3,4) [unfolded points_near_def]])
     (auto intro: near_close_scaled [OF assms(1,2)])


section \<open>The gradient image\<close>

lemma fill_row_pixel:
  "get_pixel (fill_row img y c xs) x' y'
     = (if y' = y \<and> x' \<in> set xs then Some c else get_pixel img x' y')"
  by (induction xs arbitrary: img) auto

lemma fill_row_size [simp]: "canvas_size (fill_row img y c xs) = canvas_size img"
  by (induction xs arbitrary: img) auto

lemma fill_row_resizes [simp]: "resizes (fill_row img y c xs) = resizes img"
  by (induction xs arbitrary: img) auto

lemma fill_row_allocated [simp]: "allocated (fill_row img y c xs) = allocated img"
  by (induction xs arbitrary: img) auto

lemma truncate_of_int [simp]: "truncate (of_int n) = n"
  by (simp add: truncate_def)


text \<open>The row position \<^verbatim>\<open>t = y / (size - 1)\<close> of a row inside the image.\<close>

lemma py_truediv_row:
  assumes "0 \<le> y" and "y \<le> n" and "0 < n"
  shows "py_truediv y n = Inr (Fin (rnd (of_int y / of_int n)))"
    and "\<bar>rnd (of_int y / of_int n :: real)\<bar> \<le> 3"
proof -
  have "0 \<le> (of_int y / of_int n :: real)" using assms by simp
  moreover have "(of_int y / of_int n :: real) \<le> 1" using assms by simp
  ultimately have a: "\<bar>of_int y / of_int n :: real\<bar> \<le> 1" by simp
  from rnd_small [OF a] show "\<bar>rnd (of_int y / of_int n :: real)\<bar> \<le> 3" by simp
  have "\<bar>of_int y / of_int n :: real\<bar> \<le> 2 ^ 16" using a by simp
  from to_double_small [OF this] show "py_truediv y n = Inr (Fin (rnd (of_int y / of_int n)))"
    using assms unfolding py_truediv_def by simp
qed

lemma channel_8bit:
  assumes a: "0 \<le> a" "a \<le> 255" and b: "0 \<le> b" "b \<le> 255" and t: "\<bar>t\<bar> \<le> 3"
  shows "channel a b (Fin t) = Inr (truncate (rnd (of_int a + rnd (of_int (b - a) * t))))"
proof -
  have d: "float_of_int (b - a) = Inr (Fin (of_int (b - a)))"
    by (rule float_of_int_8bit) (use a b in simp)
  have f: "float_of_int a = Inr (Fin (of_int a))"
    by (rule float_of_int_8bit) (use a in simp)
  have "\<bar>of_int (b - a) :: real\<bar> \<le> 255"
    using a b by (metis abs_le_iff of_int_abs of_int_le_iff of_int_numeral diff_le_eq
        add.commute add_increasing2 minus_diff_eq)
  then have "\<bar>of_int (b - a) :: real\<bar> * \<bar>t\<bar> \<le> 255 * 3"
    using t by (intro mult_mono) simp_all
  then have p: "\<bar>of_int (b - a) * t\<bar> \<le> 765" by (simp add: abs_mult)
  then have "\<bar>of_int (b - a) * t\<bar> \<le> 2 ^ 16" by simp
  from to_double_small [OF this]
  have m: "fmul (Fin (of_int (b - a))) (Fin t) = Fin (rnd (of_int (b - a) * t))" by simp
  from rnd_small [OF p] have q: "\<bar>rnd (of_int (b - a) * t)\<bar> \<le> 1531" by simp
  have "\<bar>of_int a :: real\<bar> \<le> 255" using a by simp
  with q have "\<bar>of_int a + rnd (of_int (b - a) * t)\<bar> \<le> 2 ^ 16" by simp
  from to_double_small [OF this]
  have s: "fadd (Fin (of_int a)) (Fin (rnd (of_int (b - a) * t)))
             = Fin (rnd (of_int a + rnd (of_int (b - a) * t)))" by simp
  show ?thesis
    by (simp only: channel_def d f sum.case m s py_int_def double.case truncate_def)
qed

lemma gradient_rows_pixels:
  assumes S: "2 \<le> S" and top: "rgb8 top_rgb" and bot: "rgb8 bot_rgb"
    and ys: "\<forall>y \<in> set ys. 0 \<le> y \<and> y < S"
  shows "\<exists>img'. gradient_rows S top_rgb bot_rgb img ys = Inr img'
           \<and> canvas_size img' = canvas_size img
           \<and> resizes img' = resizes img
           \<and> allocated img' = allocated img
           \<and> (\<forall>x y. get_pixel img' x y =
                  (if y \<in> set ys \<and> 0 \<le> x \<and> x < S then Some (row_colour S top_rgb bot_rgb y)
                   else get_pixel img x y))"
  using ys
proof (induction ys arbitrary: img)
  case Nil
  then show ?case by simp
next
  case (Cons y ys)
  from Cons.prems have y: "0 \<le> y" "y \<le> S - 1" "0 < S - 1" and rest: "\<forall>y \<in> set ys. 0 \<le> y \<and> y < S"
    using S by auto
  note t = py_truediv_row [OF y]
  obtain tr tg tb where tt: "top_rgb = (tr, tg, tb)" by (cases top_rgb) auto
  obtain br bg bb where bt: "bot_rgb = (br, bg, bb)" by (cases bot_rgb) auto
  from top bot have c: "0 \<le> tr" "tr \<le> 255" "0 \<le> tg" "tg \<le> 255" "0 \<le> tb" "tb \<le> 255"
    "0 \<le> br" "br \<le> 255" "0 \<le> bg" "bg \<le> 255" "0 \<le> bb" "bb \<le> 255"
    unfolding rgb8_def tt bt by simp_all
  define c' where "c' = row_colour S top_rgb bot_rgb y"
  define img1 where "img1 = fill_row img y c' (range S)"
  have step: "gradient_rows S top_rgb bot_rgb img (y # ys) = gradient_rows S top_rgb bot_rgb img1 ys"
    unfolding img1_def c'_def row_colour_def gradient_value_def tt bt
    using t(1) channel_8bit [OF c(1,2) c(7,8) t(2)] channel_8bit [OF c(3,4) c(9,10) t(2)]
      channel_8bit [OF c(5,6) c(11,12) t(2)]
    by simp
  from Cons.IH [OF rest, of img1] obtain img'
    where r: "gradient_rows S top_rgb bot_rgb img1 ys = Inr img'"
      and sz: "canvas_size img' = canvas_size img1"
      and rs: "resizes img' = resizes img1"
      and al: "allocated img' = allocated img1"
      and px: "\<forall>x y. get_pixel img' x y =
                  (if y \<in> set ys \<and> 0 \<le> x \<and> x < S then Some (row_colour S top_rgb bot_rgb y)
                   else get_pixel img1 x y)"
    by blast
  have "\<forall>x y'. get_pixel img' x y' =
                  (if y' \<in> set (y # ys) \<and> 0 \<le> x \<and> x < S
                   then Some (row_colour S top_rgb bot_rgb y')
                   else get_pixel img x y')"
    using px unfolding img1_def c'_def by (auto simp: fill_row_pixel range_def)
  then show ?case using r sz rs al unfolding step img1_def by simp
qed


lemma gradient_value_top:
  assumes "\<bar>a\<bar> < 2 ^ 53"
  shows "gradient_value S a b 0 = a"
proof -
  have "rnd (of_int a) = of_int a" using assms by (rule rnd_of_int)
  then show ?thesis unfolding gradient_value_def by simp
qed

lemma gradient_value_bottom:
  assumes "S \<noteq> 1" and "\<bar>b - a\<bar> < 2 ^ 53" and "\<bar>b\<bar> < 2 ^ 53"
  shows "gradient_value S a b (S - 1) = b"
proof -
  have one: "(of_int (S - 1) / of_int (S - 1) :: real) = 1" using assms(1) by simp
  have d: "rnd (of_int (b - a)) = of_int (b - a)" using assms(2) by (rule rnd_of_int)
  have e: "rnd (of_int b) = of_int b" using assms(3) by (rule rnd_of_int)
  have "(of_int a + of_int (b - a) :: real) = of_int b" by simp
  then show ?thesis
    unfolding gradient_value_def one by (simp only: rnd_1 mult_1_right d e truncate_of_int)
qed

lemma range_set: "set (range n) = {x. 0 \<le> x \<and> x < n}"
  unfolding range_def by auto

lemma channel_no_zero_division: "channel a b t \<noteq> Inl ZeroDivisionError"
  using float_of_int_cases [of "b - a"] float_of_int_cases [of a]
  unfolding channel_def py_int_def
  by (auto split: sum.splits double.splits)

lemma py_truediv_no_zero_division: "n \<noteq> 0 \<Longrightarrow> py_truediv y n \<noteq> Inl ZeroDivisionError"
  unfolding py_truediv_def by (auto split: double.splits)

lemma gradient_rows_no_zero_division:
  assumes "S \<noteq> 1"
  shows "gradient_rows S top_rgb bot_rgb img ys \<noteq> Inl ZeroDivisionError"
proof (induction ys arbitrary: img)
  case Nil
  then show ?case by simp
next
  case (Cons y ys)
  have n: "S - 1 \<noteq> 0" using assms by simp
  show ?case
    using py_truediv_no_zero_division [OF n, of y] channel_no_zero_division Cons.IH
    by (auto split: sum.splits)
qed

lemma vertical_gradient_1: "vertical_gradient 1 top_rgb bot_rgb = Inl ZeroDivisionError"
  by (simp add: vertical_gradient_def range_def py_truediv_def)

lemma rgb8_INDIGO: "rgb8 INDIGO_TOP" "rgb8 INDIGO_BOTTOM"
  by (simp_all add: rgb8_def INDIGO_TOP_def INDIGO_BOTTOM_def)

lemma vertical_gradient_canvas:
  assumes "2 \<le> S" and "rgb8 top_rgb" and "rgb8 bot_rgb"
  shows "\<exists>img. vertical_gradient S top_rgb bot_rgb = Inr img
           \<and> canvas_size img = (S, S) \<and> resizes img = 0 \<and> allocated img = {(S, S)}"
proof -
  have ys: "\<forall>y \<in> set (range S). 0 \<le> y \<and> y < S" by (simp add: range_set)
  from gradient_rows_pixels [OF assms ys, of "New RGB S S (Rgb 0 0 0)"]
  show ?thesis unfolding vertical_gradient_def by auto
qed


section \<open>The two rendering pipelines\<close>

lemma range_4: "range 4 = [0, 1, 2, 3]"
  by (simp add: range_def upto_rec1)

lemma rounded_rect_mask_cases:
  "rounded_rect_mask S (lit (22 / 100)) = Inl OverflowError
   \<or> (\<exists>r. rounded_rect_mask S (lit (22 / 100))
             = Inr (RoundedRectangle (New L S S (Grey 0)) (0, 0, S - 1, S - 1) r
                      (Some (Grey 255)) None 1)
          \<and> 1 \<le> r)"
  using float_of_int_cases [of S]
  unfolding rounded_rect_mask_def py_int_def
  by (auto simp: Let_def split: sum.splits double.splits)

lemma rounded_rect_mask_total:
  assumes "0 \<le> S" and "float_of_int S = Inr (Fin s)"
  shows "\<exists>r. rounded_rect_mask S (lit (22 / 100))
             = Inr (RoundedRectangle (New L S S (Grey 0)) (0, 0, S - 1, S - 1) r
                      (Some (Grey 255)) None 1)"
proof -
  define c :: real where "c = 7926335344172073 / 36028797018963968"
  have l: "lit (22 / 100) = Fin c" unfolding c_def by (simp add: float_eval)
  from float_of_int_Inr [OF assms(2)] have s: "s = rnd (of_int S)" "\<bar>s\<bar> < 2 ^ 1024" by simp_all
  have s0: "0 \<le> s" unfolding s(1) using assms(1) by (intro rnd_nonneg) simp
  with s(2) have s1: "s < 2 ^ 1024" by simp
  have "to_double (s * c) = Fin (rnd (s * c))"
    by (rule to_double_scaled(1) [OF s0 s1]) (simp_all add: c_def)
  then show ?thesis
    unfolding rounded_rect_mask_def assms(2) l py_int_def by (simp add: Let_def)
qed

lemma draw_v_cases:
  "draw_v draw S color = Inl OverflowError
   \<or> (\<exists>l r. v_arms S = Inr (l, r) \<and> draw_v draw S color = Inr (Polygon (Polygon draw l color) r color))"
  using float_of_int_cases [of S]
  unfolding draw_v_def v_arms_def
  by (auto simp: Let_def split: sum.splits)

text \<open>What \<^verbatim>\<open>make_icon\<close> returns, whenever it returns.\<close>

lemma rounded_rect_mask_radius:
  assumes "rounded_rect_mask S radius_frac = Inr msk"
  shows "\<exists>s k. float_of_int S = Inr s \<and> py_int (fmul s radius_frac) = Inr k
           \<and> msk = RoundedRectangle (New L S S (Grey 0)) (0, 0, S - 1, S - 1) (max 1 k)
                     (Some (Grey 255)) None 1"
  using assms unfolding rounded_rect_mask_def
  by (auto simp: Let_def split: sum.splits)

lemma rounded_rect_mask_64:
  "rounded_rect_mask 64 (lit (22 / 100))
   = Inr (RoundedRectangle (New L 64 64 (Grey 0)) (0, 0, 63, 63) 14 (Some (Grey 255)) None 1)"
  unfolding rounded_rect_mask_def py_int_def by (simp add: float_eval)

lemma make_icon_parts:
  assumes "make_icon sz = Inr icon"
  shows "\<exists>bg msk left_arm right_arm.
           vertical_gradient (sz * 4) INDIGO_TOP INDIGO_BOTTOM = Inr bg
           \<and> rounded_rect_mask (sz * 4) (lit (22 / 100)) = Inr msk
           \<and> v_arms (sz * 4) = Inr (left_arm, right_arm)
           \<and> icon = Resize
                 (AlphaComposite
                    (Paste (New RGBA (sz * 4) (sz * 4) (Rgba 0 0 0 0)) bg msk)
                    (Polygon (Polygon (New RGBA (sz * 4) (sz * 4) (Rgba 0 0 0 0)) left_arm WHITE)
                       right_arm WHITE))
                 sz sz LANCZOS"
  using assms unfolding make_icon_def draw_v_def
  by (auto simp: Let_def split: sum.splits)

lemma make_icon_total:
  assumes "1 \<le> sz" and "sz \<le> 2 ^ 1021"
  shows "\<exists>icon. make_icon sz = Inr icon"
proof -
  have S: "2 \<le> sz * 4" using assms(1) by simp
  from vertical_gradient_canvas [OF S rgb8_INDIGO] obtain bg
    where bg: "vertical_gradient (sz * 4) INDIGO_TOP INDIGO_BOTTOM = Inr bg" by blast
  have "sz * 4 \<le> 2 ^ 1021 * 4" using assms(2) by simp
  also have "\<dots> = (2::int) ^ 1023" by simp
  finally have "\<bar>sz * 4\<bar> \<le> 2 ^ 1023" using assms(1) by simp
  from float_of_int_total [OF this] obtain s where s: "float_of_int (sz * 4) = Inr (Fin s)" by blast
  have "0 \<le> sz * 4" using assms(1) by simp
  from rounded_rect_mask_total [OF this s] obtain r
    where m: "rounded_rect_mask (sz * 4) (lit (22 / 100))
             = Inr (RoundedRectangle (New L (sz * 4) (sz * 4) (Grey 0))
                      (0, 0, sz * 4 - 1, sz * 4 - 1) r (Some (Grey 255)) None 1)" by blast
  from v_arms_total [OF s] obtain l r' where v: "v_arms (sz * 4) = Inr (l, r')" by blast
  show ?thesis unfolding make_icon_def using bg m v by (simp add: Let_def draw_v_def)
qed

lemma highlight_ring_canvas:
  "canvas_size (highlight_ring sz radius img rest) = canvas_size img
   \<and> resizes (highlight_ring sz radius img rest) = resizes img
   \<and> allocated (highlight_ring sz radius img rest)
       = allocated img \<union> (if rest = [] then {} else {(sz, sz)})"
  by (induction rest arbitrary: img) (auto simp: Let_def)

lemma make_vaulty_favicon_Inr:
  assumes "make_vaulty_favicon sz = Inr img"
  shows "canvas_size img = (sz, sz) \<and> resizes img = 0 \<and> allocated img = {(sz, sz)}"
  using assms highlight_ring_canvas
  unfolding make_vaulty_favicon_def
  by (auto simp: Let_def range_4 split: sum.splits)

lemma make_vaulty_favicon_parts:
  assumes "make_vaulty_favicon sz = Inr img"
  shows "\<exists>v_poly right_half.
           favicon_polys sz = Inr (v_poly, right_half)
           \<and> img = AlphaComposite
                   (Polygon
                      (highlight_ring sz (sz div 5)
                         (RoundedRectangle (New RGBA sz sz (Rgba 0 0 0 0))
                            (0, 0, sz - 1, sz - 1) (sz div 5) (Some (Rgb 15 23 42)) None 1)
                         (range 4))
                      v_poly (Rgb 99 102 241))
                   (Polygon (New RGBA sz sz (Rgba 0 0 0 0)) right_half (Rgba 139 92 246 200))"
  using assms unfolding make_vaulty_favicon_def
  by (auto simp: Let_def split: sum.splits)

lemma make_vaulty_favicon_total:
  assumes "\<bar>sz\<bar> \<le> 2 ^ 1023"
  shows "\<exists>img. make_vaulty_favicon sz = Inr img"
proof -
  from float_of_int_total [OF assms] obtain s where "float_of_int sz = Inr (Fin s)" by blast
  from favicon_polys_total [OF this] show ?thesis
    unfolding make_vaulty_favicon_def by (auto simp: Let_def)
qed


section \<open>Runs of the output stage\<close>

lemma icon_paths:
  "icon_path 16 = ''extension/icons/icon-16.png''"
  "icon_path 32 = ''extension/icons/icon-32.png''"
  "icon_path 48 = ''extension/icons/icon-48.png''"
  "icon_path 128 = ''extension/icons/icon-128.png''"
  by (simp_all add: icon_path_def OUT_DIR_def str_int_def str_nat.simps)

text \<open>One pass of the loop whose size renders and whose file can be written.\<close>

lemma icon_loop_step_ok:
  assumes "make_icon sz = Inr icon" and "can_write env (icon_path sz)"
  shows "icon_loop env w (sz # rest) =
           icon_loop env
             (print (w\<lparr>files := (files w)(icon_path sz \<mapsto>
                        \<lparr>file_format = PNG, file_image = icon, file_sizes = None\<rparr>)\<rparr>)
                (Wrote (icon_path sz) sz))
             rest"
  using assms by (simp add: save_def Let_def)

lemma icon_loop_step_fail:
  assumes "make_icon sz = Inr icon" and "\<not> can_write env (icon_path sz)"
  shows "icon_loop env w (sz # rest) = (Some OSError, w)"
  using assms by (simp add: save_def Let_def)


lemma dom_written: "dom (written szs m) = dom m \<union> icon_path ` set szs"
  by (induction szs arbitrary: m) auto

lemma icon_loop_result:
  assumes "\<forall>sz \<in> set szs. 1 \<le> sz \<and> sz \<le> 2 ^ 1021"
  shows "fst (icon_loop env w szs) = (if list_all (writable env) szs then None else Some OSError)
       \<and> files (snd (icon_loop env w szs)) = written (takeWhile (writable env) szs) (files w)
       \<and> dirs (snd (icon_loop env w szs)) = dirs w
       \<and> stdout (snd (icon_loop env w szs))
           = stdout w @ map (\<lambda>sz. Wrote (icon_path sz) sz) (takeWhile (writable env) szs)"
  using assms
proof (induction szs arbitrary: w)
  case Nil
  then show ?case by simp
next
  case (Cons sz rest)
  then have "1 \<le> sz" "sz \<le> 2 ^ 1021" by simp_all
  from make_icon_total [OF this] obtain icon where icon: "make_icon sz = Inr icon" by blast
  show ?case
  proof (cases "can_write env (icon_path sz)")
    case True
    define w1 where "w1 = print (w\<lparr>files := (files w)(icon_path sz \<mapsto>
                        \<lparr>file_format = PNG, file_image = icon, file_sizes = None\<rparr>)\<rparr>)
                (Wrote (icon_path sz) sz)"
    have step: "icon_loop env w (sz # rest) = icon_loop env w1 rest"
      unfolding w1_def using icon True by (rule icon_loop_step_ok)
    have w1: "files w1 = (files w)(icon_path sz \<mapsto> png icon)" "dirs w1 = dirs w"
      "stdout w1 = stdout w @ [Wrote (icon_path sz) sz]"
      unfolding w1_def print_def png_def by simp_all
    have wr: "writable env sz" using True by (simp add: writable_def)
    have rest: "\<forall>sz \<in> set rest. 1 \<le> sz \<and> sz \<le> 2 ^ 1021" using Cons.prems by simp
    note ih = Cons.IH [OF rest, of w1]
    have tw: "takeWhile (writable env) (sz # rest) = sz # takeWhile (writable env) rest"
      using wr by simp
    have la: "list_all (writable env) (sz # rest) = list_all (writable env) rest"
      using wr by simp
    have wk: "written (sz # takeWhile (writable env) rest) (files w)
                = written (takeWhile (writable env) rest) (files w1)"
      unfolding w1(1) using icon by simp
    show ?thesis
      unfolding step tw la wk using ih unfolding w1(2,3) by simp
  next
    case False
    have wr: "\<not> writable env sz" using False by (simp add: writable_def)
    from icon_loop_step_fail [OF icon False, of w rest]
    show ?thesis using wr by simp
  qed
qed

lemma SIZES_good: "\<forall>sz \<in> set SIZES. 1 \<le> sz \<and> sz \<le> 2 ^ 1021"
  by (simp add: SIZES_def)

lemma generate_icon_result:
  "fst (generate_icon env w)
     = (if can_mkdir env OUT_DIR \<and> list_all (writable env) SIZES then None else Some OSError)
   \<and> files (snd (generate_icon env w))
       = (if can_mkdir env OUT_DIR then written (takeWhile (writable env) SIZES) (files w)
          else files w)
   \<and> stdout (snd (generate_icon env w))
       = (if can_mkdir env OUT_DIR
          then stdout w @ map (\<lambda>sz. Wrote (icon_path sz) sz) (takeWhile (writable env) SIZES)
                 @ (if list_all (writable env) SIZES then [Done OUT_DIR] else [])
          else stdout w)"
proof (cases "can_mkdir env OUT_DIR")
  case False
  then show ?thesis by (simp add: generate_icon_def makedirs_def)
next
  case True
  define w1 where "w1 = w\<lparr>dirs := insert OUT_DIR (dirs w)\<rparr>"
  have m: "makedirs env w OUT_DIR = (None, w1)" unfolding w1_def using True by (simp add: makedirs_def)
  have f: "files w1 = files w" "stdout w1 = stdout w" unfolding w1_def by simp_all
  note r = icon_loop_result [OF SIZES_good, of env w1]
  obtain out w2 where l: "icon_loop env w1 SIZES = (out, w2)" by (cases "icon_loop env w1 SIZES")
  from r l have o: "out = (if list_all (writable env) SIZES then None else Some OSError)"
    and g: "files w2 = written (takeWhile (writable env) SIZES) (files w)"
    and p: "stdout w2 = stdout w @ map (\<lambda>sz. Wrote (icon_path sz) sz) (takeWhile (writable env) SIZES)"
    unfolding f by simp_all
  show ?thesis
    unfolding generate_icon_def m using True l o g p by (simp add: print_def split: option.splits)
qed

lemma favicon_64:
  "\<exists>largest. make_vaulty_favicon 64 = Inr largest \<and> canvas_size largest = (64, 64)
      \<and> allocated largest = {(64, 64)} \<and> resizes largest = 0"
proof -
  have "\<bar>64 :: int\<bar> \<le> 2 ^ 1023" by simp
  from make_vaulty_favicon_total [OF this] obtain img where i: "make_vaulty_favicon 64 = Inr img"
    by blast
  from make_vaulty_favicon_Inr [OF i] i show ?thesis by simp
qed

lemma save_favicon_result:
  "fst (save_favicon env w path)
     = (if can_mkdir env (dirname path) \<and> can_write env path then None else Some OSError)
   \<and> files (snd (save_favicon env w path))
       = (if can_mkdir env (dirname path) \<and> can_write env path
          then (files w)(path \<mapsto> ico (projr (make_vaulty_favicon 64)))
          else files w)
   \<and> stdout (snd (save_favicon env w path))
       = (if can_mkdir env (dirname path) \<and> can_write env path
          then stdout w @ [FaviconSaved path, SizesEmbedded [16, 32, 48, 64]]
          else stdout w)"
proof -
  from favicon_64 obtain largest where l: "make_vaulty_favicon 64 = Inr largest" by blast
  show ?thesis
    unfolding save_favicon_def
    by (simp add: Let_def l makedirs_def save_def print_def ico_def)
qed

lemma permissive_env: "can_mkdir permissive p" "can_write permissive p" "writable permissive sz"
  by (simp_all add: permissive_def anything_def writable_def)

lemma refusing_env:
  "can_mkdir refusing_icon_48 p"
  "writable refusing_icon_48 16" "writable refusing_icon_48 32" "\<not> writable refusing_icon_48 48"
  by (simp_all add: refusing_icon_48_def anything_def all_but_icon_48_def writable_def icon_paths)

lemma empty_world_fields: "dom (files empty_world) = {}" "stdout empty_world = []"
  by (simp_all add: empty_world_def)


section \<open>The mirrored arms of the icon glyph\<close>

text \<open>
  Claim C1. Whenever \<^verbatim>\<open>draw_v\<close> gets to draw, the right arm is the left arm mirrored
  point by point across the vertical centre line: with \<open>centerX\<close> the float
  \<^verbatim>\<open>size / 2\<close>, the right-arm polygon is the list of the points
  \<open>(2 * centerX - x, y)\<close> for the points \<open>(x, y)\<close> of the left-arm polygon, in the same
  order, and these two four-point polygons are the ones drawn.
\<close>

theorem draw_v_right_arm_mirrors_left:
  assumes "v_arms sz = Inr (left_arm, right_arm)"
  shows "\<exists>centerX. py_truediv sz 2 = Inr centerX
           \<and> right_arm = map (reflect centerX) left_arm
           \<and> length left_arm = 4
           \<and> draw_v draw sz color = Inr (Polygon (Polygon draw left_arm color) right_arm color)"
proof -
  from assms obtain s where s: "float_of_int sz = Inr s"
    unfolding v_arms_def by (auto split: sum.splits)
  have c: "py_truediv sz 2 = Inr (fmul s (lit (50 / 100)))" using s by (rule tip_x_is_half)
  have "right_arm = map (reflect (fmul s (lit (50 / 100)))) left_arm \<and> length left_arm = 4"
    using assms s unfolding v_arms_def by (auto simp: Let_def reflect_def)
  moreover have "draw_v draw sz color = Inr (Polygon (Polygon draw left_arm color) right_arm color)"
    using assms unfolding draw_v_def by simp
  ultimately show ?thesis using c by blast
qed

theorem draw_v_right_arm_mirrors_left_witness:
  "v_arms 64 = Inr
     ([(Fin (5764607523034235 / 562949953421312), Fin (5764607523034235 / 562949953421312)),
       (Fin (377176468792279 / 17592186044416), Fin (5764607523034235 / 562949953421312)),
       (Fin 32, Fin (2899192260119757 / 70368744177664)),
       (Fin (976155219232555 / 35184372088832), Fin (3332663724254167 / 70368744177664))],
      [(Fin (7566047373982433 / 140737488355328), Fin (5764607523034235 / 562949953421312)),
       (Fin (748723438050345 / 17592186044416), Fin (5764607523034235 / 562949953421312)),
       (Fin 32, Fin (2899192260119757 / 70368744177664)),
       (Fin (1275644594452693 / 35184372088832), Fin (3332663724254167 / 70368744177664))])
   \<and> py_truediv 64 2 = Inr (Fin 32)
   \<and> [(Fin (7566047373982433 / 140737488355328), Fin (5764607523034235 / 562949953421312)),
       (Fin (748723438050345 / 17592186044416), Fin (5764607523034235 / 562949953421312)),
       (Fin 32, Fin (2899192260119757 / 70368744177664)),
       (Fin (1275644594452693 / 35184372088832), Fin (3332663724254167 / 70368744177664))]
     = map (reflect (Fin 32))
       [(Fin (5764607523034235 / 562949953421312), Fin (5764607523034235 / 562949953421312)),
       (Fin (377176468792279 / 17592186044416), Fin (5764607523034235 / 562949953421312)),
       (Fin 32, Fin (2899192260119757 / 70368744177664)),
       (Fin (976155219232555 / 35184372088832), Fin (3332663724254167 / 70368744177664))]"
proof -
  have c: "py_truediv 64 2 = Inr (Fin 32)" by (simp add: float_eval)
  from draw_v_right_arm_mirrors_left [OF v_arms_64, of "New RGBA 64 64 (Rgba 0 0 0 0)" WHITE] c
  show ?thesis using v_arms_64 by simp
qed


section \<open>Scaling of the glyph with the canvas size\<close>

text \<open>
  Claim C2, as stated, fails. The icon script draws the 16-pixel icon on a canvas of 64
  and the 48-pixel icon on a canvas of 192, three times as large. The inner apex of the
  left arm has \<open>y = 41.2\<close> at 64 and \<open>y = 123.6\<close> at 192, but three times the float
  \<open>41.2\<close> is \<open>123.60000000000001\<close>, whether the product is taken exactly or in float
  arithmetic. The favicon polygon at 16 and 48 differs in the same way
  (\<open>10.608\<close> and \<open>31.823999999999998\<close>).
\<close>

theorem exact_scaling_counterexample:
  "v_arms 64 = Inr
     ([(Fin (5764607523034235 / 562949953421312), Fin (5764607523034235 / 562949953421312)),
       (Fin (377176468792279 / 17592186044416), Fin (5764607523034235 / 562949953421312)),
       (Fin 32, Fin (2899192260119757 / 70368744177664)),
       (Fin (976155219232555 / 35184372088832), Fin (3332663724254167 / 70368744177664))],
      [(Fin (7566047373982433 / 140737488355328), Fin (5764607523034235 / 562949953421312)),
       (Fin (748723438050345 / 17592186044416), Fin (5764607523034235 / 562949953421312)),
       (Fin 32, Fin (2899192260119757 / 70368744177664)),
       (Fin (1275644594452693 / 35184372088832), Fin (3332663724254167 / 70368744177664))])
   \<and> v_arms 192 = Inr
     ([(Fin (1080863910568919 / 35184372088832), Fin (1080863910568919 / 35184372088832)),
       (Fin (1131529406376837 / 17592186044416), Fin (1080863910568919 / 35184372088832)),
       (Fin 96, Fin (4348788390179635 / 35184372088832)),
       (Fin (2928465657697665 / 35184372088832), Fin (2499497793190625 / 17592186044416))],
      [(Fin (5674535530486825 / 35184372088832), Fin (1080863910568919 / 35184372088832)),
       (Fin (2246170314151035 / 17592186044416), Fin (1080863910568919 / 35184372088832)),
       (Fin 96, Fin (4348788390179635 / 35184372088832)),
       (Fin (3826933783358079 / 35184372088832), Fin (2499497793190625 / 17592186044416))])
   \<and> py_truediv 192 64 = Inr (Fin 3)
   \<and> fst (projr (v_arms 192)) \<noteq> map (scale_exact (192 / 64)) (fst (projr (v_arms 64)))
   \<and> fst (projr (v_arms 192)) \<noteq> map (scale_float (Fin 3)) (fst (projr (v_arms 64)))
   \<and> snd (projr (v_arms 192)) \<noteq> map (scale_exact (192 / 64)) (snd (projr (v_arms 64)))
   \<and> snd (projr (v_arms 192)) \<noteq> map (scale_float (Fin 3)) (snd (projr (v_arms 64)))
   \<and> fst (projr (favicon_polys 16)) =
     [(Fin (3242591731706757 / 1125899906842624), Fin (7926335344172073 / 2251799813685248)),
      (Fin (3494793310839505 / 562949953421312), Fin (7926335344172073 / 2251799813685248)),
      (Fin 8, Fin (2985886552946639 / 281474976710656)),
      (Fin (344525371493843 / 35184372088832), Fin (7926335344172073 / 2251799813685248)),
      (Fin (3692951694443807 / 281474976710656), Fin (7926335344172073 / 2251799813685248)),
      (Fin 8, Fin (3512807709348987 / 281474976710656))]
   \<and> fst (projr (favicon_polys 48)) =
     [(Fin (607985949695017 / 70368744177664), Fin (5944751508129055 / 562949953421312)),
      (Fin (2621094983129629 / 140737488355328), Fin (5944751508129055 / 562949953421312)),
      (Fin 24, Fin (2239414914709979 / 70368744177664)),
      (Fin (4134304457926115 / 140737488355328), Fin (5944751508129055 / 562949953421312)),
      (Fin (2769713770832855 / 70368744177664), Fin (5944751508129055 / 562949953421312)),
      (Fin 24, Fin (658651445502935 / 17592186044416))]
   \<and> py_truediv 48 16 = Inr (Fin 3)
   \<and> fst (projr (favicon_polys 48)) \<noteq> map (scale_exact (48 / 16)) (fst (projr (favicon_polys 16)))
   \<and> fst (projr (favicon_polys 48)) \<noteq> map (scale_float (Fin 3)) (fst (projr (favicon_polys 16)))"
  by (simp add: v_arms_64 v_arms_192 favicon_polys_16 favicon_polys_48 scale_exact_def
        scale_float_def float_eval)

text \<open>
  Claim C2, amended. For all positive sizes \<open>S1\<close> and \<open>S2\<close> for which the polygons are
  computed, every coordinate for \<open>S2\<close> equals the coordinate for \<open>S1\<close> multiplied by
  \<open>S2 / S1\<close> up to rounding: the two differ by at most \<open>2 * S2 / 10 ^ 15\<close>. This
  holds because every coordinate is within \<open>S / 10 ^ 15\<close> of \<open>S\<close> times a fixed constant.
\<close>

theorem glyph_scales_up_to_rounding:
  assumes "1 \<le> S1" and "1 \<le> S2"
  shows "(v_arms S1 = Inr (l1, r1) \<and> v_arms S2 = Inr (l2, r2)
            \<longrightarrow> scaled_approx S1 S2 l1 l2 \<and> scaled_approx S1 S2 r1 r2
                \<and> points_near S2 icon_left_consts l2 \<and> points_near S2 icon_right_consts r2)
       \<and> (favicon_polys S1 = Inr (p1, h1) \<and> favicon_polys S2 = Inr (p2, h2)
            \<longrightarrow> scaled_approx S1 S2 p1 p2 \<and> points_near S2 favicon_consts p2)"
proof (intro conjI impI)
  assume a: "v_arms S1 = Inr (l1, r1) \<and> v_arms S2 = Inr (l2, r2)"
  from a v_arms_float obtain s1 s2
    where s: "float_of_int S1 = Inr (Fin s1)" "float_of_int S2 = Inr (Fin s2)" by blast
  note n1 = v_arms_near [OF assms(1) s(1) conjunct1 [OF a]]
  note n2 = v_arms_near [OF assms(2) s(2) conjunct2 [OF a]]
  show "scaled_approx S1 S2 l1 l2"
    by (rule points_near_scaled [OF assms conjunct1 [OF n1] conjunct1 [OF n2]])
  show "scaled_approx S1 S2 r1 r2"
    by (rule points_near_scaled [OF assms conjunct2 [OF n1] conjunct2 [OF n2]])
  show "points_near S2 icon_left_consts l2" by (rule conjunct1 [OF n2])
  show "points_near S2 icon_right_consts r2" by (rule conjunct2 [OF n2])
next
  assume a: "favicon_polys S1 = Inr (p1, h1) \<and> favicon_polys S2 = Inr (p2, h2)"
  from a favicon_polys_float obtain s1 s2
    where s: "float_of_int S1 = Inr (Fin s1)" "float_of_int S2 = Inr (Fin s2)" by blast
  note n1 = favicon_polys_near [OF assms(1) s(1) conjunct1 [OF a]]
  note n2 = favicon_polys_near [OF assms(2) s(2) conjunct2 [OF a]]
  show "scaled_approx S1 S2 p1 p2"
    by (rule points_near_scaled [OF assms conjunct1 [OF n1] conjunct1 [OF n2]])
  show "points_near S2 favicon_consts p2" by (rule conjunct1 [OF n2])
qed

theorem glyph_scales_up_to_rounding_witness:
  "(1::int) \<le> 64 \<and> (1::int) \<le> 192
   \<and> v_arms 64 = Inr
     ([(Fin (5764607523034235 / 562949953421312), Fin (5764607523034235 / 562949953421312)),
       (Fin (377176468792279 / 17592186044416), Fin (5764607523034235 / 562949953421312)),
       (Fin 32, Fin (2899192260119757 / 70368744177664)),
       (Fin (976155219232555 / 35184372088832), Fin (3332663724254167 / 70368744177664))],
      [(Fin (7566047373982433 / 140737488355328), Fin (5764607523034235 / 562949953421312)),
       (Fin (748723438050345 / 17592186044416), Fin (5764607523034235 / 562949953421312)),
       (Fin 32, Fin (2899192260119757 / 70368744177664)),
       (Fin (1275644594452693 / 35184372088832), Fin (3332663724254167 / 70368744177664))])
   \<and> v_arms 192 = Inr
     ([(Fin (1080863910568919 / 35184372088832), Fin (1080863910568919 / 35184372088832)),
       (Fin (1131529406376837 / 17592186044416), Fin (1080863910568919 / 35184372088832)),
       (Fin 96, Fin (4348788390179635 / 35184372088832)),
       (Fin (2928465657697665 / 35184372088832), Fin (2499497793190625 / 17592186044416))],
      [(Fin (5674535530486825 / 35184372088832), Fin (1080863910568919 / 35184372088832)),
       (Fin (2246170314151035 / 17592186044416), Fin (1080863910568919 / 35184372088832)),
       (Fin 96, Fin (4348788390179635 / 35184372088832)),
       (Fin (3826933783358079 / 35184372088832), Fin (2499497793190625 / 17592186044416))])
   \<and> scaled_approx 64 192 (fst (projr (v_arms 64))) (fst (projr (v_arms 192)))
   \<and> scaled_approx 64 192 (snd (projr (v_arms 64))) (snd (projr (v_arms 192)))
   \<and> points_near 192 icon_left_consts (fst (projr (v_arms 192)))
   \<and> points_near 192 icon_right_consts (snd (projr (v_arms 192)))"
  using glyph_scales_up_to_rounding [of 64 192
      "fst (projr (v_arms 64))" "snd (projr (v_arms 64))"
      "fst (projr (v_arms 192))" "snd (projr (v_arms 192))"]
    v_arms_64 v_arms_192
  by simp


section \<open>The glyph stays within the canvas\<close>

text \<open>
  Claim C10. For every positive canvas size, every vertex \<open>(x, y)\<close> of every polygon of
  the glyph, in the icon variant and in the favicon variant, is finite and satisfies
  \<open>0 \<le> x \<le> sz\<close> and \<open>0 \<le> y \<le> sz\<close>. The polygons are computed for every size up to
  \<open>2 ^ 1023\<close>; a size too large for a float makes the first product raise OverflowError.
\<close>

theorem glyph_vertices_in_canvas:
  assumes "1 \<le> sz"
  shows "(sz \<le> 2 ^ 1023 \<longrightarrow> (\<exists>l r. v_arms sz = Inr (l, r)) \<and> (\<exists>p h. favicon_polys sz = Inr (p, h)))
       \<and> (v_arms sz = Inr (left_arm, right_arm)
            \<longrightarrow> (\<forall>p \<in> set (left_arm @ right_arm). in_canvas sz p))
       \<and> (favicon_polys sz = Inr (v_poly, right_half)
            \<longrightarrow> (\<forall>p \<in> set (v_poly @ right_half). in_canvas sz p))"
proof (intro conjI impI)
  assume "sz \<le> 2 ^ 1023"
  with assms have "\<bar>sz\<bar> \<le> 2 ^ 1023" by simp
  from float_of_int_total [OF this] obtain s where s: "float_of_int sz = Inr (Fin s)" by blast
  show "\<exists>l r. v_arms sz = Inr (l, r)" using s by (rule v_arms_total)
  show "\<exists>p h. favicon_polys sz = Inr (p, h)" using s by (rule favicon_polys_total)
next
  assume a: "v_arms sz = Inr (left_arm, right_arm)"
  from v_arms_float [OF a] obtain s where s: "float_of_int sz = Inr (Fin s)" by blast
  note n = v_arms_near [OF assms s a]
  have "\<forall>p \<in> set left_arm. in_canvas sz p"
    by (rule points_near_in_canvas [OF assms conjunct1 [OF n]]) (simp add: icon_left_consts_def)
  moreover have "\<forall>p \<in> set right_arm. in_canvas sz p"
    by (rule points_near_in_canvas [OF assms conjunct2 [OF n]]) (simp add: icon_right_consts_def)
  ultimately show "\<forall>p \<in> set (left_arm @ right_arm). in_canvas sz p" by auto
next
  assume a: "favicon_polys sz = Inr (v_poly, right_half)"
  from favicon_polys_float [OF a] obtain s where s: "float_of_int sz = Inr (Fin s)" by blast
  note n = favicon_polys_near [OF assms s a]
  have "\<forall>p \<in> set v_poly. in_canvas sz p"
    by (rule points_near_in_canvas [OF assms conjunct1 [OF n]]) (simp add: favicon_consts_def)
  moreover have "\<forall>p \<in> set right_half. in_canvas sz p"
    by (rule points_near_in_canvas [OF assms conjunct2 [OF n]]) (simp add: right_half_consts_def)
  ultimately show "\<forall>p \<in> set (v_poly @ right_half). in_canvas sz p" by auto
qed



theorem glyph_vertices_in_canvas_witness:
  "(1::int) \<le> 64
   \<and> v_arms 64 = Inr
     ([(Fin (5764607523034235 / 562949953421312), Fin (5764607523034235 / 562949953421312)),
       (Fin (377176468792279 / 17592186044416), Fin (5764607523034235 / 562949953421312)),
       (Fin 32, Fin (2899192260119757 / 70368744177664)),
       (Fin (976155219232555 / 35184372088832), Fin (3332663724254167 / 70368744177664))],
      [(Fin (7566047373982433 / 140737488355328), Fin (5764607523034235 / 562949953421312)),
       (Fin (748723438050345 / 17592186044416), Fin (5764607523034235 / 562949953421312)),
       (Fin 32, Fin (2899192260119757 / 70368744177664)),
       (Fin (1275644594452693 / 35184372088832), Fin (3332663724254167 / 70368744177664))])
   \<and> favicon_polys 64 = Inr
     ([(Fin (3242591731706757 / 281474976710656), Fin (7926335344172073 / 562949953421312)),
       (Fin (3494793310839505 / 140737488355328), Fin (7926335344172073 / 562949953421312)),
       (Fin 32, Fin (2985886552946639 / 70368744177664)),
       (Fin (344525371493843 / 8796093022208), Fin (7926335344172073 / 562949953421312)),
       (Fin (3692951694443807 / 70368744177664), Fin (7926335344172073 / 562949953421312)),
       (Fin 32, Fin (3512807709348987 / 70368744177664))],
      [(Fin 32, Fin (7926335344172073 / 562949953421312)),
       (Fin (344525371493843 / 8796093022208), Fin (7926335344172073 / 562949953421312)),
       (Fin (3692951694443807 / 70368744177664), Fin (7926335344172073 / 562949953421312)),
       (Fin 32, Fin (3512807709348987 / 70368744177664))])
   \<and> list_all (in_canvas 64) (fst (projr (v_arms 64)) @ snd (projr (v_arms 64)))
   \<and> list_all (in_canvas 64)
         (fst (projr (favicon_polys 64)) @ snd (projr (favicon_polys 64)))"
  using glyph_vertices_in_canvas [of 64
      "fst (projr (v_arms 64))" "snd (projr (v_arms 64))"
      "fst (projr (favicon_polys 64))" "snd (projr (favicon_polys 64))"]
    v_arms_64 favicon_polys_64
  by (simp add: list_all_iff)

section \<open>The rows of the gradient\<close>

text \<open>
  Claim C3. For every size \<open>S \<ge> 2\<close> and 8-bit colours \<open>top_rgb\<close> and \<open>bot_rgb\<close>,
  \<^verbatim>\<open>vertical_gradient\<close> returns an \<open>S\<close> by \<open>S\<close> image in which every pixel of row \<open>y\<close>
  has, in each channel, the value \<^verbatim>\<open>int(top_c + (bot_c - top_c) * t)\<close> with
  \<^verbatim>\<open>t = y / (S - 1)\<close>, computed in float arithmetic as the source does. The value does
  not depend on the column, so all pixels of a row are equal; row \<open>0\<close> is \<open>top_rgb\<close>
  exactly and row \<open>S - 1\<close> is \<open>bot_rgb\<close> exactly.
\<close>

theorem vertical_gradient_rows:
  assumes "2 \<le> S" and "rgb8 top_rgb" and "rgb8 bot_rgb"
  shows "\<exists>img. vertical_gradient S top_rgb bot_rgb = Inr img
           \<and> canvas_size img = (S, S)
           \<and> (\<forall>x y. get_pixel img x y =
                  (if 0 \<le> x \<and> x < S \<and> 0 \<le> y \<and> y < S
                   then Some (row_colour S top_rgb bot_rgb y) else None))
           \<and> row_colour S top_rgb bot_rgb 0 = rgb top_rgb
           \<and> row_colour S top_rgb bot_rgb (S - 1) = rgb bot_rgb"
proof -
  have ys: "\<forall>y \<in> set (range S). 0 \<le> y \<and> y < S" by (simp add: range_set)
  from gradient_rows_pixels [OF assms ys, of "New RGB S S (Rgb 0 0 0)"]
  obtain img where g: "vertical_gradient S top_rgb bot_rgb = Inr img"
    and sz: "canvas_size img = (S, S)"
    and px: "\<forall>x y. get_pixel img x y =
               (if y \<in> set (range S) \<and> 0 \<le> x \<and> x < S then Some (row_colour S top_rgb bot_rgb y)
                else get_pixel (New RGB S S (Rgb 0 0 0)) x y)"
    unfolding vertical_gradient_def by auto
  have p: "\<forall>x y. get_pixel img x y =
                  (if 0 \<le> x \<and> x < S \<and> 0 \<le> y \<and> y < S
                   then Some (row_colour S top_rgb bot_rgb y) else None)"
    using px by (auto simp: range_set)
  obtain tr tg tb where tt: "top_rgb = (tr, tg, tb)" by (cases top_rgb) auto
  obtain br bg bb where bt: "bot_rgb = (br, bg, bb)" by (cases bot_rgb) auto
  from assms(2,3) have c: "0 \<le> tr" "tr \<le> 255" "0 \<le> tg" "tg \<le> 255" "0 \<le> tb" "tb \<le> 255"
    "0 \<le> br" "br \<le> 255" "0 \<le> bg" "bg \<le> 255" "0 \<le> bb" "bb \<le> 255"
    unfolding rgb8_def tt bt by simp_all
  have t0: "row_colour S top_rgb bot_rgb 0 = rgb top_rgb"
    unfolding row_colour_def rgb_def tt bt using c
    by (simp add: gradient_value_top)
  have S1: "S \<noteq> 1" using assms(1) by simp
  have b0: "row_colour S top_rgb bot_rgb (S - 1) = rgb bot_rgb"
    unfolding row_colour_def rgb_def tt bt using c
    by (simp add: gradient_value_bottom [OF S1])
  from g sz p t0 b0 show ?thesis by blast
qed

text \<open>
  The 3 by 3 gradient between the two brand colours: the middle row is
  \<open>(83, 79, 221)\<close>, where \<open>241 + (202 - 241) * 0.5 = 221.5\<close> is truncated.
\<close>

lemma gradient_3: "gradient_value 3 99 67 1 = 83 \<and> gradient_value 3 102 56 1 = 79
    \<and> gradient_value 3 241 202 1 = 221"
  by (simp add: gradient_value_def truncate_def float_eval)

theorem vertical_gradient_rows_witness:
  "(2::int) \<le> 3 \<and> rgb8 INDIGO_TOP \<and> rgb8 INDIGO_BOTTOM
   \<and> canvas_size (projr (vertical_gradient 3 INDIGO_TOP INDIGO_BOTTOM)) = (3, 3)
   \<and> get_pixel (projr (vertical_gradient 3 INDIGO_TOP INDIGO_BOTTOM)) 2 0 = Some (Rgb 99 102 241)
   \<and> get_pixel (projr (vertical_gradient 3 INDIGO_TOP INDIGO_BOTTOM)) 0 1 = Some (Rgb 83 79 221)
   \<and> get_pixel (projr (vertical_gradient 3 INDIGO_TOP INDIGO_BOTTOM)) 1 2 = Some (Rgb 67 56 202)
   \<and> get_pixel (projr (vertical_gradient 3 INDIGO_TOP INDIGO_BOTTOM)) 3 0 = None"
proof -
  have h: "(2::int) \<le> 3" "rgb8 INDIGO_TOP" "rgb8 INDIGO_BOTTOM"
    by (simp_all add: rgb8_def INDIGO_TOP_def INDIGO_BOTTOM_def)
  from vertical_gradient_rows [OF h] obtain img
    where "vertical_gradient 3 INDIGO_TOP INDIGO_BOTTOM = Inr img"
      and "canvas_size img = (3, 3)"
      and "\<forall>x y. get_pixel img x y =
                  (if 0 \<le> x \<and> x < 3 \<and> 0 \<le> y \<and> y < 3
                   then Some (row_colour 3 INDIGO_TOP INDIGO_BOTTOM y) else None)"
      and "row_colour 3 INDIGO_TOP INDIGO_BOTTOM 0 = rgb INDIGO_TOP"
      and "row_colour 3 INDIGO_TOP INDIGO_BOTTOM (3 - 1) = rgb INDIGO_BOTTOM"
    by blast
  moreover have "row_colour 3 INDIGO_TOP INDIGO_BOTTOM 1 = Rgb 83 79 221"
    using gradient_3 by (simp add: row_colour_def INDIGO_TOP_def INDIGO_BOTTOM_def)
  ultimately show ?thesis using h by (simp add: rgb_def INDIGO_TOP_def INDIGO_BOTTOM_def)
qed
section \<open>Supersampling\<close>

text \<open>
  Claim C4. For every requested size \<open>sz \<ge> 1\<close>, whenever \<^verbatim>\<open>make_icon\<close> returns, it has
  done all its drawing at \<open>sz * 4\<close> and resampled once at the end. The background is
  the gradient of \<^verbatim>\<open>vertical_gradient\<close> at \<open>sz * 4\<close>, pasted onto a transparent canvas
  of \<open>sz * 4\<close> by \<open>sz * 4\<close> through the rounded-rectangle mask of the same size (radius
  at least 1); the glyph is the two polygons of \<^verbatim>\<open>draw_v\<close> at \<open>sz * 4\<close>, filled in white
  on a second transparent canvas of that size; the glyph layer is alpha-composited over
  the background. The result is one LANCZOS resize of this composite to \<open>sz\<close> by \<open>sz\<close>:
  every image under it is allocated at \<open>sz * 4\<close> and nothing is resampled before the
  final step, so the returned canvas is \<open>sz\<close> by \<open>sz\<close>.

  The favicon is the rounded background, the four highlight passes, the glyph polygon
  and the composited right-half overlay, all on images of \<open>sz\<close> by \<open>sz\<close>; it is never
  resized.

  The library calls are recorded, not executed, so that a function returns means here
  that none of the computations of the script itself raises: the conversions of the size
  to a float, the float arithmetic, the division of the gradient, and \<^verbatim>\<open>int()\<close>. This is
  the case for every size up to \<open>2 ^ 1021\<close>; beyond the range of a float the conversion
  of the size raises OverflowError.
\<close>

theorem make_icon_supersamples:
  assumes "1 \<le> sz"
  shows "(sz \<le> 2 ^ 1021 \<longrightarrow> (\<exists>icon. make_icon sz = Inr icon) \<and> (\<exists>img. make_vaulty_favicon sz = Inr img))
       \<and> (make_icon sz = Inr icon \<longrightarrow>
            (\<exists>bg msk r left_arm right_arm base.
               vertical_gradient (sz * 4) INDIGO_TOP INDIGO_BOTTOM = Inr bg
               \<and> canvas_size bg = (sz * 4, sz * 4)
               \<and> rounded_rect_mask (sz * 4) (lit (22 / 100)) = Inr msk
               \<and> msk = RoundedRectangle (New L (sz * 4) (sz * 4) (Grey 0))
                         (0, 0, sz * 4 - 1, sz * 4 - 1) r (Some (Grey 255)) None 1
               \<and> 1 \<le> r
               \<and> v_arms (sz * 4) = Inr (left_arm, right_arm)
               \<and> base = AlphaComposite
                          (Paste (New RGBA (sz * 4) (sz * 4) (Rgba 0 0 0 0)) bg msk)
                          (Polygon
                             (Polygon (New RGBA (sz * 4) (sz * 4) (Rgba 0 0 0 0)) left_arm WHITE)
                             right_arm WHITE)
               \<and> icon = Resize base sz sz LANCZOS
               \<and> canvas_size base = (sz * 4, sz * 4)
               \<and> allocated base = {(sz * 4, sz * 4)}
               \<and> resizes base = 0)
            \<and> canvas_size icon = (sz, sz) \<and> resizes icon = 1)
       \<and> (make_vaulty_favicon sz = Inr img \<longrightarrow>
            (\<exists>v_poly right_half.
               favicon_polys sz = Inr (v_poly, right_half)
               \<and> img = AlphaComposite
                       (Polygon
                          (highlight_ring sz (sz div 5)
                             (RoundedRectangle (New RGBA sz sz (Rgba 0 0 0 0))
                                (0, 0, sz - 1, sz - 1) (sz div 5) (Some (Rgb 15 23 42)) None 1)
                             (range 4))
                          v_poly (Rgb 99 102 241))
                       (Polygon (New RGBA sz sz (Rgba 0 0 0 0)) right_half (Rgba 139 92 246 200)))
            \<and> canvas_size img = (sz, sz) \<and> allocated img = {(sz, sz)} \<and> resizes img = 0)"
proof (intro conjI impI)
  assume b: "sz \<le> 2 ^ 1021"
  show "\<exists>icon. make_icon sz = Inr icon" using assms b by (rule make_icon_total)
  have "(2::int) ^ 1021 \<le> 2 ^ 1023" by simp
  with assms b have "\<bar>sz\<bar> \<le> 2 ^ 1023" by linarith
  then show "\<exists>img. make_vaulty_favicon sz = Inr img" by (rule make_vaulty_favicon_total)
next
  assume a: "make_icon sz = Inr icon"
  from make_icon_parts [OF a] obtain bg msk left_arm right_arm
    where g: "vertical_gradient (sz * 4) INDIGO_TOP INDIGO_BOTTOM = Inr bg"
      and m: "rounded_rect_mask (sz * 4) (lit (22 / 100)) = Inr msk"
      and v: "v_arms (sz * 4) = Inr (left_arm, right_arm)"
      and icon: "icon = Resize
                 (AlphaComposite
                    (Paste (New RGBA (sz * 4) (sz * 4) (Rgba 0 0 0 0)) bg msk)
                    (Polygon (Polygon (New RGBA (sz * 4) (sz * 4) (Rgba 0 0 0 0)) left_arm WHITE)
                       right_arm WHITE))
                 sz sz LANCZOS"
    by blast
  have S: "2 \<le> sz * 4" using assms by simp
  from vertical_gradient_canvas [OF S rgb8_INDIGO] g
  have bg: "canvas_size bg = (sz * 4, sz * 4)" "resizes bg = 0" "allocated bg = {(sz * 4, sz * 4)}"
    by simp_all
  from rounded_rect_mask_radius [OF m] obtain k
    where msk: "msk = RoundedRectangle (New L (sz * 4) (sz * 4) (Grey 0))
                        (0, 0, sz * 4 - 1, sz * 4 - 1) (max 1 k) (Some (Grey 255)) None 1"
    by blast
  have r: "1 \<le> max 1 k" by simp
  define base where "base = AlphaComposite
                          (Paste (New RGBA (sz * 4) (sz * 4) (Rgba 0 0 0 0)) bg msk)
                          (Polygon
                             (Polygon (New RGBA (sz * 4) (sz * 4) (Rgba 0 0 0 0)) left_arm WHITE)
                             right_arm WHITE)"
  have i: "icon = Resize base sz sz LANCZOS" unfolding icon base_def ..
  have c: "canvas_size base = (sz * 4, sz * 4)" unfolding base_def by simp
  have al: "allocated base = {(sz * 4, sz * 4)}" unfolding base_def msk using bg by simp
  have rs: "resizes base = 0" unfolding base_def msk using bg by simp
  show "\<exists>bg msk r left_arm right_arm base.
               vertical_gradient (sz * 4) INDIGO_TOP INDIGO_BOTTOM = Inr bg
               \<and> canvas_size bg = (sz * 4, sz * 4)
               \<and> rounded_rect_mask (sz * 4) (lit (22 / 100)) = Inr msk
               \<and> msk = RoundedRectangle (New L (sz * 4) (sz * 4) (Grey 0))
                         (0, 0, sz * 4 - 1, sz * 4 - 1) r (Some (Grey 255)) None 1
               \<and> 1 \<le> r
               \<and> v_arms (sz * 4) = Inr (left_arm, right_arm)
               \<and> base = AlphaComposite
                          (Paste (New RGBA (sz * 4) (sz * 4) (Rgba 0 0 0 0)) bg msk)
                          (Polygon
                             (Polygon (New RGBA (sz * 4) (sz * 4) (Rgba 0 0 0 0)) left_arm WHITE)
                             right_arm WHITE)
               \<and> icon = Resize base sz sz LANCZOS
               \<and> canvas_size base = (sz * 4, sz * 4)
               \<and> allocated base = {(sz * 4, sz * 4)}
               \<and> resizes base = 0"
    using g bg(1) m msk r v base_def i c al rs by blast
  show "canvas_size icon = (sz, sz)" unfolding i by simp
  show "resizes icon = 1" unfolding i using rs by simp
next
  assume a: "make_vaulty_favicon sz = Inr img"
  from make_vaulty_favicon_parts [OF a]
  show "\<exists>v_poly right_half.
               favicon_polys sz = Inr (v_poly, right_half)
               \<and> img = AlphaComposite
                       (Polygon
                          (highlight_ring sz (sz div 5)
                             (RoundedRectangle (New RGBA sz sz (Rgba 0 0 0 0))
                                (0, 0, sz - 1, sz - 1) (sz div 5) (Some (Rgb 15 23 42)) None 1)
                             (range 4))
                          v_poly (Rgb 99 102 241))
                       (Polygon (New RGBA sz sz (Rgba 0 0 0 0)) right_half (Rgba 139 92 246 200))" .
  from make_vaulty_favicon_Inr [OF a]
  show "canvas_size img = (sz, sz)" "allocated img = {(sz, sz)}" "resizes img = 0" by simp_all
qed

text \<open>
  The 16-pixel icon is drawn at 64 by 64, where the radius of the mask is
  \<^verbatim>\<open>int(64 * 0.22)\<close>, that is 14; the 16-pixel favicon is drawn at 16 by 16 with the
  radius \<open>16 div 5 = 3\<close>.
\<close>

theorem make_icon_supersamples_witness:
  "(1::int) \<le> 16 \<and> (16::int) \<le> 2 ^ 1021
   \<and> \<not> isl (make_icon 16) \<and> \<not> isl (make_vaulty_favicon 16)
   \<and> projr (make_icon 16)
       = Resize
           (AlphaComposite
              (Paste (New RGBA 64 64 (Rgba 0 0 0 0))
                 (projr (vertical_gradient 64 INDIGO_TOP INDIGO_BOTTOM))
                 (RoundedRectangle (New L 64 64 (Grey 0)) (0, 0, 63, 63) 14
                    (Some (Grey 255)) None 1))
              (Polygon
                 (Polygon (New RGBA 64 64 (Rgba 0 0 0 0)) (fst (projr (v_arms 64))) WHITE)
                 (snd (projr (v_arms 64))) WHITE))
           16 16 LANCZOS
   \<and> canvas_size (projr (make_icon 16)) = (16, 16)
   \<and> resizes (projr (make_icon 16)) = 1
   \<and> projr (make_vaulty_favicon 16)
       = AlphaComposite
           (Polygon
              (highlight_ring 16 3
                 (RoundedRectangle (New RGBA 16 16 (Rgba 0 0 0 0)) (0, 0, 15, 15) 3
                    (Some (Rgb 15 23 42)) None 1)
                 [0, 1, 2, 3])
              (fst (projr (favicon_polys 16))) (Rgb 99 102 241))
           (Polygon (New RGBA 16 16 (Rgba 0 0 0 0)) (snd (projr (favicon_polys 16)))
              (Rgba 139 92 246 200))
   \<and> canvas_size (projr (make_vaulty_favicon 16)) = (16, 16)
   \<and> allocated (projr (make_vaulty_favicon 16)) = {(16, 16)}
   \<and> resizes (projr (make_vaulty_favicon 16)) = 0"
proof -
  have h: "(1::int) \<le> 16" "(16::int) \<le> 2 ^ 1021" by simp_all
  from make_icon_supersamples [OF h(1), of "projr (make_icon 16)" "projr (make_vaulty_favicon 16)"] h(2)
  obtain icon img where i: "make_icon 16 = Inr icon" and f: "make_vaulty_favicon 16 = Inr img"
    by blast
  note t = make_icon_supersamples [OF h(1), of icon img]
  from t i obtain bg msk left_arm right_arm
    where g: "vertical_gradient (16 * 4) INDIGO_TOP INDIGO_BOTTOM = Inr bg"
      and m: "rounded_rect_mask (16 * 4) (lit (22 / 100)) = Inr msk"
      and v: "v_arms (16 * 4) = Inr (left_arm, right_arm)"
      and ic: "icon = Resize
                 (AlphaComposite
                    (Paste (New RGBA (16 * 4) (16 * 4) (Rgba 0 0 0 0)) bg msk)
                    (Polygon (Polygon (New RGBA (16 * 4) (16 * 4) (Rgba 0 0 0 0)) left_arm WHITE)
                       right_arm WHITE))
                 16 16 LANCZOS"
    by blast
  from t i have s: "canvas_size icon = (16, 16)" "resizes icon = 1" by blast+
  from t f obtain v_poly right_half
    where p: "favicon_polys 16 = Inr (v_poly, right_half)"
      and im: "img = AlphaComposite
                       (Polygon
                          (highlight_ring 16 (16 div 5)
                             (RoundedRectangle (New RGBA 16 16 (Rgba 0 0 0 0))
                                (0, 0, 16 - 1, 16 - 1) (16 div 5) (Some (Rgb 15 23 42)) None 1)
                             (range 4))
                          v_poly (Rgb 99 102 241))
                       (Polygon (New RGBA 16 16 (Rgba 0 0 0 0)) right_half (Rgba 139 92 246 200))"
    by blast
  from t f have fs: "canvas_size img = (16, 16)" "allocated img = {(16, 16)}" "resizes img = 0"
    by blast+
  have g': "vertical_gradient 64 INDIGO_TOP INDIGO_BOTTOM = Inr bg" using g by simp
  have m': "msk = RoundedRectangle (New L 64 64 (Grey 0)) (0, 0, 63, 63) 14 (Some (Grey 255)) None 1"
    using m rounded_rect_mask_64 by simp
  have v': "v_arms 64 = Inr (left_arm, right_arm)" using v by simp
  have ic': "icon = Resize
           (AlphaComposite
              (Paste (New RGBA 64 64 (Rgba 0 0 0 0)) bg msk)
              (Polygon (Polygon (New RGBA 64 64 (Rgba 0 0 0 0)) left_arm WHITE) right_arm WHITE))
           16 16 LANCZOS"
    using ic by simp
  have d: "(16::int) div 5 = 3" "(16::int) - 1 = 15" by simp_all
  have e1: "projr (make_icon 16) = icon" "\<not> isl (make_icon 16)" using i by simp_all
  have e2: "projr (make_vaulty_favicon 16) = img" "\<not> isl (make_vaulty_favicon 16)" using f by simp_all
  have e3: "projr (vertical_gradient 64 INDIGO_TOP INDIGO_BOTTOM) = bg" using g' by simp
  have e4: "fst (projr (v_arms 64)) = left_arm" "snd (projr (v_arms 64)) = right_arm"
    using v' by simp_all
  have e5: "fst (projr (favicon_polys 16)) = v_poly" "snd (projr (favicon_polys 16)) = right_half"
    using p by simp_all
  have im': "img = AlphaComposite
           (Polygon
              (highlight_ring 16 3
                 (RoundedRectangle (New RGBA 16 16 (Rgba 0 0 0 0)) (0, 0, 15, 15) 3
                    (Some (Rgb 15 23 42)) None 1)
                 [0, 1, 2, 3])
              v_poly (Rgb 99 102 241))
           (Polygon (New RGBA 16 16 (Rgba 0 0 0 0)) right_half (Rgba 139 92 246 200))"
    using im unfolding d range_4 .
  note ic'' = ic' [unfolded m']
  show ?thesis
    unfolding e1(1) e2(1) e3 e4 e5
    by (intro conjI h e1(2) e2(2) ic'' s im' fs)
qed


section \<open>The division by zero of the gradient\<close>

text \<open>
  Claim C9. \<^verbatim>\<open>vertical_gradient\<close> fails at size 1: the only row has
  \<^verbatim>\<open>t = 0 / (1 - 1)\<close>, which raises ZeroDivisionError, whatever the colours; no other
  size divides by zero. For every size \<open>S \<ge> 2\<close> and 8-bit colours it returns an
  \<open>S\<close> by \<open>S\<close> image. \<^verbatim>\<open>make_icon\<close> calls it with \<open>sz * 4\<close>, so for every requested
  size \<open>sz \<ge> 1\<close> the gradient call returns and \<^verbatim>\<open>make_icon\<close> never raises
  ZeroDivisionError.
\<close>

theorem vertical_gradient_fails_only_at_one:
  "vertical_gradient 1 top_rgb bot_rgb = Inl ZeroDivisionError
   \<and> (vertical_gradient S top_rgb bot_rgb = Inl ZeroDivisionError \<longleftrightarrow> S = 1)
   \<and> (2 \<le> S \<and> rgb8 top_rgb \<and> rgb8 bot_rgb
        \<longrightarrow> (\<exists>img. vertical_gradient S top_rgb bot_rgb = Inr img \<and> canvas_size img = (S, S)))
   \<and> (1 \<le> sz
        \<longrightarrow> (\<exists>img. vertical_gradient (sz * 4) INDIGO_TOP INDIGO_BOTTOM = Inr img)
            \<and> make_icon sz \<noteq> Inl ZeroDivisionError)"
proof (intro conjI impI)
  show "vertical_gradient 1 top_rgb bot_rgb = Inl ZeroDivisionError"
    by (rule vertical_gradient_1)
  show "vertical_gradient S top_rgb bot_rgb = Inl ZeroDivisionError \<longleftrightarrow> S = 1"
  proof
    assume "vertical_gradient S top_rgb bot_rgb = Inl ZeroDivisionError"
    then show "S = 1"
      using gradient_rows_no_zero_division
        [of S top_rgb bot_rgb "New RGB S S (Rgb 0 0 0)" "range S"]
      unfolding vertical_gradient_def by blast
  next
    assume "S = 1"
    then show "vertical_gradient S top_rgb bot_rgb = Inl ZeroDivisionError"
      using vertical_gradient_1 by simp
  qed
next
  assume "2 \<le> S \<and> rgb8 top_rgb \<and> rgb8 bot_rgb"
  then show "\<exists>img. vertical_gradient S top_rgb bot_rgb = Inr img \<and> canvas_size img = (S, S)"
    using vertical_gradient_canvas [of S top_rgb bot_rgb] by blast
next
  assume sz: "1 \<le> sz"
  then have S: "2 \<le> sz * 4" by simp
  from vertical_gradient_canvas [OF S rgb8_INDIGO]
  show g: "\<exists>img. vertical_gradient (sz * 4) INDIGO_TOP INDIGO_BOTTOM = Inr img" by blast
  show "make_icon sz \<noteq> Inl ZeroDivisionError"
    using g rounded_rect_mask_cases [of "sz * 4"]
      draw_v_cases [of "New RGBA (sz * 4) (sz * 4) (Rgba 0 0 0 0)" "sz * 4" WHITE]
    unfolding make_icon_def by (auto simp: Let_def)
qed

theorem vertical_gradient_fails_only_at_one_witness:
  "vertical_gradient 1 INDIGO_TOP INDIGO_BOTTOM = Inl ZeroDivisionError
   \<and> (2::int) \<le> 2 \<and> rgb8 INDIGO_TOP \<and> rgb8 INDIGO_BOTTOM
   \<and> \<not> isl (vertical_gradient 2 INDIGO_TOP INDIGO_BOTTOM)
   \<and> (1::int) \<le> 16
   \<and> \<not> isl (vertical_gradient (16 * 4) INDIGO_TOP INDIGO_BOTTOM)
   \<and> make_icon 16 \<noteq> Inl ZeroDivisionError"
  using vertical_gradient_fails_only_at_one [of INDIGO_TOP INDIGO_BOTTOM 2 16] rgb8_INDIGO
  by auto

section \<open>What an aborted run leaves behind\<close>

text \<open>
  Claim C5, as stated, fails. On a system that refuses to write
  \<^verbatim>\<open>extension/icons/icon-48.png\<close>, a run of the icon script that starts with no files
  ends with OSError at the third size, and the files of the first two sizes have been
  written: the loop saves each icon as soon as it is rendered and nothing removes a
  file afterwards.
\<close>

theorem partial_outputs_counterexample:
  "dom (files empty_world) = {}
   \<and> \<not> can_write refusing_icon_48 (icon_path 48)
   \<and> fst (generate_icon refusing_icon_48 empty_world) = Some OSError
   \<and> dom (files (snd (generate_icon refusing_icon_48 empty_world)))
       = {''extension/icons/icon-16.png'', ''extension/icons/icon-32.png''}"
proof -
  have tw: "takeWhile (writable refusing_icon_48) SIZES = [16, 32]"
    and la: "\<not> list_all (writable refusing_icon_48) SIZES"
    by (simp_all add: SIZES_def refusing_env)
  note r = generate_icon_result [of refusing_icon_48 empty_world]
  have "fst (generate_icon refusing_icon_48 empty_world) = Some OSError" using r la by simp
  moreover have "files (snd (generate_icon refusing_icon_48 empty_world))
                   = written [16, 32] (files empty_world)"
    using r tw refusing_env(1) by simp
  then have "dom (files (snd (generate_icon refusing_icon_48 empty_world)))
               = {''extension/icons/icon-16.png'', ''extension/icons/icon-32.png''}"
    by (simp add: dom_written empty_world_fields icon_paths insert_commute)
  moreover have "\<not> can_write refusing_icon_48 (icon_path 48)"
    using refusing_env(4) by (simp add: writable_def)
  ultimately show ?thesis by (simp add: empty_world_fields)
qed

text \<open>
  Claim C5, amended. A run of the icon script writes the sizes one at a time, in the
  order of the size list. If the output directory cannot be made, nothing is written.
  Otherwise the run ends without error when every size can be written, and with
  OSError at the first size whose write fails; the files written are exactly those of
  the sizes before that one, and they stay. Only a run of the favicon script, which
  writes a single file, leaves either its whole output or no file at all.
\<close>

theorem run_stops_at_first_failed_write:
  "fst (generate_icon env w)
     = (if can_mkdir env OUT_DIR \<and> list_all (writable env) SIZES then None else Some OSError)
   \<and> files (snd (generate_icon env w))
       = (if can_mkdir env OUT_DIR then written (takeWhile (writable env) SIZES) (files w)
          else files w)
   \<and> dom (files (snd (generate_icon env w)))
       = dom (files w)
         \<union> (if can_mkdir env OUT_DIR then icon_path ` set (takeWhile (writable env) SIZES) else {})
   \<and> fst (save_favicon env w path)
       = (if can_mkdir env (dirname path) \<and> can_write env path then None else Some OSError)
   \<and> files (snd (save_favicon env w path))
       = (if can_mkdir env (dirname path) \<and> can_write env path
          then (files w)(path \<mapsto> ico (projr (make_vaulty_favicon 64)))
          else files w)"
  using generate_icon_result [of env w] save_favicon_result [of env w path]
  by (simp add: dom_written)

theorem run_stops_at_first_failed_write_witness:
  "takeWhile (writable refusing_icon_48) SIZES = [16, 32]
   \<and> fst (generate_icon refusing_icon_48 empty_world) = Some OSError
   \<and> files (snd (generate_icon refusing_icon_48 empty_world))
       = written [16, 32] (files empty_world)
   \<and> fst (save_favicon permissive empty_world ''web/app/favicon.ico'') = None
   \<and> dom (files (snd (save_favicon permissive empty_world ''web/app/favicon.ico'')))
       = {''web/app/favicon.ico''}"
proof -
  have tw: "takeWhile (writable refusing_icon_48) SIZES = [16, 32]"
    and la: "\<not> list_all (writable refusing_icon_48) SIZES"
    by (simp_all add: SIZES_def refusing_env)
  from run_stops_at_first_failed_write
    [of refusing_icon_48 empty_world "''web/app/favicon.ico''"]
    run_stops_at_first_failed_write [of permissive empty_world "''web/app/favicon.ico''"]
  show ?thesis using tw la by (simp add: refusing_env permissive_env empty_world_fields)
qed


section \<open>The favicon file\<close>

text \<open>
  Claim C6. Where the directory can be made and the file written, \<^verbatim>\<open>save_favicon\<close>
  renders one canvas, \<^verbatim>\<open>make_vaulty_favicon(64)\<close>, at the last and largest size of its
  list, and writes exactly one file: the path it was given, in ICO format, holding that
  64 by 64 canvas with the size list \<open>[(16, 16), (32, 32), (48, 48), (64, 64)]\<close> as the
  resolutions to embed. Deriving the smaller resolutions from the canvas is left to the
  writer of the imaging library.
\<close>

theorem save_favicon_single_file:
  assumes "can_mkdir env (dirname path)" and "can_write env path"
  shows "\<exists>largest.
           make_vaulty_favicon 64 = Inr largest
           \<and> canvas_size largest = (64, 64) \<and> allocated largest = {(64, 64)}
           \<and> resizes largest = 0
           \<and> fst (save_favicon env w path) = None
           \<and> files (snd (save_favicon env w path))
               = (files w)(path \<mapsto>
                    \<lparr>file_format = ICO, file_image = largest,
                      file_sizes = Some [(16, 16), (32, 32), (48, 48), (64, 64)]\<rparr>)
           \<and> stdout (snd (save_favicon env w path))
               = stdout w @ [FaviconSaved path, SizesEmbedded [16, 32, 48, 64]]"
proof -
  from favicon_64 obtain largest
    where l: "make_vaulty_favicon 64 = Inr largest" "canvas_size largest = (64, 64)"
      "allocated largest = {(64, 64)}" "resizes largest = 0"
    by blast
  from save_favicon_result [of env w path] assms l
  show ?thesis by (simp add: ico_def)
qed

theorem save_favicon_single_file_witness:
  "can_mkdir permissive (dirname ''web/app/favicon.ico'')
   \<and> can_write permissive ''web/app/favicon.ico''
   \<and> dirname ''web/app/favicon.ico'' = ''web/app''
   \<and> fst (save_favicon permissive empty_world ''web/app/favicon.ico'') = None
   \<and> dom (files (snd (save_favicon permissive empty_world ''web/app/favicon.ico'')))
       = {''web/app/favicon.ico''}
   \<and> map_option file_sizes
         (files (snd (save_favicon permissive empty_world ''web/app/favicon.ico''))
            ''web/app/favicon.ico'')
       = Some (Some [(16, 16), (32, 32), (48, 48), (64, 64)])
   \<and> map_option file_format
         (files (snd (save_favicon permissive empty_world ''web/app/favicon.ico''))
            ''web/app/favicon.ico'')
       = Some ICO"
proof -
  have h: "can_mkdir permissive (dirname ''web/app/favicon.ico'')"
    "can_write permissive ''web/app/favicon.ico''"
    by (simp_all add: permissive_env)
  from save_favicon_single_file [OF h, of empty_world] obtain largest
    where "fst (save_favicon permissive empty_world ''web/app/favicon.ico'') = None"
      and "files (snd (save_favicon permissive empty_world ''web/app/favicon.ico''))
               = (files empty_world)(''web/app/favicon.ico'' \<mapsto>
                    \<lparr>file_format = ICO, file_image = largest,
                      file_sizes = Some [(16, 16), (32, 32), (48, 48), (64, 64)]\<rparr>)"
    by blast
  moreover have "dirname ''web/app/favicon.ico'' = ''web/app''" by (simp add: dirname_def)
  ultimately show ?thesis using h by (simp add: empty_world_fields)
qed

section \<open>The icon files\<close>

text \<open>
  Claim C7. Where the directory can be made and every file written, the icon script
  goes through the sizes 16, 32, 48 and 128 in this order, renders \<^verbatim>\<open>make_icon(sz)\<close> for
  each, and writes it as a PNG file named \<^verbatim>\<open>icon-{sz}.png\<close> under
  \<^verbatim>\<open>extension/icons\<close>: four files with four different names, one per size, each
  holding the canvas rendered for its size.
\<close>

theorem generate_icon_writes_four_files:
  assumes "can_mkdir env OUT_DIR" and "list_all (writable env) SIZES"
  shows "SIZES = [16, 32, 48, 128]
       \<and> fst (generate_icon env w) = None
       \<and> (\<exists>i16 i32 i48 i128.
             make_icon 16 = Inr i16 \<and> make_icon 32 = Inr i32
             \<and> make_icon 48 = Inr i48 \<and> make_icon 128 = Inr i128
             \<and> files (snd (generate_icon env w))
                 = (files w)(''extension/icons/icon-16.png'' \<mapsto> png i16,
                             ''extension/icons/icon-32.png'' \<mapsto> png i32,
                             ''extension/icons/icon-48.png'' \<mapsto> png i48,
                             ''extension/icons/icon-128.png'' \<mapsto> png i128))
       \<and> stdout (snd (generate_icon env w))
           = stdout w @ [Wrote ''extension/icons/icon-16.png'' 16,
                         Wrote ''extension/icons/icon-32.png'' 32,
                         Wrote ''extension/icons/icon-48.png'' 48,
                         Wrote ''extension/icons/icon-128.png'' 128,
                         Done ''extension/icons'']
       \<and> dom (files (snd (generate_icon env w)))
           = dom (files w) \<union> {''extension/icons/icon-16.png'', ''extension/icons/icon-32.png'',
                                ''extension/icons/icon-48.png'', ''extension/icons/icon-128.png''}
       \<and> card {''extension/icons/icon-16.png'', ''extension/icons/icon-32.png'',
                 ''extension/icons/icon-48.png'', ''extension/icons/icon-128.png''} = 4"
proof -
  have tw: "takeWhile (writable env) SIZES = SIZES" using assms(2) by (simp add: list_all_iff)
  note r = generate_icon_result [of env w]
  have a: "fst (generate_icon env w) = None" using r assms by simp
  have f: "files (snd (generate_icon env w)) = written SIZES (files w)" using r assms(1) tw by simp
  have p: "stdout (snd (generate_icon env w))
             = stdout w @ map (\<lambda>sz. Wrote (icon_path sz) sz) SIZES @ [Done OUT_DIR]"
    using r assms tw by simp
  from SIZES_good make_icon_total obtain i16 i32 i48 i128
    where i: "make_icon 16 = Inr i16" "make_icon 32 = Inr i32" "make_icon 48 = Inr i48"
      "make_icon 128 = Inr i128"
    unfolding SIZES_def by force
  have w: "written SIZES (files w)
          = (files w)(''extension/icons/icon-16.png'' \<mapsto> png i16,
                      ''extension/icons/icon-32.png'' \<mapsto> png i32,
                      ''extension/icons/icon-48.png'' \<mapsto> png i48,
                      ''extension/icons/icon-128.png'' \<mapsto> png i128)"
    unfolding SIZES_def by (simp add: i icon_paths)
  have d: "dom (files (snd (generate_icon env w)))
           = dom (files w) \<union> {''extension/icons/icon-16.png'', ''extension/icons/icon-32.png'',
                                ''extension/icons/icon-48.png'', ''extension/icons/icon-128.png''}"
    unfolding f w by auto
  have c: "card {''extension/icons/icon-16.png'', ''extension/icons/icon-32.png'',
                 ''extension/icons/icon-48.png'', ''extension/icons/icon-128.png''} = 4"
    by simp
  have s: "SIZES = [16, 32, 48, 128]" by (simp add: SIZES_def)
  have p': "stdout (snd (generate_icon env w))
           = stdout w @ [Wrote ''extension/icons/icon-16.png'' 16,
                         Wrote ''extension/icons/icon-32.png'' 32,
                         Wrote ''extension/icons/icon-48.png'' 48,
                         Wrote ''extension/icons/icon-128.png'' 128,
                         Done ''extension/icons'']"
    unfolding p by (simp add: SIZES_def icon_paths OUT_DIR_def)
  from i f w have "\<exists>i16 i32 i48 i128.
             make_icon 16 = Inr i16 \<and> make_icon 32 = Inr i32
             \<and> make_icon 48 = Inr i48 \<and> make_icon 128 = Inr i128
             \<and> files (snd (generate_icon env w))
                 = (files w)(''extension/icons/icon-16.png'' \<mapsto> png i16,
                             ''extension/icons/icon-32.png'' \<mapsto> png i32,
                             ''extension/icons/icon-48.png'' \<mapsto> png i48,
                             ''extension/icons/icon-128.png'' \<mapsto> png i128)"
    by auto
  with s a p' d c show ?thesis by blast
qed


theorem generate_icon_writes_four_files_witness:
  "can_mkdir permissive OUT_DIR \<and> list_all (writable permissive) SIZES
   \<and> fst (generate_icon permissive empty_world) = None
   \<and> dom (files (snd (generate_icon permissive empty_world)))
       = {''extension/icons/icon-16.png'', ''extension/icons/icon-32.png'',
          ''extension/icons/icon-48.png'', ''extension/icons/icon-128.png''}
   \<and> stdout (snd (generate_icon permissive empty_world))
       = [Wrote ''extension/icons/icon-16.png'' 16, Wrote ''extension/icons/icon-32.png'' 32,
          Wrote ''extension/icons/icon-48.png'' 48, Wrote ''extension/icons/icon-128.png'' 128,
          Done ''extension/icons'']"
proof -
  have h: "can_mkdir permissive OUT_DIR" "list_all (writable permissive) SIZES"
    by (simp_all add: permissive_env list_all_iff)
  from generate_icon_writes_four_files [OF h, of empty_world] h
  show ?thesis by (simp add: empty_world_fields)
qed


section \<open>The highlight ring\<close>

text \<open>
  Claim C8. The highlight ring of the favicon makes exactly four passes, \<open>i = 0, 1, 2, 3\<close>.
  Pass \<open>i\<close> draws a width-1 rounded-rectangle outline with bounds \<open>(i, i)\<close> to
  \<open>(sz - 1 - i, sz - 1 - i)\<close> and alpha \<open>max 0 (60 - 15 * i)\<close>, that is 60, 45, 30 and 15,
  on a new fully transparent overlay, and composites the overlay onto the image built so
  far. \<^verbatim>\<open>make_vaulty_favicon\<close> runs these passes on the background it has just drawn,
  with the radius \<open>sz div 5\<close>, before it fills the glyph.
\<close>

theorem highlight_ring_four_passes:
  "range 4 = [0, 1, 2, 3]
   \<and> highlight_ring sz radius img (range 4)
       = foldl (\<lambda>acc i. AlphaComposite acc (ring_overlay sz radius i)) img [0, 1, 2, 3]
   \<and> map (\<lambda>i. max 0 (60 - 15 * i)) [0, 1, 2, 3 :: int] = [60, 45, 30, 15]
   \<and> make_vaulty_favicon sz =
       (case favicon_polys sz of
          Inl e \<Rightarrow> Inl e
        | Inr (v_poly, right_half) \<Rightarrow>
            Inr (AlphaComposite
                   (Polygon
                      (foldl (\<lambda>acc i. AlphaComposite acc (ring_overlay sz (sz div 5) i))
                         (RoundedRectangle (New RGBA sz sz (Rgba 0 0 0 0))
                            (0, 0, sz - 1, sz - 1) (sz div 5) (Some (Rgb 15 23 42)) None 1)
                         [0, 1, 2, 3])
                      v_poly (Rgb 99 102 241))
                   (Polygon (New RGBA sz sz (Rgba 0 0 0 0)) right_half (Rgba 139 92 246 200))))"
  by (simp add: range_4 ring_overlay_def make_vaulty_favicon_def Let_def mult.commute
           split: sum.splits prod.splits)

text \<open>The four passes at size 64, where the radius is 12.\<close>

theorem highlight_ring_four_passes_witness:
  "highlight_ring 64 12 (New RGBA 64 64 (Rgba 0 0 0 0)) (range 4)
     = AlphaComposite
         (AlphaComposite
            (AlphaComposite
               (AlphaComposite (New RGBA 64 64 (Rgba 0 0 0 0))
                  (RoundedRectangle (New RGBA 64 64 (Rgba 0 0 0 0)) (0, 0, 63, 63) 12
                     None (Some (Rgba 139 92 246 60)) 1))
               (RoundedRectangle (New RGBA 64 64 (Rgba 0 0 0 0)) (1, 1, 62, 62) 12
                  None (Some (Rgba 139 92 246 45)) 1))
            (RoundedRectangle (New RGBA 64 64 (Rgba 0 0 0 0)) (2, 2, 61, 61) 12
               None (Some (Rgba 139 92 246 30)) 1))
         (RoundedRectangle (New RGBA 64 64 (Rgba 0 0 0 0)) (3, 3, 60, 60) 12
            None (Some (Rgba 139 92 246 15)) 1)"
  using highlight_ring_four_passes [of 64 12 "New RGBA 64 64 (Rgba 0 0 0 0)"]
  by (simp add: ring_overlay_def)

end
